(* ===== verification/Prelude.thy ===== *)
theory Prelude
  imports Main "HOL-Library.Word"
begin

text \<open>
  Shared vocabulary of the development: the machine integers of the Rust sources, the result
  type of \<^verbatim>\<open>anyhow\<close> with its two error-adding operations and the question-mark operator,
  saturating arithmetic, prefix stripping, and four generic interfaces as locales: a codec
  (print and parse), a prefix codec (a self-delimiting encoding that can be decoded off the front
  of a byte sequence), an invariant of a transition system, and the refinement of one transition
  system by another.
\<close>

section \<open>Machine integers\<close>

type_synonym u8 = "8 word"
type_synonym u16 = "16 word"
type_synonym u32 = "32 word"
type_synonym u64 = "64 word"
type_synonym usize = "64 word"

named_theorems rust_defs "definitions unfolded when a component is evaluated or split into cases"
named_theorems rust_inv "facts that an operation keeps an invariant"

text \<open>\<^verbatim>\<open>saturating_add\<close> and \<^verbatim>\<open>saturating_sub\<close> of the unsigned Rust integers.\<close>

definition saturating_add :: "'a::len word \<Rightarrow> 'a word \<Rightarrow> 'a word" where
  "saturating_add a b =
     (if unat a + unat b < 2 ^ LENGTH('a) then a + b else - 1)"

definition saturating_sub :: "'a::len word \<Rightarrow> 'a word \<Rightarrow> 'a word" where
  "saturating_sub a b = (if b \<le> a then a - b else 0)"

lemma unat_saturating_add:
  fixes a b :: "'a::len word"
  shows "unat (saturating_add a b) = min (unat a + unat b) (2 ^ LENGTH('a) - 1)"
  by (auto simp: saturating_add_def unat_word_ariths unsigned_minus_1_eq_mask mask_eq_exp_minus_1 min_def)

lemma unat_saturating_sub:
  fixes a b :: "'a::len word"
  shows "unat (saturating_sub a b) = unat a - unat b"
  by (auto simp: saturating_sub_def unat_sub word_le_nat_alt not_le)

section \<open>Results and errors\<close>

text \<open>
  An error is identified by the text the source gives it; values interpolated into a formatted
  message are left out of it. \<open>Context\<close> is \<^verbatim>\<open>Result::context\<close>, \<open>External\<close> an error that an
  external call returned, \<open>Panic\<close> a panic.
\<close>

datatype error =
    Bail string
  | Context string error
  | External string
  | Panic string

type_synonym 'a result = "error + 'a"

text \<open>The question-mark operator, \<^verbatim>\<open>Result::context\<close>, \<^verbatim>\<open>Option::context\<close> and \<^verbatim>\<open>if c { bail! }\<close>.\<close>

fun bind_res :: "'a result \<Rightarrow> ('a \<Rightarrow> 'b result) \<Rightarrow> 'b result" where
  "bind_res (Inl e) f = Inl e"
| "bind_res (Inr x) f = f x"

fun context_res :: "string \<Rightarrow> 'a result \<Rightarrow> 'a result" where
  "context_res m (Inl e) = Inl (Context m e)"
| "context_res m (Inr x) = Inr x"

fun context_opt :: "string \<Rightarrow> 'a option \<Rightarrow> 'a result" where
  "context_opt m None = Inl (Bail m)"
| "context_opt m (Some x) = Inr x"

definition bail_if :: "bool \<Rightarrow> string \<Rightarrow> unit result" where
  "bail_if c m = (if c then Inl (Bail m) else Inr ())"

definition is_ok :: "'a result \<Rightarrow> bool" where
  "is_ok r = (case r of Inl _ \<Rightarrow> False | Inr _ \<Rightarrow> True)"

lemma is_ok_simps [simp]: "is_ok (Inr x)" "\<not> is_ok (Inl e)"
  by (simp_all add: is_ok_def)

lemma bind_res_Inr_iff [simp]:
  "bind_res r f = Inr y \<longleftrightarrow> (\<exists>x. r = Inr x \<and> f x = Inr y)"
  by (cases r) auto

lemma bind_res_is_ok [simp]:
  "is_ok (bind_res r f) \<longleftrightarrow> (\<exists>x. r = Inr x \<and> is_ok (f x))"
  by (cases r) auto

lemma bind_res_cong [fundef_cong]:
  "r = r' \<Longrightarrow> (\<And>x. r' = Inr x \<Longrightarrow> f x = g x) \<Longrightarrow> bind_res r f = bind_res r' g"
  by (cases r') auto

lemma bind_res_assoc: "bind_res (bind_res r f) g = bind_res r (\<lambda>x. bind_res (f x) g)"
  by (cases r) auto

lemma context_res_Inr_iff [simp]: "context_res m r = Inr x \<longleftrightarrow> r = Inr x"
  by (cases r) auto

lemma context_opt_Inr_iff [simp]: "context_opt m v = Inr x \<longleftrightarrow> v = Some x"
  by (cases v) auto

lemma bail_if_Inr_iff [simp]: "bail_if c m = Inr u \<longleftrightarrow> \<not> c"
  by (simp add: bail_if_def)

lemma bail_if_simps [simp]:
  "bail_if True m = Inl (Bail m)"
  "bail_if False m = Inr ()"
  by (simp_all add: bail_if_def)

lemma bind_bail_if:
  "bind_res (bail_if c m) f = (if c then Inl (Bail m) else f ())"
  by simp

section \<open>Prefixes and suffixes\<close>

fun strip_prefix :: "'a list \<Rightarrow> 'a list \<Rightarrow> 'a list option" where
  "strip_prefix [] ys = Some ys"
| "strip_prefix (x # xs) [] = None"
| "strip_prefix (x # xs) (y # ys) = (if x = y then strip_prefix xs ys else None)"

definition strip_suffix :: "'a list \<Rightarrow> 'a list \<Rightarrow> 'a list option" where
  "strip_suffix suf ys = map_option rev (strip_prefix (rev suf) (rev ys))"

lemma strip_prefix_Some_iff [simp]: "strip_prefix xs ys = Some zs \<longleftrightarrow> ys = xs @ zs"
  by (induction xs ys rule: strip_prefix.induct) auto

lemma strip_prefix_None_iff: "strip_prefix xs ys = None \<longleftrightarrow> (\<nexists>zs. ys = xs @ zs)"
  by (metis not_Some_eq strip_prefix_Some_iff)

lemma strip_prefix_append [simp]: "strip_prefix xs (xs @ ys) = Some ys"
  by simp

lemma strip_suffix_Some_iff [simp]: "strip_suffix suf ys = Some zs \<longleftrightarrow> ys = zs @ suf"
  by (auto simp: strip_suffix_def rev_swap)

lemma strip_suffix_append [simp]: "strip_suffix suf (ys @ suf) = Some ys"
  by simp

section \<open>Codecs\<close>

text \<open>A printer and a parser that undoes it on the well-formed values.\<close>

locale codec =
  fixes enc :: "'a \<Rightarrow> 'b"
    and dec :: "'b \<Rightarrow> 'a option"
    and wf :: "'a \<Rightarrow> bool"
  assumes dec_enc: "wf x \<Longrightarrow> dec (enc x) = Some x"
begin

lemma enc_inj: "wf x \<Longrightarrow> wf y \<Longrightarrow> enc x = enc y \<Longrightarrow> x = y"
  by (metis dec_enc option.inject)

lemma enc_inj_on: "inj_on enc {x. wf x}"
  by (rule inj_onI) (auto dest: enc_inj)

lemma dec_enc_iff: "wf x \<Longrightarrow> dec (enc x) = Some y \<longleftrightarrow> y = x"
  by (auto simp: dec_enc)

end

text \<open>
  \<open>decode_all\<close> takes values off the front of the input until it is used up. A decoder that
  consumes nothing is rejected, so the recursion ends.
\<close>

function decode_all :: "('b list \<Rightarrow> ('a \<times> 'b list) option) \<Rightarrow> 'b list \<Rightarrow> 'a list option" where
  "decode_all dec bs =
     (if bs = [] then Some []
      else case dec bs of
             None \<Rightarrow> None
           | Some (x, rest) \<Rightarrow>
               if length rest < length bs then map_option (Cons x) (decode_all dec rest) else None)"
  by pat_completeness auto
termination
  by (relation "measure (\<lambda>(dec, bs). length bs)") auto

declare decode_all.simps [simp del]

lemma decode_all_Nil [simp]: "decode_all dec [] = Some []"
  by (simp add: decode_all.simps)

text \<open>A self-delimiting encoding: one value is decoded off the front, whatever follows it.\<close>

locale prefix_codec =
  fixes frame :: "'a \<Rightarrow> 'b list"
    and unframe :: "'b list \<Rightarrow> ('a \<times> 'b list) option"
    and wf :: "'a \<Rightarrow> bool"
  assumes unframe_frame: "wf x \<Longrightarrow> unframe (frame x @ rest) = Some (x, rest)"
    and frame_nonempty: "wf x \<Longrightarrow> frame x \<noteq> []"
begin

lemma decode_all_frame:
  "wf x \<Longrightarrow> decode_all unframe (frame x @ rest) = map_option (Cons x) (decode_all unframe rest)"
  using frame_nonempty [of x] by (subst decode_all.simps) (simp add: unframe_frame)

lemma decode_all_frames:
  "list_all wf xs \<Longrightarrow> decode_all unframe (concat (map frame xs)) = Some xs"
  by (induction xs) (simp_all add: decode_all_frame)

lemma frames_unique:
  "list_all wf xs \<Longrightarrow> list_all wf ys \<Longrightarrow> concat (map frame xs) = concat (map frame ys) \<Longrightarrow> xs = ys"
  by (metis decode_all_frames option.inject)

lemma frame_unique:
  "wf x \<Longrightarrow> wf y \<Longrightarrow> frame x @ r = frame y @ s \<Longrightarrow> x = y \<and> r = s"
  by (metis unframe_frame option.inject prod.inject)

end

sublocale prefix_codec \<subseteq> sequence: codec "\<lambda>xs. concat (map frame xs)" "decode_all unframe" "list_all wf"
  by unfold_locales (rule decode_all_frames)

section \<open>Transition systems\<close>

inductive reach :: "('s \<Rightarrow> bool) \<Rightarrow> ('s \<Rightarrow> 's \<Rightarrow> bool) \<Rightarrow> 's \<Rightarrow> bool"
  for init :: "'s \<Rightarrow> bool" and step :: "'s \<Rightarrow> 's \<Rightarrow> bool"
where
  reach_init: "init s \<Longrightarrow> reach init step s"
| reach_step: "reach init step s \<Longrightarrow> step s t \<Longrightarrow> reach init step t"

locale inv_system =
  fixes init :: "'s \<Rightarrow> bool"
    and step :: "'s \<Rightarrow> 's \<Rightarrow> bool"
    and inv :: "'s \<Rightarrow> bool"
  assumes inv_init: "init s \<Longrightarrow> inv s"
    and inv_step: "inv s \<Longrightarrow> step s t \<Longrightarrow> inv t"
begin

lemma reach_inv: "reach init step s \<Longrightarrow> inv s"
  by (induction rule: reach.induct) (auto intro: inv_init inv_step)

lemma steps_inv: "step\<^sup>*\<^sup>* s t \<Longrightarrow> inv s \<Longrightarrow> inv t"
  by (induction rule: rtranclp_induct) (auto intro: inv_step)

end

text \<open>
  A system refines a more abstract one when every step of it is a step of the other or leaves the
  abstract state alone; the invariant may be used.
\<close>

locale refinement = inv_system init step inv
  for init :: "'s \<Rightarrow> bool" and step :: "'s \<Rightarrow> 's \<Rightarrow> bool" and inv :: "'s \<Rightarrow> bool" +
  fixes abs :: "'s \<Rightarrow> 'a"
    and ainit :: "'a \<Rightarrow> bool"
    and astep :: "'a \<Rightarrow> 'a \<Rightarrow> bool"
  assumes abs_init: "init s \<Longrightarrow> ainit (abs s)"
    and abs_step: "inv s \<Longrightarrow> step s t \<Longrightarrow> abs t = abs s \<or> astep (abs s) (abs t)"
begin

lemma reach_refines: "reach init step s \<Longrightarrow> reach ainit astep (abs s)"
proof (induction rule: reach.induct)
  case (reach_init s)
  then show ?case by (intro reach.reach_init abs_init)
next
  case (reach_step s t)
  from abs_step [OF reach_inv [OF reach_step.hyps(1)] reach_step.hyps(2)] reach_step.IH show ?case
    by (auto intro: reach.reach_step)
qed

lemma lift_inv: "(\<And>a. reach ainit astep a \<Longrightarrow> P a) \<Longrightarrow> reach init step s \<Longrightarrow> P (abs s)"
  by (blast intro: reach_refines)

end

end
