(* ===== verification/Rust_Str.thy ===== *)
theory Rust_Str
  imports Prelude
begin

text \<open>
  The parts of Rust's string library that the sources use. A \<^verbatim>\<open>str\<close> is the list of its Unicode
  scalar values; \<open>as_bytes\<close> and \<open>from_utf8\<close> go between it and its UTF-8 bytes. The lemmas give
  the UTF-8 round trip in both directions, as an instance of the prefix codec locale.
\<close>

type_synonym rchar = nat
type_synonym rstr = "rchar list"

definition lit :: "string \<Rightarrow> rstr" where
  "lit s = map of_char s"

lemma lit_simps [simp]:
  "lit [] = []"
  "lit (c # cs) = of_char c # lit cs"
  by (simp_all add: lit_def)

lemma lit_append: "lit (s @ t) = lit s @ lit t"
  by (simp add: lit_def)

section \<open>UTF-8\<close>

definition is_scalar :: "rchar \<Rightarrow> bool" where
  "is_scalar c \<longleftrightarrow> c < 0xD800 \<or> (0xE000 \<le> c \<and> c < 0x110000)"

definition byte :: "nat \<Rightarrow> u8" where
  "byte n = of_nat n"

lemma unat_byte [simp]: "n < 256 \<Longrightarrow> unat (byte n) = n"
  by (simp add: byte_def unat_of_nat take_bit_nat_eq_self)

lemma byte_unat [simp]: "byte (unat b) = b"
  by (simp add: byte_def)

definition utf8_encode_char :: "rchar \<Rightarrow> u8 list" where
  "utf8_encode_char c =
     (if c < 0x80 then [byte c]
      else if c < 0x800 then [byte (192 + c div 64), byte (128 + c mod 64)]
      else if c < 0x10000 then
        [byte (224 + c div 4096), byte (128 + c div 64 mod 64), byte (128 + c mod 64)]
      else
        [byte (240 + c div 262144), byte (128 + c div 4096 mod 64),
         byte (128 + c div 64 mod 64), byte (128 + c mod 64)])"

definition is_cont :: "u8 \<Rightarrow> bool" where
  "is_cont b \<longleftrightarrow> 128 \<le> unat b \<and> unat b < 192"

definition cont :: "u8 \<Rightarrow> nat" where
  "cont b = unat b - 128"

fun utf8_decode_char :: "u8 list \<Rightarrow> (rchar \<times> u8 list) option" where
  "utf8_decode_char [] = None"
| "utf8_decode_char (b # bs) =
     (if unat b < 128 then Some (unat b, bs)
      else if 194 \<le> unat b \<and> unat b < 224 then
        (case bs of
           c1 # r \<Rightarrow>
             if is_cont c1 then Some ((unat b - 192) * 64 + cont c1, r) else None
         | _ \<Rightarrow> None)
      else if 224 \<le> unat b \<and> unat b < 240 then
        (case bs of
           c1 # c2 # r \<Rightarrow>
             (let v = (unat b - 224) * 4096 + cont c1 * 64 + cont c2
              in if is_cont c1 \<and> is_cont c2 \<and> 0x800 \<le> v \<and> is_scalar v then Some (v, r) else None)
         | _ \<Rightarrow> None)
      else if 240 \<le> unat b \<and> unat b < 245 then
        (case bs of
           c1 # c2 # c3 # r \<Rightarrow>
             (let v = (unat b - 240) * 262144 + cont c1 * 4096 + cont c2 * 64 + cont c3
              in if is_cont c1 \<and> is_cont c2 \<and> is_cont c3 \<and> 0x10000 \<le> v \<and> is_scalar v
                 then Some (v, r) else None)
         | _ \<Rightarrow> None)
      else None)"

definition as_bytes :: "rstr \<Rightarrow> u8 list" where
  "as_bytes s = concat (map utf8_encode_char s)"

definition from_utf8 :: "u8 list \<Rightarrow> rstr option" where
  "from_utf8 bs = decode_all utf8_decode_char bs"

text \<open>\<^verbatim>\<open>str::len\<close> counts bytes.\<close>

definition str_len :: "rstr \<Rightarrow> nat" where
  "str_len s = length (as_bytes s)"

text \<open>Base-64 digits: how the payload bits of a multi-byte sequence are taken apart and put together.\<close>

lemma base64_split:
  fixes c :: nat
  shows "c div 64 * 64 + c mod 64 = c"
    and "c div 4096 * 4096 + c div 64 mod 64 * 64 + c mod 64 = c"
    and "c div 262144 * 262144 + c div 4096 mod 64 * 4096 + c div 64 mod 64 * 64 + c mod 64 = c"
proof -
  have d: "c div 4096 = c div 64 div 64" "c div 262144 = c div 64 div 64 div 64"
    by (simp_all flip: div_mult2_eq)
  have s: "m = m div 64 * 64 + m mod 64" for m :: nat
    by simp
  show "c div 64 * 64 + c mod 64 = c"
    using s [of c] by linarith
  show "c div 4096 * 4096 + c div 64 mod 64 * 64 + c mod 64 = c"
    unfolding d using s [of c] s [of "c div 64"] by linarith
  show "c div 262144 * 262144 + c div 4096 mod 64 * 4096 + c div 64 mod 64 * 64 + c mod 64 = c"
    unfolding d using s [of c] s [of "c div 64"] s [of "c div 64 div 64"] by linarith
qed

lemma base64_digits:
  fixes x y :: nat
  assumes "y < 64"
  shows "(x * 64 + y) div 64 = x" and "(x * 64 + y) mod 64 = y"
  using assms by auto

lemma utf8_decode_encode_char:
  assumes "is_scalar c"
  shows "utf8_decode_char (utf8_encode_char c @ rest) = Some (c, rest)"
proof -
  consider (one) "c < 0x80" | (two) "0x80 \<le> c" "c < 0x800" | (three) "0x800 \<le> c" "c < 0x10000"
    | (four) "0x10000 \<le> c" "c < 0x110000"
    using assms by (force simp: is_scalar_def)
  then show ?thesis
  proof cases
    case one
    then show ?thesis by (simp add: utf8_encode_char_def)
  next
    case two
    then have "2 \<le> c div 64" "c div 64 < 32" by auto
    with two base64_split(1) [of c] show ?thesis
      by (simp add: utf8_encode_char_def is_cont_def cont_def)
  next
    case three
    then have "c div 4096 < 16" by auto
    with three assms base64_split(2) [of c] show ?thesis
      by (simp add: utf8_encode_char_def is_cont_def cont_def)
  next
    case four
    then have "c div 262144 < 5" by auto
    with four assms base64_split(3) [of c] show ?thesis
      by (simp add: utf8_encode_char_def is_cont_def cont_def)
  qed
qed

lemma utf8_encode_char_nonempty: "utf8_encode_char c \<noteq> []"
  by (simp add: utf8_encode_char_def)

interpretation utf8: prefix_codec utf8_encode_char utf8_decode_char is_scalar
  by unfold_locales (simp_all add: utf8_decode_encode_char utf8_encode_char_nonempty)

text \<open>Decoding accepts only the canonical encoding, and yields scalar values.\<close>

lemma byte_cont [simp]: "is_cont b \<Longrightarrow> byte (128 + cont b) = b"
  by (simp add: is_cont_def cont_def)

lemma cont_less: "is_cont b \<Longrightarrow> cont b < 64"
  by (auto simp: is_cont_def cont_def)

lemma byte_lead: "k \<le> unat b \<Longrightarrow> byte (k + (unat b - k)) = b"
  by simp

lemma utf8_encode_two:
  assumes "194 \<le> unat b" "unat b < 224" "is_cont c1"
  shows "utf8_encode_char ((unat b - 192) * 64 + cont c1) = [b, c1]"
    and "is_scalar ((unat b - 192) * 64 + cont c1)"
proof -
  have k: "cont c1 < 64" using assms by (simp add: cont_less)
  have r: "128 \<le> (unat b - 192) * 64 + cont c1" "(unat b - 192) * 64 + cont c1 < 2048"
    using assms k by linarith+
  then show "utf8_encode_char ((unat b - 192) * 64 + cont c1) = [b, c1]"
    using assms base64_digits [OF k, of "unat b - 192"]
    by (simp add: utf8_encode_char_def)
  show "is_scalar ((unat b - 192) * 64 + cont c1)"
    using r(2) by (simp add: is_scalar_def)
qed

lemma utf8_encode_three:
  assumes "224 \<le> unat b" "unat b < 240" "is_cont c1" "is_cont c2"
    and v: "v = (unat b - 224) * 4096 + cont c1 * 64 + cont c2" and "0x800 \<le> v"
  shows "utf8_encode_char v = [b, c1, c2]"
proof -
  have k: "cont c1 < 64" "cont c2 < 64" using assms by (simp_all add: cont_less)
  have v': "v = ((unat b - 224) * 64 + cont c1) * 64 + cont c2" using v by simp
  have "v div 64 = (unat b - 224) * 64 + cont c1" "v mod 64 = cont c2"
    unfolding v' using k by (simp_all only: base64_digits)
  moreover have "v div 4096 = v div 64 div 64" by (simp flip: div_mult2_eq)
  moreover have "v < 0x10000" using assms k by linarith
  ultimately show ?thesis
    using assms k base64_digits [OF k(1), of "unat b - 224"]
    by (simp add: utf8_encode_char_def)
qed

lemma utf8_encode_four:
  assumes "240 \<le> unat b" "is_cont c1" "is_cont c2" "is_cont c3"
    and v: "v = (unat b - 240) * 262144 + cont c1 * 4096 + cont c2 * 64 + cont c3" and "0x10000 \<le> v"
  shows "utf8_encode_char v = [b, c1, c2, c3]"
proof -
  have k: "cont c1 < 64" "cont c2 < 64" "cont c3 < 64" using assms by (simp_all add: cont_less)
  have v': "v = (((unat b - 240) * 64 + cont c1) * 64 + cont c2) * 64 + cont c3" using v by simp
  have d: "v div 64 = ((unat b - 240) * 64 + cont c1) * 64 + cont c2" "v mod 64 = cont c3"
    unfolding v' using k by (simp_all only: base64_digits)
  moreover have "v div 4096 = v div 64 div 64" "v div 262144 = v div 64 div 64 div 64"
    by (simp_all flip: div_mult2_eq)
  moreover have "v div 64 div 64 = (unat b - 240) * 64 + cont c1" "v div 64 mod 64 = cont c2"
    unfolding d using k by (simp_all only: base64_digits)
  ultimately show ?thesis
    using assms k base64_digits [OF k(1), of "unat b - 240"]
    by (simp add: utf8_encode_char_def)
qed

lemma utf8_decode_char_sound:
  assumes "utf8_decode_char bs = Some (c, rest)"
  shows "is_scalar c \<and> bs = utf8_encode_char c @ rest"
  using assms
  by (cases bs)
    (auto simp: Let_def utf8_encode_two utf8_encode_three utf8_encode_four is_scalar_def [of "unat _"]
        utf8_encode_char_def [of "unat _"]
      split: if_splits list.splits)

lemma decode_all_utf8_sound:
  "decode_all utf8_decode_char bs = Some s \<Longrightarrow> list_all is_scalar s \<and> bs = as_bytes s"
proof (induction "length bs" arbitrary: bs s rule: less_induct)
  case less
  show ?case
  proof (cases "bs = []")
    case True
    with less.prems show ?thesis by (auto simp: as_bytes_def)
  next
    case False
    with less.prems obtain c rest s' where
      one: "utf8_decode_char bs = Some (c, rest)" and lt: "length rest < length bs"
      and more: "decode_all utf8_decode_char rest = Some s'" and s: "s = c # s'"
      by (subst (asm) decode_all.simps) (auto split: option.splits if_splits)
    from less.hyps [OF lt more] utf8_decode_char_sound [OF one] show ?thesis
      by (simp add: s as_bytes_def)
  qed
qed

lemma from_utf8_sound: "from_utf8 bs = Some s \<Longrightarrow> list_all is_scalar s \<and> bs = as_bytes s"
  by (simp add: from_utf8_def decode_all_utf8_sound)

lemma from_utf8_as_bytes [simp]: "list_all is_scalar s \<Longrightarrow> from_utf8 (as_bytes s) = Some s"
  unfolding from_utf8_def as_bytes_def by (rule utf8.decode_all_frames)

lemma as_bytes_append [simp]: "as_bytes (s @ t) = as_bytes s @ as_bytes t"
  by (simp add: as_bytes_def)

lemma as_bytes_simps [simp]:
  "as_bytes [] = []"
  "as_bytes (c # cs) = utf8_encode_char c @ as_bytes cs"
  by (simp_all add: as_bytes_def)

lemma as_bytes_inj: "list_all is_scalar s \<Longrightarrow> list_all is_scalar t \<Longrightarrow> as_bytes s = as_bytes t \<Longrightarrow> s = t"
  unfolding as_bytes_def by (rule utf8.frames_unique)

text \<open>ASCII texts: one byte per character.\<close>

definition is_ascii :: "rchar \<Rightarrow> bool" where
  "is_ascii c \<longleftrightarrow> c < 128"

lemma ascii_scalar: "is_ascii c \<Longrightarrow> is_scalar c"
  by (simp add: is_ascii_def is_scalar_def)

lemma list_all_ascii_scalar: "list_all is_ascii s \<Longrightarrow> list_all is_scalar s"
  by (auto simp: list_all_iff ascii_scalar)

lemma as_bytes_ascii: "list_all is_ascii s \<Longrightarrow> as_bytes s = map byte s"
  by (induction s) (simp_all add: is_ascii_def utf8_encode_char_def)

lemma str_len_ascii: "list_all is_ascii s \<Longrightarrow> str_len s = length s"
  by (simp add: str_len_def as_bytes_ascii)

lemma str_len_append: "str_len (s @ t) = str_len s + str_len t"
  by (simp add: str_len_def)

end
