(* ===== verification/Rust_Text.thy ===== *)
theory Rust_Text
  imports Rust_Str
begin

text \<open>
  Splitting, trimming and number formatting of Rust strings: \<^verbatim>\<open>char::is_whitespace\<close>, \<^verbatim>\<open>trim\<close>,
  \<^verbatim>\<open>split_whitespace\<close>, \<^verbatim>\<open>lines\<close>, decimal \<^verbatim>\<open>Display\<close> of the unsigned integers and
  \<^verbatim>\<open>str::parse\<close> into them. The lemmas say how the splitters take apart a text that was put
  together from words or lines, and that parsing a printed number gives the number back (an
  instance of the codec locale).
\<close>

section \<open>White space\<close>

text \<open>The Unicode property White_Space.\<close>

definition is_whitespace :: "rchar \<Rightarrow> bool" where
  "is_whitespace c \<longleftrightarrow>
     (9 \<le> c \<and> c \<le> 13) \<or> c = 32 \<or> c = 0x85 \<or> c = 0xA0 \<or> c = 0x1680
     \<or> (0x2000 \<le> c \<and> c \<le> 0x200A) \<or> c = 0x2028 \<or> c = 0x2029 \<or> c = 0x202F \<or> c = 0x205F \<or> c = 0x3000"

definition trim :: "rstr \<Rightarrow> rstr" where
  "trim s = rev (dropWhile is_whitespace (rev (dropWhile is_whitespace s)))"

fun split_ws_from :: "rstr \<Rightarrow> rstr \<Rightarrow> rstr list" where
  "split_ws_from cur [] = (if cur = [] then [] else [rev cur])"
| "split_ws_from cur (c # cs) =
     (if is_whitespace c
      then (if cur = [] then split_ws_from [] cs else rev cur # split_ws_from [] cs)
      else split_ws_from (c # cur) cs)"

definition split_whitespace :: "rstr \<Rightarrow> rstr list" where
  "split_whitespace s = split_ws_from [] s"

text \<open>A word: non-empty and free of white space.\<close>

definition is_word :: "rstr \<Rightarrow> bool" where
  "is_word w \<longleftrightarrow> w \<noteq> [] \<and> list_all (\<lambda>c. \<not> is_whitespace c) w"

lemma split_ws_from_word:
  "list_all (\<lambda>c. \<not> is_whitespace c) w \<Longrightarrow> split_ws_from cur (w @ s) = split_ws_from (rev w @ cur) s"
  by (induction w arbitrary: cur) auto

lemma is_whitespace_space [simp]: "is_whitespace 32" "is_whitespace 10"
  by (simp_all add: is_whitespace_def)

lemma split_whitespace_word_space:
  "is_word w \<Longrightarrow> split_whitespace (w @ 32 # s) = w # split_whitespace s"
  by (simp add: split_whitespace_def is_word_def split_ws_from_word)

lemma split_whitespace_word: "is_word w \<Longrightarrow> split_whitespace w = [w]"
  using split_ws_from_word [of w "[]" "[]"] by (simp add: split_whitespace_def is_word_def)

lemma split_whitespace_Nil [simp]: "split_whitespace [] = []"
  by (simp add: split_whitespace_def)

text \<open>Words joined by single spaces.\<close>

fun join_space :: "rstr list \<Rightarrow> rstr" where
  "join_space [] = []"
| "join_space [w] = w"
| "join_space (w # ws) = w @ 32 # join_space ws"

lemma split_whitespace_join_space: "list_all is_word ws \<Longrightarrow> split_whitespace (join_space ws) = ws"
  by (induction ws rule: join_space.induct)
    (simp_all add: split_whitespace_word split_whitespace_word_space)

lemma split_ws_from_words: "cur = [] \<or> is_word (rev cur) \<Longrightarrow> list_all is_word (split_ws_from cur s)"
  by (induction cur s rule: split_ws_from.induct) (auto simp: is_word_def)

lemma split_whitespace_words: "list_all is_word (split_whitespace s)"
  by (simp add: split_whitespace_def split_ws_from_words)

lemma trim_empty_iff: "trim s = [] \<longleftrightarrow> list_all is_whitespace s"
proof -
  define d where "d = dropWhile is_whitespace s"
  have hd: "d \<noteq> [] \<Longrightarrow> \<not> is_whitespace (hd d)"
    unfolding d_def by (rule hd_dropWhile)
  have "trim s = [] \<longleftrightarrow> (\<forall>c \<in> set d. is_whitespace c)"
    by (simp add: trim_def d_def)
  also have "\<dots> \<longleftrightarrow> d = []"
    using hd by (cases d) auto
  also have "\<dots> \<longleftrightarrow> list_all is_whitespace s"
    by (simp add: d_def list_all_iff)
  finally show ?thesis .
qed

lemma trim_id: "s = [] \<or> (\<not> is_whitespace (hd s) \<and> \<not> is_whitespace (last s)) \<Longrightarrow> trim s = s"
  by (cases s) (auto simp: trim_def dropWhile_eq_self_iff hd_rev split: if_splits)

lemma trim_last: "trim s \<noteq> [] \<Longrightarrow> \<not> is_whitespace (last (trim s))"
  using hd_dropWhile [of is_whitespace "rev (dropWhile is_whitespace s)"]
  by (auto simp: trim_def last_rev)

lemma trim_scalar: "list_all is_scalar s \<Longrightarrow> list_all is_scalar (trim s)"
  by (metis (no_types, lifting) list_all_iff set_dropWhileD set_rev trim_def)

lemma trim_append_ws:
  assumes "list_all is_whitespace t"
  shows "trim (s @ t) = trim s"
proof (cases "list_all is_whitespace s")
  case True
  with assms have "trim (s @ t) = []" "trim s = []" by (simp_all add: trim_empty_iff)
  then show ?thesis by simp
next
  case False
  with assms show ?thesis by (auto simp: trim_def list_all_iff dropWhile_append)
qed

section \<open>Lines\<close>

fun split_inclusive_nl :: "rstr \<Rightarrow> rstr \<Rightarrow> rstr list" where
  "split_inclusive_nl cur [] = (if cur = [] then [] else [rev cur])"
| "split_inclusive_nl cur (c # cs) =
     (if c = 10 then rev (c # cur) # split_inclusive_nl [] cs else split_inclusive_nl (c # cur) cs)"

definition line_content :: "rstr \<Rightarrow> rstr" where
  "line_content l =
     (case strip_suffix [10] l of
        None \<Rightarrow> l
      | Some l' \<Rightarrow> (case strip_suffix [13] l' of None \<Rightarrow> l' | Some l'' \<Rightarrow> l''))"

definition lines :: "rstr \<Rightarrow> rstr list" where
  "lines s = map line_content (split_inclusive_nl [] s)"

lemma split_inclusive_nl_plain:
  "10 \<notin> set l \<Longrightarrow> split_inclusive_nl cur (l @ s) = split_inclusive_nl (rev l @ cur) s"
  by (induction l arbitrary: cur) auto

lemma line_content_last: "10 \<notin> set l \<Longrightarrow> line_content l = l"
  by (cases "strip_suffix [10] l") (auto simp: line_content_def)

lemma line_content_nl: "l = [] \<or> last l \<noteq> 13 \<Longrightarrow> line_content (l @ [10]) = l"
  by (cases "strip_suffix [13] l") (auto simp: line_content_def)

lemma lines_Nil [simp]: "lines [] = []"
  by (simp add: lines_def)

lemma lines_single: "10 \<notin> set l \<Longrightarrow> l \<noteq> [] \<Longrightarrow> lines l = [l]"
  using split_inclusive_nl_plain [of l "[]" "[]"] by (simp add: lines_def line_content_last)

lemma lines_Cons:
  "10 \<notin> set l \<Longrightarrow> l = [] \<or> last l \<noteq> 13 \<Longrightarrow> lines (l @ 10 # s) = l # lines s"
  by (simp add: lines_def split_inclusive_nl_plain line_content_nl)

text \<open>What a line can contain, whatever the text.\<close>

lemma split_inclusive_nl_no_nl:
  "10 \<notin> set cur \<Longrightarrow> l \<in> set (split_inclusive_nl cur s) \<Longrightarrow> 10 \<notin> set (butlast l)"
  by (induction cur s rule: split_inclusive_nl.induct)
    (auto dest: in_set_butlastD list.set_sel(2) [rotated] split: if_splits)

lemma lines_no_nl: "l \<in> set (lines s) \<Longrightarrow> 10 \<notin> set l"
proof -
  assume "l \<in> set (lines s)"
  then obtain l0 where l0: "l0 \<in> set (split_inclusive_nl [] s)" and l: "l = line_content l0"
    by (auto simp: lines_def)
  from split_inclusive_nl_no_nl [OF _ l0] have "10 \<notin> set (butlast l0)" by simp
  then show ?thesis
  proof (cases l0 rule: rev_cases)
    case Nil
    then show ?thesis by (simp add: l line_content_last)
  next
    case (snoc xs c)
    with \<open>10 \<notin> set (butlast l0)\<close> have "10 \<notin> set xs" by simp
    then show ?thesis
      unfolding l snoc
      by (cases "c = 10"; cases "strip_suffix [13] xs") (auto simp: line_content_def split: option.split)
  qed
qed

lemma concat_split_inclusive_nl: "concat (split_inclusive_nl cur s) = rev cur @ s"
  by (induction cur s rule: split_inclusive_nl.induct) auto

lemma line_content_prefix: "\<exists>t. l = line_content l @ t"
proof (cases "strip_suffix [10] l")
  case None
  then show ?thesis by (simp add: line_content_def)
next
  case (Some l')
  then have l: "l = l' @ [10]" by simp
  have "\<exists>u. l' = line_content l @ u"
    using Some
    by (cases "strip_suffix [13] l'") (auto simp: line_content_def simp del: strip_suffix_Some_iff
        dest: strip_suffix_Some_iff [THEN iffD1])
  then show ?thesis by (metis append.assoc l)
qed

lemma lines_first: "lines s = l # ls \<Longrightarrow> \<exists>t. s = l @ t"
proof -
  assume "lines s = l # ls"
  then obtain l0 rest where "split_inclusive_nl [] s = l0 # rest" and l: "l = line_content l0"
    by (auto simp: lines_def map_eq_Cons_conv)
  with concat_split_inclusive_nl [of "[]" s] have "s = l0 @ concat rest" by simp
  with line_content_prefix [of l0] show ?thesis by (metis append.assoc l)
qed

section \<open>Decimal numbers\<close>

fun dec :: "nat \<Rightarrow> rstr" where
  "dec n = (if n < 10 then [48 + n] else dec (n div 10) @ [48 + n mod 10])"

declare dec.simps [simp del]

definition is_digit :: "rchar \<Rightarrow> bool" where
  "is_digit c \<longleftrightarrow> 48 \<le> c \<and> c \<le> 57"

fun parse_digits :: "nat \<Rightarrow> nat \<Rightarrow> rstr \<Rightarrow> nat option" where
  "parse_digits mx acc [] = Some acc"
| "parse_digits mx acc (c # cs) =
     (if is_digit c
      then (if acc * 10 + (c - 48) \<le> mx then parse_digits mx (acc * 10 + (c - 48)) cs else None)
      else None)"

text \<open>
  \<^verbatim>\<open>from_str_radix\<close> at base ten for an unsigned type with maximum \<open>mx\<close>: an optional plus sign, at
  least one digit, no value above the maximum.
\<close>

definition parse_uint :: "nat \<Rightarrow> rstr \<Rightarrow> nat option" where
  "parse_uint mx s =
     (case s of
        [] \<Rightarrow> None
      | c # cs \<Rightarrow> if c = 43 \<and> cs \<noteq> [] then parse_digits mx 0 cs else parse_digits mx 0 s)"

definition parse_u64 :: "rstr \<Rightarrow> u64 option" where
  "parse_u64 s = map_option of_nat (parse_uint (2 ^ 64 - 1) s)"

definition dec_u64 :: "u64 \<Rightarrow> rstr" where
  "dec_u64 w = dec (unat w)"

lemma dec_digits: "list_all is_digit (dec n)"
proof (induction n rule: dec.induct)
  case (1 n)
  moreover have "n mod 10 < 10" by simp
  then have "is_digit (48 + n mod 10)" by (simp add: is_digit_def)
  ultimately show ?case by (subst dec.simps) (simp add: is_digit_def [of "48 + _"])
qed

lemma dec_nonempty [simp]: "dec n \<noteq> []"
  by (subst dec.simps) simp

lemma parse_digits_append:
  "parse_digits mx acc (s @ t) =
     (case parse_digits mx acc s of None \<Rightarrow> None | Some v \<Rightarrow> parse_digits mx v t)"
  by (induction mx acc s rule: parse_digits.induct) auto

lemma parse_digits_dec: "n \<le> mx \<Longrightarrow> parse_digits mx 0 (dec n) = Some n"
proof (induction n rule: dec.induct)
  case (1 n)
  show ?case
  proof (cases "n < 10")
    case True
    with 1 show ?thesis by (simp add: dec.simps is_digit_def)
  next
    case False
    with 1 have "parse_digits mx 0 (dec (n div 10)) = Some (n div 10)" by simp
    with False 1 show ?thesis
      by (subst dec.simps) (simp add: parse_digits_append is_digit_def)
  qed
qed

lemma digit_props:
  assumes "is_digit c"
  shows "\<not> is_whitespace c" "c \<noteq> 43" "is_ascii c" "c \<noteq> 10" "c \<noteq> 13"
  using assms by (auto simp: is_digit_def is_whitespace_def is_ascii_def)

lemma dec_hd_digit: "is_digit (hd (dec n))"
  using dec_digits [of n] by (cases "dec n") auto

lemma parse_uint_dec: "n \<le> mx \<Longrightarrow> parse_uint mx (dec n) = Some n"
  using dec_hd_digit [of n] parse_digits_dec [of n mx]
  by (cases "dec n") (auto simp: parse_uint_def digit_props)

lemma parse_u64_dec_u64: "parse_u64 (dec_u64 w) = Some w"
  using unsigned_less [of w, where 'a = nat] by (simp add: parse_u64_def dec_u64_def parse_uint_dec)

interpretation decimal: codec dec_u64 parse_u64 "\<lambda>_. True"
  by unfold_locales (rule parse_u64_dec_u64)

lemma dec_is_word: "is_word (dec n)"
  using dec_digits [of n] by (auto simp: is_word_def list_all_iff digit_props)

lemma dec_ascii: "list_all is_ascii (dec n)"
  using dec_digits [of n] by (auto simp: list_all_iff digit_props)

lemma dec_no_newline: "10 \<notin> set (dec n)" "13 \<notin> set (dec n)"
  using dec_digits [of n] by (auto simp: list_all_iff is_digit_def)

lemma parse_digits_bound: "parse_digits mx acc s = Some v \<Longrightarrow> acc \<le> mx \<Longrightarrow> v \<le> mx"
  by (induction mx acc s rule: parse_digits.induct) (auto split: if_splits)

text \<open>The number of characters a number takes.\<close>

lemma length_dec: "n < 10 ^ k \<Longrightarrow> 0 < k \<Longrightarrow> length (dec n) \<le> k"
proof (induction k arbitrary: n)
  case 0
  then show ?case by simp
next
  case (Suc k)
  show ?case
  proof (cases "n < 10")
    case True
    then show ?thesis by (subst dec.simps) simp
  next
    case False
    with Suc.prems have "n div 10 < 10 ^ k" and "0 < k"
      by (auto intro: less_mult_imp_div_less gr0I)
    then have "length (dec (n div 10)) \<le> k" by (rule Suc.IH)
    with False show ?thesis by (subst dec.simps) simp
  qed
qed

lemma length_dec_u64: "length (dec_u64 w) \<le> 20"
proof -
  have "unat w < 10 ^ 20" using unsigned_less [of w, where 'a = nat] by simp
  then show ?thesis by (simp add: dec_u64_def length_dec)
qed

end
