(* ===== verification/Litevpn_Core.thy ===== *)
theory Litevpn_Core
  imports Rust_Text
begin

text \<open>
  The constants of \<^verbatim>\<open>crates/litevpn-core/src/lib.rs\<close>: the protocol's magic bytes and answers and
  the defaults and limits the configuration uses.
\<close>

definition ALPN :: "u8 list" where
  "ALPN = as_bytes (lit ''litevpn/1'')"

definition AUTH_MAGIC :: "u8 list" where
  "AUTH_MAGIC = as_bytes (lit ''LVPN1 '')"

definition AUTH_OK :: "u8 list" where
  "AUTH_OK = as_bytes (lit ''OK'' @ [10])"

definition AUTH_ERR :: "u8 list" where
  "AUTH_ERR = as_bytes (lit ''ERR'' @ [10])"

definition DEFAULT_MTU :: u16 where
  "DEFAULT_MTU = 1300"

definition MAX_MTU :: u16 where
  "MAX_MTU = 1400"

definition DEFAULT_DATAGRAM_BUFFER_BYTES :: usize where
  "DEFAULT_DATAGRAM_BUFFER_BYTES = 4 * 1024 * 1024"

definition DEFAULT_DATAGRAM_BACKLOG_PACKETS :: u64 where
  "DEFAULT_DATAGRAM_BACKLOG_PACKETS = 64"

definition DEFAULT_UDP_SOCKET_BUFFER_BYTES :: usize where
  "DEFAULT_UDP_SOCKET_BUFFER_BYTES = 0"

lemmas core_consts [rust_defs] =
  ALPN_def AUTH_MAGIC_def AUTH_OK_def AUTH_ERR_def DEFAULT_MTU_def MAX_MTU_def
  DEFAULT_DATAGRAM_BUFFER_BYTES_def DEFAULT_DATAGRAM_BACKLOG_PACKETS_def
  DEFAULT_UDP_SOCKET_BUFFER_BYTES_def

lemma auth_answers_differ: "AUTH_OK \<noteq> AUTH_ERR"
  by (simp add: AUTH_OK_def AUTH_ERR_def utf8_encode_char_def byte_def)

lemma length_AUTH_MAGIC: "length AUTH_MAGIC = 6"
  by (simp add: AUTH_MAGIC_def utf8_encode_char_def byte_def)

lemma length_auth_answers: "length AUTH_OK \<le> 4" "length AUTH_ERR \<le> 4"
  by (simp_all add: AUTH_OK_def AUTH_ERR_def utf8_encode_char_def byte_def)

end
