(* ===== verification/Actions.thy ===== *)
theory Actions
  imports Prelude
begin

text \<open>
  Programs as actions. The \<^verbatim>\<open>main\<close> functions of client and server are sequences of calls with early
  returns; an action is what such a sequence has done so far: the state of the outside world it
  changed, the events that are visible outside in their order, and its result. The result \<open>None\<close> says
  that it has not returned: one of its loops still runs, or it waits for something that has not come.
\<close>

type_synonym ('t, 'e, 'a) act = "'t \<times> 'e list \<times> 'a result option"

definition bind_act :: "('t, 'e, 'a) act \<Rightarrow> ('t \<Rightarrow> 'a \<Rightarrow> ('t, 'e, 'b) act) \<Rightarrow> ('t, 'e, 'b) act" where
  "bind_act m f =
     (case m of
        (t, ev, None) \<Rightarrow> (t, ev, None)
      | (t, ev, Some (Inl e)) \<Rightarrow> (t, ev, Some (Inl e))
      | (t, ev, Some (Inr x)) \<Rightarrow> (case f t x of (t', ev', r) \<Rightarrow> (t', ev @ ev', r)))"

text \<open>A call that changes nothing outside and returns.\<close>

abbreviation call :: "'t \<Rightarrow> 'a result \<Rightarrow> ('t, 'e, 'a) act" where
  "call t r \<equiv> (t, [], Some r)"

text \<open>Sequencing without a state: a result that may not be there yet.\<close>

definition bind_run :: "'a result option \<Rightarrow> ('a \<Rightarrow> 'b result option) \<Rightarrow> 'b result option" where
  "bind_run m f =
     (case m of None \<Rightarrow> None | Some (Inl e) \<Rightarrow> Some (Inl e) | Some (Inr x) \<Rightarrow> f x)"

lemma bind_act_call [simp]:
  "bind_act (call t (Inl e)) f = call t (Inl e)"
  "bind_act (call t (Inr x)) f = f t x"
  by (simp_all add: bind_act_def split: prod.split)

lemma bind_act_Inr [simp]: "bind_act (t, ev, Some (Inr x)) f = (fst (f t x), ev @ fst (snd (f t x)), snd (snd (f t x)))"
  by (simp add: bind_act_def split: prod.split)

lemma bind_act_stop [simp]:
  "bind_act (t, ev, None) f = (t, ev, None)" "bind_act (t, ev, Some (Inl e)) f = (t, ev, Some (Inl e))"
  by (simp_all add: bind_act_def)

lemma bind_act_cong [fundef_cong]:
  assumes "m = m'" and "\<And>t ev x. m' = (t, ev, Some (Inr x)) \<Longrightarrow> f t x = g t x"
  shows "bind_act m f = bind_act m' g"
  using assms by (auto simp: bind_act_def split: prod.split option.split sum.split)

text \<open>State, events and result of a sequence.\<close>

lemma bind_act_state:
  "fst (bind_act m f) = (case snd (snd m) of Some (Inr x) \<Rightarrow> fst (f (fst m) x) | _ \<Rightarrow> fst m)"
  by (cases m) (simp add: bind_act_def split: option.split sum.split prod.split)

lemma bind_act_event:
  "e \<in> set (fst (snd (bind_act m f))) \<longleftrightarrow>
     e \<in> set (fst (snd m)) \<or> (\<exists>x. snd (snd m) = Some (Inr x) \<and> e \<in> set (fst (snd (f (fst m) x))))"
  by (cases m) (auto simp: bind_act_def split: option.split sum.split prod.split)

lemma bind_act_result:
  "snd (snd (bind_act m f)) =
     (case snd (snd m) of None \<Rightarrow> None | Some (Inl e) \<Rightarrow> Some (Inl e) | Some (Inr x) \<Rightarrow> snd (snd (f (fst m) x)))"
  by (cases m) (simp add: bind_act_def split: option.split sum.split prod.split)

lemma bind_act_Inr_iff:
  "bind_act m f = (t', ev, Some (Inr y)) \<longleftrightarrow>
     (\<exists>t ev1 ev2 x. m = (t, ev1, Some (Inr x)) \<and> f t x = (t', ev2, Some (Inr y)) \<and> ev = ev1 @ ev2)"
  by (cases m) (auto simp: bind_act_def split: option.split sum.split prod.split)

lemma bind_run_simps [simp]:
  "bind_run None f = None" "bind_run (Some (Inl e)) f = Some (Inl e)" "bind_run (Some (Inr x)) f = f x"
  by (simp_all add: bind_run_def)

lemma bind_run_Inr_iff [simp]:
  "bind_run m f = Some (Inr y) \<longleftrightarrow> (\<exists>x. m = Some (Inr x) \<and> f x = Some (Inr y))"
  by (auto simp: bind_run_def split: option.split sum.split)

end
