(* ===== verification/Auth.thy ===== *)
theory Auth
  imports Litevpn_Core Actions
begin

text \<open>
  \<^verbatim>\<open>crates/litevpn-core/src/auth.rs\<close>: the token handshake on the first bidirectional stream. The
  bytes of the request, its parser and the two ends of the exchange. What an end gets back from
  the QUIC library is an argument of the model (the records \<open>client_auth_io\<close> and
  \<open>server_auth_io\<close>); what it does to its sending stream is part of its result. The lemmas: the request
  codec round trip, that an accepted request is exactly one carrying the token, the bounds on an accepted
  benchmark request, and the outcome at both ends when each reads what the other has sent.
\<close>

section \<open>Modes and requests\<close>

datatype BenchDirection =
    Upload | Download | StreamUpload | StreamDownload | StreamPacketUpload | StreamPacketDownload

fun as_str :: "BenchDirection \<Rightarrow> rstr" where
  "as_str Upload = lit ''upload''"
| "as_str Download = lit ''download''"
| "as_str StreamUpload = lit ''stream-upload''"
| "as_str StreamDownload = lit ''stream-download''"
| "as_str StreamPacketUpload = lit ''stream-packet-upload''"
| "as_str StreamPacketDownload = lit ''stream-packet-download''"

fun uses_datagrams :: "BenchDirection \<Rightarrow> bool" where
  "uses_datagrams Upload = True"
| "uses_datagrams Download = True"
| "uses_datagrams _ = False"

text \<open>The fields of \<open>Bench\<close> are direction, duration in seconds, payload bytes and target Mbps.\<close>

datatype AuthMode =
    Vpn
  | Bench BenchDirection u64 usize "u64 option"

definition MAX_AUTH_BYTES :: nat where
  "MAX_AUTH_BYTES = 1024"

text \<open>The request that \<^verbatim>\<open>client_authenticate_with_mode\<close> builds.\<close>

definition mode_line :: "BenchDirection \<Rightarrow> u64 \<Rightarrow> usize \<Rightarrow> u64 option \<Rightarrow> rstr" where
  "mode_line direction duration_secs payload_bytes target_mbps =
     lit ''bench '' @ as_str direction @ lit '' '' @ dec_u64 duration_secs @ lit '' ''
     @ dec_u64 payload_bytes @ lit '' '' @ dec_u64 (case target_mbps of None \<Rightarrow> 0 | Some m \<Rightarrow> m)"

definition auth_request :: "rstr \<Rightarrow> AuthMode \<Rightarrow> u8 list" where
  "auth_request token mode =
     AUTH_MAGIC @ as_bytes token @ as_bytes [10]
     @ (case mode of
          Vpn \<Rightarrow> []
        | Bench direction duration_secs payload_bytes target_mbps \<Rightarrow>
            as_bytes (mode_line direction duration_secs payload_bytes target_mbps @ [10]))"

section \<open>Parsing\<close>

text \<open>The \<open>i\<close>-th call of \<^verbatim>\<open>next\<close> on an iterator over \<open>parts\<close>.\<close>

definition nth_next :: "'a list \<Rightarrow> nat \<Rightarrow> 'a option" where
  "nth_next parts i = (if i < length parts then Some (parts ! i) else None)"

definition direction_of_str :: "rstr \<Rightarrow> BenchDirection option" where
  "direction_of_str v =
     (if v = lit ''upload'' then Some Upload
      else if v = lit ''download'' then Some Download
      else if v = lit ''stream-upload'' then Some StreamUpload
      else if v = lit ''stream-download'' then Some StreamDownload
      else if v = lit ''stream-packet-upload'' then Some StreamPacketUpload
      else if v = lit ''stream-packet-download'' then Some StreamPacketDownload
      else None)"

definition parse_number :: "string \<Rightarrow> rstr \<Rightarrow> u64 result" where
  "parse_number m v =
     context_res m (case parse_u64 v of None \<Rightarrow> Inl (External ''ParseIntError'') | Some w \<Rightarrow> Inr w)"

definition parse_mode :: "rstr \<Rightarrow> AuthMode result" where
  "parse_mode line =
     (let parts = split_whitespace line in
      bind_res (bail_if (nth_next parts 0 \<noteq> Some (lit ''bench'')) ''unknown auth mode'') (\<lambda>_.
      bind_res (context_opt ''bench direction must be upload, download, stream-upload, stream-download, stream-packet-upload, or stream-packet-download''
          (Option.bind (nth_next parts 1) direction_of_str)) (\<lambda>direction.
      bind_res (context_opt ''missing bench duration'' (nth_next parts 2)) (\<lambda>v2.
      bind_res (parse_number ''invalid bench duration'' v2) (\<lambda>duration_secs.
      bind_res (context_opt ''missing bench payload size'' (nth_next parts 3)) (\<lambda>v3.
      bind_res (parse_number ''invalid bench payload size'' v3) (\<lambda>payload_bytes.
      bind_res (case nth_next parts 4 of
                  Some value \<Rightarrow>
                    bind_res (parse_number ''invalid bench target Mbps'' value) (\<lambda>value.
                    Inr (if value = 0 then None else Some value))
                | None \<Rightarrow> Inr None) (\<lambda>target_mbps.
      bind_res (bail_if (nth_next parts 5 \<noteq> None) ''too many bench mode fields'') (\<lambda>_.
      bind_res (bail_if (duration_secs = 0) ''bench duration must be greater than zero'') (\<lambda>_.
      bind_res (bail_if (\<not> (64 \<le> payload_bytes \<and> payload_bytes \<le> 1452))
          ''bench payload size must be between 64 and 1452 bytes'') (\<lambda>_.
      Inr (Bench direction duration_secs payload_bytes target_mbps))))))))))))"

definition parse_request :: "u8 list \<Rightarrow> (rstr \<times> AuthMode) result" where
  "parse_request request =
     bind_res (context_opt ''invalid auth magic'' (strip_prefix AUTH_MAGIC request)) (\<lambda>payload.
     bind_res (context_opt ''auth request is not utf-8'' (from_utf8 payload)) (\<lambda>payload.
     bind_res (context_opt ''auth request must end with newline'' (strip_suffix [10] payload)) (\<lambda>payload.
     let ls = lines payload in
     bind_res (context_opt ''missing auth token'' (nth_next ls 0)) (\<lambda>token.
     bind_res (case nth_next ls 1 of None \<Rightarrow> Inr Vpn | Some line \<Rightarrow> parse_mode line) (\<lambda>mode.
     bind_res (bail_if (nth_next ls 2 \<noteq> None) ''too many auth request lines'') (\<lambda>_.
     Inr (token, mode)))))))"

section \<open>The two ends\<close>

text \<open>
  What an end does to its sending stream, in order. A call of the client's end that has not returned is
  \<open>None\<close>: nothing bounds the time it waits. The server's end runs under a timeout of its caller.
\<close>

datatype stream_op = WriteAll "u8 list" | Finish

record client_auth_io =
  ca_open_bi :: "unit result option"
  ca_write_all :: "unit result option"
  ca_finish :: "unit result"
  ca_response :: "u8 list result option"

record server_auth_io =
  sa_accept_bi :: "unit result"
  sa_request :: "u8 list result"
  sa_write_all :: "unit result"
  sa_finish :: "unit result"

text \<open>Each end returns its stream operations and its result; the client's may not be there yet.\<close>

definition client_authenticate_with_mode ::
    "client_auth_io \<Rightarrow> rstr \<Rightarrow> AuthMode \<Rightarrow> stream_op list \<times> unit result option" where
  "client_authenticate_with_mode io token mode =
     snd (bind_act ((), [], map_option (context_res ''failed to open auth stream'') (ca_open_bi io)) (\<lambda>_ _.
     bind_act ((), [WriteAll (auth_request token mode)],
       map_option (context_res ''failed to send auth token'') (ca_write_all io)) (\<lambda>_ _.
     bind_act ((), [Finish], Some (context_res ''failed to finish auth stream'' (ca_finish io))) (\<lambda>_ _.
     bind_act ((), [], map_option (context_res ''failed to read auth response'') (ca_response io)) (\<lambda>_ response.
     call () (bail_if (response \<noteq> AUTH_OK) ''server rejected client token''))))))"

definition client_authenticate :: "client_auth_io \<Rightarrow> rstr \<Rightarrow> stream_op list \<times> unit result option" where
  "client_authenticate io token = client_authenticate_with_mode io token Vpn"

definition server_authenticate ::
    "server_auth_io \<Rightarrow> rstr \<Rightarrow> stream_op list \<times> AuthMode result" where
  "server_authenticate io expected_token =
     (case bind_res (context_res ''failed to accept auth stream'' (sa_accept_bi io)) (\<lambda>_.
           bind_res (context_res ''failed to read auth request'' (sa_request io)) (\<lambda>request.
           parse_request request)) of
        Inl e \<Rightarrow> ([], Inl e)
      | Inr (token, mode) \<Rightarrow>
          (let ok = (token = expected_token);
               answer = WriteAll (if ok then AUTH_OK else AUTH_ERR)
           in case context_res ''failed to send auth response'' (sa_write_all io) of
                Inl e \<Rightarrow> ([answer], Inl e)
              | Inr _ \<Rightarrow>
                  ([answer, Finish],
                   bind_res (context_res ''failed to finish auth response'' (sa_finish io)) (\<lambda>_.
                   bind_res (bail_if (\<not> ok) ''invalid client token'') (\<lambda>_.
                   Inr mode)))))"

text \<open>The byte strings written to a stream, and what its reader gets from it once it has been finished.\<close>

fun written :: "stream_op list \<Rightarrow> u8 list list" where
  "written [] = []"
| "written (WriteAll bs # ops) = bs # written ops"
| "written (Finish # ops) = written ops"

definition stream_content :: "stream_op list \<Rightarrow> u8 list option" where
  "stream_content ops = (if Finish \<in> set ops then Some (concat (written ops)) else None)"

section \<open>Facts about the pieces\<close>

text \<open>A benchmark mode the server takes, and a token that survives the line format.\<close>

fun valid_mode :: "AuthMode \<Rightarrow> bool" where
  "valid_mode Vpn = True"
| "valid_mode (Bench direction duration_secs payload_bytes target_mbps) =
     (duration_secs \<noteq> 0 \<and> 64 \<le> payload_bytes \<and> payload_bytes \<le> 1452 \<and> target_mbps \<noteq> Some 0)"

definition wire_token :: "rstr \<Rightarrow> bool" where
  "wire_token t \<longleftrightarrow> t \<noteq> [] \<and> list_all is_scalar t \<and> 10 \<notin> set t \<and> last t \<noteq> 13"

lemma direction_of_str_as_str: "direction_of_str (as_str d) = Some d"
  by (cases d) (simp_all add: direction_of_str_def)

interpretation direction: codec as_str direction_of_str "\<lambda>_. True"
  by unfold_locales (rule direction_of_str_as_str)

lemma direction_of_str_sound: "direction_of_str v = Some d \<Longrightarrow> v = as_str d"
  by (auto simp: direction_of_str_def split: if_splits)

lemma as_str_word: "is_word (as_str d)" "list_all is_ascii (as_str d)" "10 \<notin> set (as_str d)"
  by (cases d; simp add: is_word_def is_whitespace_def is_ascii_def)+

lemma length_as_str: "length (as_str d) \<le> 22"
  by (cases d) simp_all

lemma dec_u64_word: "is_word (dec_u64 w)" "list_all is_ascii (dec_u64 w)" "10 \<notin> set (dec_u64 w)"
  by (simp_all add: dec_u64_def dec_is_word dec_ascii dec_no_newline)

lemma parse_number_dec_u64 [simp]: "parse_number m (dec_u64 w) = Inr w"
  by (simp add: parse_number_def parse_u64_dec_u64)

lemma bench_word: "is_word (lit ''bench'')" "list_all is_ascii (lit ''bench'')"
  by (simp_all add: is_word_def is_whitespace_def is_ascii_def)

lemma mode_line_join:
  "mode_line d s p t =
     join_space [lit ''bench'', as_str d, dec_u64 s, dec_u64 p, dec_u64 (case t of None \<Rightarrow> 0 | Some m \<Rightarrow> m)]"
  by (simp add: mode_line_def)

lemma split_mode_line:
  "split_whitespace (mode_line d s p t) =
     [lit ''bench'', as_str d, dec_u64 s, dec_u64 p, dec_u64 (case t of None \<Rightarrow> 0 | Some m \<Rightarrow> m)]"
  unfolding mode_line_join
  by (rule split_whitespace_join_space) (simp add: as_str_word dec_u64_word bench_word del: lit_simps)

lemma parse_mode_mode_line:
  "valid_mode (Bench d s p t) \<Longrightarrow> parse_mode (mode_line d s p t) = Inr (Bench d s p t)"
  by (cases t)
    (simp_all add: parse_mode_def Let_def split_mode_line nth_next_def direction_of_str_as_str
      del: lit_simps)

lemma mode_line_text:
  "list_all is_ascii (mode_line d s p t)" "10 \<notin> set (mode_line d s p t)" "mode_line d s p t \<noteq> []"
  by (simp_all add: mode_line_def as_str_word dec_u64_word is_ascii_def)

lemma parse_mode_valid: "parse_mode line = Inr m \<Longrightarrow> valid_mode m \<and> m \<noteq> Vpn"
  by (auto simp: parse_mode_def Let_def split: option.splits if_splits)

section \<open>Requests\<close>

text \<open>The text of a request without its final newline.\<close>

definition request_text :: "rstr \<Rightarrow> AuthMode \<Rightarrow> rstr" where
  "request_text token mode =
     (case mode of Vpn \<Rightarrow> token | Bench d s p t \<Rightarrow> token @ 10 # mode_line d s p t)"

lemma auth_request_text: "auth_request token mode = AUTH_MAGIC @ as_bytes (request_text token mode @ [10])"
  by (cases mode) (simp_all add: auth_request_def request_text_def)

lemma request_text_scalar: "wire_token token \<Longrightarrow> list_all is_scalar (request_text token mode)"
  by (cases mode)
    (auto simp: request_text_def wire_token_def ascii_scalar is_ascii_def
      intro!: list_all_ascii_scalar mode_line_text)

lemma lines_request_text:
  "wire_token token \<Longrightarrow>
     lines (request_text token mode) =
       (case mode of Vpn \<Rightarrow> [token] | Bench d s p t \<Rightarrow> [token, mode_line d s p t])"
  by (cases mode)
    (auto simp: request_text_def wire_token_def lines_single lines_Cons mode_line_text)

lemma parse_request_text:
  "list_all is_scalar body \<Longrightarrow>
     parse_request (AUTH_MAGIC @ as_bytes (body @ [10])) =
       bind_res (context_opt ''missing auth token'' (nth_next (lines body) 0)) (\<lambda>token.
       bind_res (case nth_next (lines body) 1 of None \<Rightarrow> Inr Vpn | Some line \<Rightarrow> parse_mode line) (\<lambda>mode.
       bind_res (bail_if (nth_next (lines body) 2 \<noteq> None) ''too many auth request lines'') (\<lambda>_.
       Inr (token, mode))))"
  by (simp add: parse_request_def Let_def is_scalar_def del: as_bytes_append)

lemma auth_request_parsed:
  assumes "wire_token token" and "valid_mode mode"
  shows "parse_request (auth_request token mode) = Inr (token, mode)"
proof -
  have "(case nth_next (lines (request_text token mode)) 1 of None \<Rightarrow> Inr Vpn | Some line \<Rightarrow> parse_mode line)
      = Inr mode"
    using assms by (cases mode) (simp_all add: lines_request_text nth_next_def parse_mode_mode_line)
  moreover have "nth_next (lines (request_text token mode)) 0 = Some token"
    and "nth_next (lines (request_text token mode)) 2 = None"
    using assms by (cases mode; simp add: lines_request_text nth_next_def)+
  ultimately show ?thesis
    using assms unfolding auth_request_text
    by (simp add: parse_request_text request_text_scalar del: as_bytes_append)
qed

text \<open>
  C11: The server's parser recovers exactly the token and the mode from the bytes the client
  builds, for every token of one line and every mode the server accepts.
\<close>

theorem auth_request_roundtrip:
  assumes "wire_token token" and "valid_mode mode"
  shows "parse_request (auth_request token mode) = Inr (token, mode)"
  using assms by (rule auth_request_parsed)

theorem auth_request_roundtrip_witness:
  "wire_token (lit ''abcdef'') \<and> valid_mode (Bench StreamPacketDownload 5 1300 (Some 40)) \<and>
   parse_request (auth_request (lit ''abcdef'') (Bench StreamPacketDownload 5 1300 (Some 40)))
     = Inr (lit ''abcdef'', Bench StreamPacketDownload 5 1300 (Some 40))"
proof -
  have t: "wire_token (lit ''abcdef'')"
    by (simp add: wire_token_def is_scalar_def)
  have m: "valid_mode (Bench StreamPacketDownload 5 1300 (Some 40))"
    by simp
  show ?thesis using t m auth_request_roundtrip [OF t m] by blast
qed

interpretation request: codec "\<lambda>(token, mode). auth_request token mode"
    "\<lambda>bs. case parse_request bs of Inl _ \<Rightarrow> None | Inr x \<Rightarrow> Some x"
    "\<lambda>(token, mode). wire_token token \<and> valid_mode mode"
  by unfold_locales (auto simp: auth_request_parsed)

text \<open>Requests that are byte for byte the same ask for the same mode with the same token.\<close>

lemma auth_request_unambiguous:
  assumes "wire_token t1" "valid_mode m1" "wire_token t2" "valid_mode m2"
    and "auth_request t1 m1 = auth_request t2 m2"
  shows "t1 = t2 \<and> m1 = m2"
  using request.enc_inj [of "(t1, m1)" "(t2, m2)"] assms by simp

text \<open>What any accepted request looks like, well-formed client or not.\<close>

lemma parse_request_body:
  assumes "parse_request req = Inr (t, m)"
  obtains body where "req = AUTH_MAGIC @ as_bytes (body @ [10])" "list_all is_scalar body"
    "nth_next (lines body) 0 = Some t" "nth_next (lines body) 2 = None"
    "(case nth_next (lines body) 1 of None \<Rightarrow> Inr Vpn | Some line \<Rightarrow> parse_mode line) = Inr m"
proof -
  from assms obtain payload body where req: "req = AUTH_MAGIC @ payload"
    and u: "from_utf8 payload = Some (body @ [10])"
    and r: "nth_next (lines body) 0 = Some t" "nth_next (lines body) 2 = None"
      "(case nth_next (lines body) 1 of None \<Rightarrow> Inr Vpn | Some line \<Rightarrow> parse_mode line) = Inr m"
    by (auto simp: parse_request_def Let_def)
  from from_utf8_sound [OF u] have "payload = as_bytes (body @ [10])" "list_all is_scalar body"
    by auto
  with req r that show thesis by blast
qed

text \<open>
  C18: Whatever bytes arrive, a request that parses starts with the magic followed by the bytes of
  the token it is taken to carry, the token is a single line, and a benchmark mode is within the
  server's bounds: a non-zero duration, 64 to 1452 payload bytes, no zero target.
\<close>

theorem parse_request_sound:
  assumes "parse_request req = Inr (t, m)"
  shows "valid_mode m \<and> 10 \<notin> set t \<and> (\<exists>rest. req = AUTH_MAGIC @ as_bytes t @ rest)"
proof -
  from assms obtain body where req: "req = AUTH_MAGIC @ as_bytes (body @ [10])"
    and t: "nth_next (lines body) 0 = Some t"
    and m: "(case nth_next (lines body) 1 of None \<Rightarrow> Inr Vpn | Some line \<Rightarrow> parse_mode line) = Inr m"
    by (rule parse_request_body)
  from t obtain ls where ls: "lines body = t # ls"
    by (cases "lines body") (auto simp: nth_next_def)
  from lines_first [OF ls] obtain r where "body = t @ r" by blast
  moreover have "10 \<notin> set t" by (rule lines_no_nl [of _ body]) (simp add: ls)
  moreover have "valid_mode m" using m by (auto split: option.splits dest: parse_mode_valid)
  ultimately show ?thesis using req by auto
qed

theorem parse_request_sound_witness:
  "10 \<notin> set (lit ''abcdef'') \<and>
   (\<exists>rest. auth_request (lit ''abcdef'') Vpn = AUTH_MAGIC @ as_bytes (lit ''abcdef'') @ rest)"
proof -
  have "parse_request (auth_request (lit ''abcdef'') Vpn) = Inr (lit ''abcdef'', Vpn)"
    by (rule auth_request_parsed) (simp_all add: wire_token_def is_scalar_def)
  from parse_request_sound [OF this] show ?thesis by blast
qed

section \<open>The server's decision and the whole handshake\<close>

lemma client_writes_request:
  "bs \<in> set (written (fst (client_authenticate_with_mode io token mode))) \<Longrightarrow> bs = auth_request token mode"
  by (auto simp: client_authenticate_with_mode_def bind_act_def split: option.splits sum.splits)

lemma server_authenticate_Inr_iff:
  "snd (server_authenticate io expected) = Inr mode \<longleftrightarrow>
     sa_accept_bi io = Inr () \<and> sa_write_all io = Inr () \<and> sa_finish io = Inr ()
     \<and> (\<exists>req. sa_request io = Inr req \<and> parse_request req = Inr (expected, mode))"
  by (cases "sa_write_all io")
    (auto simp: server_authenticate_def Let_def split: sum.splits prod.splits elim!: bind_res.elims)

lemma server_authenticate_ops:
  "\<exists>answer. fst (server_authenticate io expected) \<in> {[], [WriteAll answer], [WriteAll answer, Finish]}"
  by (auto simp: server_authenticate_def Let_def split: sum.splits)

lemma server_authenticate_ok_iff:
  "WriteAll AUTH_OK \<in> set (fst (server_authenticate io expected)) \<longleftrightarrow>
     sa_accept_bi io = Inr ()
     \<and> (\<exists>req mode. sa_request io = Inr req \<and> parse_request req = Inr (expected, mode))"
  by (cases "sa_accept_bi io"; cases "sa_request io"; cases "parse_request (projr (sa_request io))"; cases "sa_write_all io")
    (auto simp: server_authenticate_def Let_def auth_answers_differ split: if_splits)

lemma server_authenticate_Inr_ops:
  "snd (server_authenticate io expected) = Inr mode \<Longrightarrow> fst (server_authenticate io expected) = [WriteAll AUTH_OK, Finish]"
  by (cases "sa_write_all io")
    (auto simp: server_authenticate_def Let_def split: sum.splits prod.splits)

text \<open>
  C1: The server lets a connection in exactly when it accepted the stream, read a request that parses with
  the expected token, and wrote and finished its answer: an error of the stream at any of these calls
  keeps the connection out. It answers OK exactly when the request it read parses with the expected
  token, it writes at most one answer, and a connection it lets in has been sent the whole OK.
\<close>

theorem server_authenticate_safe:
  "(snd (server_authenticate io expected) = Inr mode \<longleftrightarrow>
      sa_accept_bi io = Inr ()
      \<and> (\<exists>req. sa_request io = Inr req \<and> parse_request req = Inr (expected, mode))
      \<and> sa_write_all io = Inr () \<and> sa_finish io = Inr ())
   \<and> (WriteAll AUTH_OK \<in> set (fst (server_authenticate io expected)) \<longleftrightarrow>
      sa_accept_bi io = Inr ()
      \<and> (\<exists>req mode. sa_request io = Inr req \<and> parse_request req = Inr (expected, mode)))
   \<and> (\<exists>answer. fst (server_authenticate io expected) \<in> {[], [WriteAll answer], [WriteAll answer, Finish]})
   \<and> (snd (server_authenticate io expected) = Inr mode \<longrightarrow>
      fst (server_authenticate io expected) = [WriteAll AUTH_OK, Finish])"
  using server_authenticate_Inr_iff [of io expected mode] server_authenticate_ok_iff [of io expected]
    server_authenticate_ops [of io expected] server_authenticate_Inr_ops [of io expected mode]
  by blast

theorem server_authenticate_safe_witness:
  "let io = \<lparr>sa_accept_bi = Inr (), sa_request = Inr (auth_request (lit ''abcdef'') Vpn),
             sa_write_all = Inr (), sa_finish = Inr ()\<rparr>
   in snd (server_authenticate io (lit ''abcdef'')) = Inr Vpn
      \<and> fst (server_authenticate io (lit ''abcdef'')) = [WriteAll AUTH_OK, Finish]"
proof -
  define io where "io = \<lparr>sa_accept_bi = Inr (), sa_request = Inr (auth_request (lit ''abcdef'') Vpn),
    sa_write_all = Inr (), sa_finish = Inr ()\<rparr>"
  have "parse_request (auth_request (lit ''abcdef'') Vpn) = Inr (lit ''abcdef'', Vpn)"
    by (rule auth_request_parsed) (simp_all add: wire_token_def is_scalar_def)
  then have "snd (server_authenticate io (lit ''abcdef'')) = Inr Vpn"
    by (simp add: server_authenticate_Inr_iff io_def)
  with server_authenticate_safe [of io "lit ''abcdef''" Vpn] show ?thesis
    by (simp add: io_def)
qed

text \<open>
  \<^verbatim>\<open>RecvStream::read_to_end(limit)\<close> returns everything the peer wrote before it finished the stream,
  if that is at most \<open>limit\<close> bytes. \<open>handshake\<close> runs both ends over streams that do so, with no
  transport error: the client up to where it waits for the response, the server on the bytes that the
  client has sent by then, and the client on to its end with the bytes that the server has answered. It
  has no outcome (\<open>None\<close>) when an end waits for a stream that the other has not finished.
\<close>

definition read_to_end_spec :: "(nat \<Rightarrow> u8 list \<Rightarrow> u8 list result) \<Rightarrow> bool" where
  "read_to_end_spec read_to_end \<longleftrightarrow> (\<forall>limit bs. length bs \<le> limit \<longrightarrow> read_to_end limit bs = Inr bs)"

definition client_end :: "u8 list result option \<Rightarrow> rstr \<Rightarrow> AuthMode \<Rightarrow> stream_op list \<times> unit result option" where
  "client_end response token mode =
     client_authenticate_with_mode \<lparr>ca_open_bi = Some (Inr ()), ca_write_all = Some (Inr ()), ca_finish = Inr (),
       ca_response = response\<rparr> token mode"

definition server_end :: "u8 list result \<Rightarrow> rstr \<Rightarrow> stream_op list \<times> AuthMode result" where
  "server_end request expected =
     server_authenticate \<lparr>sa_accept_bi = Inr (), sa_request = request, sa_write_all = Inr (), sa_finish = Inr ()\<rparr> expected"

definition handshake ::
    "(nat \<Rightarrow> u8 list \<Rightarrow> u8 list result) \<Rightarrow> rstr \<Rightarrow> AuthMode \<Rightarrow> rstr \<Rightarrow> (unit result \<times> AuthMode result) option" where
  "handshake read_to_end token mode expected =
     Option.bind (stream_content (fst (client_end None token mode))) (\<lambda>request.
     let (answers, server) = server_end (read_to_end MAX_AUTH_BYTES request) expected in
     Option.bind (stream_content answers) (\<lambda>response.
     Option.bind (snd (client_end (Some (read_to_end MAX_AUTH_BYTES response)) token mode)) (\<lambda>client.
     Some (client, server))))"

lemma length_mode_line: "length (mode_line d s p t) \<le> 91"
  using length_as_str [of d] length_dec_u64 [of s] length_dec_u64 [of p]
    length_dec_u64 [of "case t of None \<Rightarrow> 0 | Some m \<Rightarrow> m"]
  by (simp add: mode_line_def)

text \<open>A request fits the 1024 bytes the server reads when the token has at most 925 bytes.\<close>

lemma auth_request_fits:
  assumes "str_len token \<le> 925"
  shows "length (auth_request token mode) \<le> MAX_AUTH_BYTES"
proof (cases mode)
  case Vpn
  with assms show ?thesis
    by (simp add: auth_request_def MAX_AUTH_BYTES_def length_AUTH_MAGIC str_len_def utf8_encode_char_def)
next
  case (Bench d s p t)
  have "length (as_bytes (mode_line d s p t)) = length (mode_line d s p t)"
    by (simp add: as_bytes_ascii mode_line_text)
  with Bench assms length_mode_line [of d s p t] show ?thesis
    by (simp add: auth_request_def MAX_AUTH_BYTES_def length_AUTH_MAGIC str_len_def utf8_encode_char_def)
qed

lemma handshake_result:
  assumes "read_to_end_spec read_to_end" and "wire_token token" and "valid_mode mode"
    and "str_len token \<le> 925"
  shows "handshake read_to_end token mode expected =
     Some (if token = expected then (Inr (), Inr mode)
       else (Inl (Bail ''server rejected client token''), Inl (Bail ''invalid client token'')))"
proof -
  have req: "read_to_end MAX_AUTH_BYTES (auth_request token mode) = Inr (auth_request token mode)"
    using assms auth_request_fits [OF assms(4)] by (simp add: read_to_end_spec_def)
  have ans: "read_to_end MAX_AUTH_BYTES AUTH_OK = Inr AUTH_OK" "read_to_end MAX_AUTH_BYTES AUTH_ERR = Inr AUTH_ERR"
    using assms(1) length_auth_answers by (simp_all add: read_to_end_spec_def MAX_AUTH_BYTES_def)
  show ?thesis
    using auth_request_parsed [OF assms(2,3)] auth_answers_differ
    by (simp add: handshake_def client_end_def server_end_def server_authenticate_def client_authenticate_with_mode_def
        stream_content_def req ans Let_def)
qed

text \<open>
  C17: Over streams that deliver what each end has written and finished, the handshake succeeds at both ends when the tokens agree, the
  server then runs the very mode the client asked for, and when the tokens differ it fails at both
  ends, the client learning that it was rejected. The request fits what the server reads whatever the
  mode, for tokens of at most 925 bytes.
\<close>

theorem handshake_outcome:
  assumes "read_to_end_spec read_to_end" and "wire_token token" and "valid_mode mode"
    and "str_len token \<le> 925"
  shows "handshake read_to_end token mode expected =
     Some (if token = expected then (Inr (), Inr mode)
       else (Inl (Bail ''server rejected client token''), Inl (Bail ''invalid client token'')))"
  using assms by (rule handshake_result)

theorem handshake_outcome_witness:
  "handshake (\<lambda>limit bs. if length bs \<le> limit then Inr bs else Inl (External ''too long''))
     (lit ''abcdef'') Vpn (lit ''abcdefg'')
   = Some (Inl (Bail ''server rejected client token''), Inl (Bail ''invalid client token''))"
proof -
  have len: "str_len (lit ''abcdef'') \<le> 925" by (simp add: str_len_def utf8_encode_char_def)
  have tok: "wire_token (lit ''abcdef'')"
    by (simp add: wire_token_def is_scalar_def)
  have rte: "read_to_end_spec (\<lambda>limit bs. if length bs \<le> limit then Inr bs else Inl (External ''too long''))"
    by (simp add: read_to_end_spec_def)
  show ?thesis
    using handshake_outcome [OF rte tok _ len, of Vpn "lit ''abcdefg''"] by simp
qed

end
