(* ===== verification/Config.thy ===== *)
theory Config
  imports Litevpn_Core
begin

text \<open>
  \<^verbatim>\<open>crates/litevpn-core/src/config.rs\<close>: the two configuration records with their defaults, the
  validators, and the loading of a configuration and of the token. Reading a file and parsing TOML
  are arguments. The locale \<open>validator\<close> is the contract between a validator and its callers: it
  returns \<open>Ok\<close> exactly on the values that satisfy a predicate; every validator of the file is an
  instance of it.
\<close>

section \<open>Data\<close>

datatype CongestionController = Cubic | Bbr

datatype VpnTransportMode = Datagram | Stream

type_synonym Ipv4Addr = "u8 \<times> u8 \<times> u8 \<times> u8"

text \<open>An address with its port.\<close>

datatype SocketAddr = SocketAddrV4 Ipv4Addr u16 | SocketAddrV6 "128 word" u16

fun is_ipv6 :: "SocketAddr \<Rightarrow> bool" where
  "is_ipv6 (SocketAddrV4 _ _) = False"
| "is_ipv6 (SocketAddrV6 _ _) = True"
type_synonym path = rstr

record ServerConfig =
  sc_listen :: rstr
  sc_tun_name :: rstr
  sc_tun_ip :: Ipv4Addr
  sc_tun_prefix :: u8
  sc_client_ip :: Ipv4Addr
  sc_mtu :: u16
  sc_cert_path :: path
  sc_key_path :: path
  sc_auth_token_path :: path
  sc_external_interface :: rstr
  sc_datagram_buffer_bytes :: usize
  sc_enable_linux_offload :: bool
  sc_tx_queue_len :: "u32 option"
  sc_congestion_controller :: CongestionController
  sc_udp_recv_buffer_bytes :: usize
  sc_udp_send_buffer_bytes :: usize
  sc_egress_target_mbps :: u64
  sc_datagram_backlog_packets :: u64
  sc_adaptive_egress :: bool
  sc_vpn_transport :: VpnTransportMode

record ClientConfig =
  cc_server :: rstr
  cc_server_name :: rstr
  cc_tun_name :: rstr
  cc_client_ip :: Ipv4Addr
  cc_server_tun_ip :: Ipv4Addr
  cc_tun_prefix :: u8
  cc_mtu :: u16
  cc_ca_cert_path :: path
  cc_auth_token_path :: path
  cc_route_all :: bool
  cc_dns :: "rstr list"
  cc_datagram_buffer_bytes :: usize
  cc_congestion_controller :: CongestionController
  cc_udp_recv_buffer_bytes :: usize
  cc_udp_send_buffer_bytes :: usize
  cc_egress_target_mbps :: u64
  cc_datagram_backlog_packets :: u64
  cc_adaptive_egress :: bool
  cc_vpn_transport :: VpnTransportMode

definition default_ServerConfig :: ServerConfig where
  "default_ServerConfig =
     \<lparr>sc_listen = lit ''0.0.0.0:443'',
      sc_tun_name = lit ''tun0'',
      sc_tun_ip = (10, 66, 0, 1),
      sc_tun_prefix = 24,
      sc_client_ip = (10, 66, 0, 2),
      sc_mtu = DEFAULT_MTU,
      sc_cert_path = lit ''/etc/litevpn/server.crt'',
      sc_key_path = lit ''/etc/litevpn/server.key'',
      sc_auth_token_path = lit ''/etc/litevpn/client.token'',
      sc_external_interface = lit ''ens3'',
      sc_datagram_buffer_bytes = DEFAULT_DATAGRAM_BUFFER_BYTES,
      sc_enable_linux_offload = False,
      sc_tx_queue_len = Some 10000,
      sc_congestion_controller = Cubic,
      sc_udp_recv_buffer_bytes = DEFAULT_UDP_SOCKET_BUFFER_BYTES,
      sc_udp_send_buffer_bytes = DEFAULT_UDP_SOCKET_BUFFER_BYTES,
      sc_egress_target_mbps = 36,
      sc_datagram_backlog_packets = DEFAULT_DATAGRAM_BACKLOG_PACKETS,
      sc_adaptive_egress = True,
      sc_vpn_transport = Datagram\<rparr>"

definition default_ClientConfig :: ClientConfig where
  "default_ClientConfig =
     \<lparr>cc_server = lit ''127.0.0.1:443'',
      cc_server_name = lit ''litevpn.local'',
      cc_tun_name = [],
      cc_client_ip = (10, 66, 0, 2),
      cc_server_tun_ip = (10, 66, 0, 1),
      cc_tun_prefix = 24,
      cc_mtu = DEFAULT_MTU,
      cc_ca_cert_path = lit ''./config/server.crt'',
      cc_auth_token_path = lit ''./config/client.token'',
      cc_route_all = True,
      cc_dns = [lit ''1.1.1.1'', lit ''8.8.8.8''],
      cc_datagram_buffer_bytes = DEFAULT_DATAGRAM_BUFFER_BYTES,
      cc_congestion_controller = Bbr,
      cc_udp_recv_buffer_bytes = DEFAULT_UDP_SOCKET_BUFFER_BYTES,
      cc_udp_send_buffer_bytes = DEFAULT_UDP_SOCKET_BUFFER_BYTES,
      cc_egress_target_mbps = 13,
      cc_datagram_backlog_packets = DEFAULT_DATAGRAM_BACKLOG_PACKETS,
      cc_adaptive_egress = False,
      cc_vpn_transport = Datagram\<rparr>"

section \<open>Validation\<close>

definition validate_common :: "u16 \<Rightarrow> u8 \<Rightarrow> usize \<Rightarrow> unit result" where
  "validate_common mtu prefix datagram_buffer_bytes =
     bind_res (bail_if (mtu < 576) ''mtu must be >= 576'') (\<lambda>_.
     bind_res (bail_if (mtu > MAX_MTU) ''mtu must be <= {MAX_MTU} for QUIC datagram safety'') (\<lambda>_.
     bind_res (bail_if (prefix > 32) ''tun_prefix must be <= 32'') (\<lambda>_.
     bail_if (datagram_buffer_bytes < 64 * 1024) ''datagram_buffer_bytes is too small'')))"

definition validate_udp_socket_buffers :: "usize \<Rightarrow> usize \<Rightarrow> unit result" where
  "validate_udp_socket_buffers recv_buffer_bytes send_buffer_bytes =
     bind_res (bail_if (recv_buffer_bytes \<noteq> 0 \<and> recv_buffer_bytes < 64 * 1024)
       ''udp_recv_buffer_bytes must be 0 or >= 65536'') (\<lambda>_.
     bail_if (send_buffer_bytes \<noteq> 0 \<and> send_buffer_bytes < 64 * 1024)
       ''udp_send_buffer_bytes must be 0 or >= 65536'')"

definition validate_egress_target :: "u64 \<Rightarrow> unit result" where
  "validate_egress_target egress_target_mbps =
     bail_if (egress_target_mbps > 10000) ''egress_target_mbps must be <= 10000''"

definition validate_datagram_backlog :: "u64 \<Rightarrow> unit result" where
  "validate_datagram_backlog datagram_backlog_packets =
     bail_if (datagram_backlog_packets > 100000) ''datagram_backlog_packets must be <= 100000''"

definition validate_ServerConfig :: "ServerConfig \<Rightarrow> unit result" where
  "validate_ServerConfig c =
     bind_res (validate_common (sc_mtu c) (sc_tun_prefix c) (sc_datagram_buffer_bytes c)) (\<lambda>_.
     bind_res (validate_udp_socket_buffers (sc_udp_recv_buffer_bytes c) (sc_udp_send_buffer_bytes c)) (\<lambda>_.
     bind_res (validate_egress_target (sc_egress_target_mbps c)) (\<lambda>_.
     bind_res (validate_datagram_backlog (sc_datagram_backlog_packets c)) (\<lambda>_.
     bind_res (bail_if (trim (sc_tun_name c) = []) ''server tun_name must not be empty'') (\<lambda>_.
     bail_if (trim (sc_external_interface c) = []) ''external_interface must not be empty'')))))"

definition validate_ClientConfig :: "ClientConfig \<Rightarrow> unit result" where
  "validate_ClientConfig c =
     bind_res (validate_common (cc_mtu c) (cc_tun_prefix c) (cc_datagram_buffer_bytes c)) (\<lambda>_.
     bind_res (validate_udp_socket_buffers (cc_udp_recv_buffer_bytes c) (cc_udp_send_buffer_bytes c)) (\<lambda>_.
     bind_res (validate_egress_target (cc_egress_target_mbps c)) (\<lambda>_.
     bind_res (validate_datagram_backlog (cc_datagram_backlog_packets c)) (\<lambda>_.
     bind_res (bail_if (trim (cc_server c) = []) ''server must not be empty'') (\<lambda>_.
     bail_if (trim (cc_server_name c) = []) ''server_name must not be empty'')))))"

section \<open>Loading\<close>

definition load_toml :: "(path \<Rightarrow> rstr result) \<Rightarrow> (rstr \<Rightarrow> 'c result) \<Rightarrow> path \<Rightarrow> 'c result" where
  "load_toml read_to_string from_str p =
     bind_res (context_res ''failed to read config {}'' (read_to_string p)) (\<lambda>raw.
     context_res ''failed to parse config {}'' (from_str raw))"

definition load_token :: "(path \<Rightarrow> rstr result) \<Rightarrow> path \<Rightarrow> rstr result" where
  "load_token read_to_string p =
     bind_res (context_res ''failed to read token {}'' (read_to_string p)) (\<lambda>raw.
     let token = trim raw in
     bind_res (bail_if (str_len token < 32) ''token in {} is too short; run litevpn-keygen'') (\<lambda>_.
     Inr token))"

section \<open>The validator contract\<close>

locale validator =
  fixes check :: "'c \<Rightarrow> unit result"
    and good :: "'c \<Rightarrow> bool"
  assumes check_iff: "check c = Inr () \<longleftrightarrow> good c"
begin

text \<open>Code behind the question mark of a validator runs on good values only.\<close>

lemma gate: "bind_res (check c) (\<lambda>_. f) = Inr y \<longleftrightarrow> good c \<and> f = Inr y"
  by (auto simp: check_iff)

lemma rejected_iff: "(\<exists>e. check c = Inl e) \<longleftrightarrow> \<not> good c"
  by (metis check_iff sum.exhaust old.unit.exhaust sum.distinct(1))

end

definition common_ok :: "u16 \<times> u8 \<times> usize \<Rightarrow> bool" where
  "common_ok = (\<lambda>(mtu, prefix, buf). 576 \<le> unat mtu \<and> unat mtu \<le> 1400 \<and> unat prefix \<le> 32 \<and> 65536 \<le> unat buf)"

definition udp_buffers_ok :: "usize \<times> usize \<Rightarrow> bool" where
  "udp_buffers_ok = (\<lambda>(recv, send). (recv = 0 \<or> 65536 \<le> unat recv) \<and> (send = 0 \<or> 65536 \<le> unat send))"

lemma word_le_numeral_unat:
  fixes w :: "'a::len word"
  shows "(numeral k \<le> w) = (unat (numeral k :: 'a word) \<le> unat w)"
    and "(w \<le> numeral k) = (unat w \<le> unat (numeral k :: 'a word))"
    and "(w < numeral k) = (unat w < unat (numeral k :: 'a word))"
    and "(numeral k < w) = (unat (numeral k :: 'a word) < unat w)"
  by (simp_all only: word_le_nat_alt word_less_nat_alt)

interpretation common: validator "\<lambda>(mtu, prefix, buf). validate_common mtu prefix buf" common_ok
  by unfold_locales
    (auto simp: validate_common_def common_ok_def MAX_MTU_def word_le_numeral_unat not_less)

interpretation udp_buffers: validator "\<lambda>(recv, send). validate_udp_socket_buffers recv send" udp_buffers_ok
  by unfold_locales
    (auto simp: validate_udp_socket_buffers_def udp_buffers_ok_def word_le_numeral_unat not_less)

interpretation egress_target: validator validate_egress_target "\<lambda>t. unat t \<le> 10000"
  by unfold_locales (auto simp: validate_egress_target_def word_le_numeral_unat not_less)

interpretation datagram_backlog: validator validate_datagram_backlog "\<lambda>b. unat b \<le> 100000"
  by unfold_locales (auto simp: validate_datagram_backlog_def word_le_numeral_unat not_less)

definition server_config_ok :: "ServerConfig \<Rightarrow> bool" where
  "server_config_ok c \<longleftrightarrow>
     common_ok (sc_mtu c, sc_tun_prefix c, sc_datagram_buffer_bytes c)
     \<and> udp_buffers_ok (sc_udp_recv_buffer_bytes c, sc_udp_send_buffer_bytes c)
     \<and> unat (sc_egress_target_mbps c) \<le> 10000
     \<and> unat (sc_datagram_backlog_packets c) \<le> 100000
     \<and> \<not> list_all is_whitespace (sc_tun_name c)
     \<and> \<not> list_all is_whitespace (sc_external_interface c)"

definition client_config_ok :: "ClientConfig \<Rightarrow> bool" where
  "client_config_ok c \<longleftrightarrow>
     common_ok (cc_mtu c, cc_tun_prefix c, cc_datagram_buffer_bytes c)
     \<and> udp_buffers_ok (cc_udp_recv_buffer_bytes c, cc_udp_send_buffer_bytes c)
     \<and> unat (cc_egress_target_mbps c) \<le> 10000
     \<and> unat (cc_datagram_backlog_packets c) \<le> 100000
     \<and> \<not> list_all is_whitespace (cc_server c)
     \<and> \<not> list_all is_whitespace (cc_server_name c)"

interpretation server_config: validator validate_ServerConfig server_config_ok
  by unfold_locales
    (use common.check_iff udp_buffers.check_iff egress_target.check_iff datagram_backlog.check_iff in
      \<open>auto simp: validate_ServerConfig_def server_config_ok_def trim_empty_iff\<close>)

interpretation client_config: validator validate_ClientConfig client_config_ok
  by unfold_locales
    (use common.check_iff udp_buffers.check_iff egress_target.check_iff datagram_backlog.check_iff in
      \<open>auto simp: validate_ClientConfig_def client_config_ok_def trim_empty_iff\<close>)

section \<open>What validation guarantees\<close>

text \<open>
  C34: A server configuration passes validation exactly when its MTU is between 576 and 1400, its
  prefix at most 32, its datagram buffer at least 64 KiB, each UDP socket buffer zero or at least
  64 KiB, its pacing target at most 10000 Mbps, its backlog cap at most 100000 packets and neither
  interface name blank.
\<close>

theorem server_validate_exact:
  "validate_ServerConfig c = Inr () \<longleftrightarrow>
     576 \<le> unat (sc_mtu c) \<and> unat (sc_mtu c) \<le> 1400 \<and> unat (sc_tun_prefix c) \<le> 32
     \<and> 65536 \<le> unat (sc_datagram_buffer_bytes c)
     \<and> (sc_udp_recv_buffer_bytes c = 0 \<or> 65536 \<le> unat (sc_udp_recv_buffer_bytes c))
     \<and> (sc_udp_send_buffer_bytes c = 0 \<or> 65536 \<le> unat (sc_udp_send_buffer_bytes c))
     \<and> unat (sc_egress_target_mbps c) \<le> 10000 \<and> unat (sc_datagram_backlog_packets c) \<le> 100000
     \<and> (\<exists>x \<in> set (sc_tun_name c). \<not> is_whitespace x)
     \<and> (\<exists>x \<in> set (sc_external_interface c). \<not> is_whitespace x)"
  unfolding server_config.check_iff server_config_ok_def common_ok_def udp_buffers_ok_def
  by (auto simp: list_all_iff)

text \<open>
  Both default configurations pass their validation, and they describe the two ends of the same
  tunnel: the addresses mirror each other and prefix, MTU and transport agree.
\<close>

lemma default_configs_valid:
  "validate_ServerConfig default_ServerConfig = Inr ()
   \<and> validate_ClientConfig default_ClientConfig = Inr ()
   \<and> sc_tun_ip default_ServerConfig = cc_server_tun_ip default_ClientConfig
   \<and> sc_client_ip default_ServerConfig = cc_client_ip default_ClientConfig
   \<and> sc_tun_prefix default_ServerConfig = cc_tun_prefix default_ClientConfig
   \<and> sc_mtu default_ServerConfig = cc_mtu default_ClientConfig
   \<and> sc_vpn_transport default_ServerConfig = cc_vpn_transport default_ClientConfig"
  unfolding server_config.check_iff client_config.check_iff server_config_ok_def client_config_ok_def
    common_ok_def udp_buffers_ok_def
  by (simp add: default_ServerConfig_def default_ClientConfig_def rust_defs is_whitespace_def)

text \<open>A loaded token is trimmed and has at least 32 bytes; a shorter one is refused.\<close>

lemma load_token_Inr_iff:
  "load_token read_to_string p = Inr t \<longleftrightarrow>
     (\<exists>raw. read_to_string p = Inr raw \<and> t = trim raw \<and> 32 \<le> str_len t)"
  by (auto simp: load_token_def Let_def)

end
