(* ===== verification/Stream_Frame.thy ===== *)
theory Stream_Frame
  imports Litevpn_Core
begin

text \<open>
  The packet framing of \<^verbatim>\<open>crates/litevpn-core/src/quic.rs\<close>: \<^verbatim>\<open>write_stream_packet\<close>,
  \<^verbatim>\<open>read_stream_packet\<close>, \<^verbatim>\<open>read_stream_exact_or_eof\<close>, \<^verbatim>\<open>finish_stream_with_ack\<close> and the loop
  \<^verbatim>\<open>pump_stream_to_tun\<close>. A packet travels as two length bytes, high byte first, and its contents.
  The QUIC receive stream is an argument \<open>rd\<close>: a state, and what \<^verbatim>\<open>RecvStream::read\<close> with room for
  \<open>n\<close> bytes returns in it. The loops are \<^theory_text>\<open>partial_function\<close>s, so that a loop that never
  returns has the value \<open>None\<close>. The locale \<open>recv_stream\<close> states what the loops rely on (the bytes
  come in order, at most \<open>n\<close> at a time, and not with empty reads for ever); in it the loops are
  shown to return, and to return the packets, whatever the sizes of the reads.
\<close>

section \<open>Length prefix\<close>

definition to_be_bytes :: "u16 \<Rightarrow> u8 list" where
  "to_be_bytes w = [of_nat (unat w div 256), of_nat (unat w mod 256)]"

definition from_be_bytes :: "u8 list \<Rightarrow> u16" where
  "from_be_bytes bs = of_nat (unat (bs ! 0) * 256 + unat (bs ! 1))"

text \<open>
  \<^verbatim>\<open>write_stream_packet\<close> returns the header buffer it leaves behind, the chunks it hands to
  \<^verbatim>\<open>write_all_chunks\<close> and its result; \<open>write_all_chunks\<close> is what that call returns.
\<close>

definition write_stream_packet ::
    "unit result \<Rightarrow> u8 list \<Rightarrow> u8 list \<Rightarrow> u8 list \<times> u8 list list \<times> unit result" where
  "write_stream_packet write_all_chunks frame_header packet =
     (if length packet > 65535
      then (frame_header, [], Inl (Bail ''{label}: stream packet is too large: {packet_len} bytes''))
      else if length frame_header < 2
      then (frame_header, [], Inl (Bail ''{label}: stream frame header buffer {} bytes is too small''))
      else
        (let len = to_be_bytes (of_nat (length packet));
             header' = len @ drop 2 frame_header
         in (header', [take 2 header', packet], write_all_chunks)))"

section \<open>Reading\<close>

datatype read_outcome = RGot "u8 list" | REof | RFail error

partial_function (option) read_exact_from ::
    "('s \<Rightarrow> nat \<Rightarrow> read_outcome \<times> 's) \<Rightarrow> nat \<Rightarrow> u8 list \<Rightarrow> 's
     \<Rightarrow> ((bool \<times> u8 list) result \<times> 's) option" where
  "read_exact_from rd len buf s =
     (if length buf < len then
        (case rd s (len - length buf) of
           (RGot bs, s') \<Rightarrow> read_exact_from rd len (buf @ bs) s'
         | (REof, s') \<Rightarrow>
             Some (if buf = [] then Inr (False, buf)
                   else Inl (Bail ''{label}: stream ended mid-frame''), s')
         | (RFail e, s') \<Rightarrow> Some (Inl e, s'))
      else Some (Inr (True, buf), s))"

text \<open>
  The result is the Boolean of the source together with the bytes that were read into the buffer;
  \<open>len\<close> is the length of the buffer slice.
\<close>

definition read_stream_exact_or_eof ::
    "('s \<Rightarrow> nat \<Rightarrow> read_outcome \<times> 's) \<Rightarrow> nat \<Rightarrow> 's \<Rightarrow> ((bool \<times> u8 list) result \<times> 's) option" where
  "read_stream_exact_or_eof rd len s = read_exact_from rd len [] s"

definition read_stream_packet ::
    "('s \<Rightarrow> nat \<Rightarrow> read_outcome \<times> 's) \<Rightarrow> nat \<Rightarrow> 's \<Rightarrow> (u8 list option result \<times> 's) option" where
  "read_stream_packet rd buf_len s =
     Option.bind (read_stream_exact_or_eof rd 2 s) (\<lambda>(r, s1).
       case r of
         Inl e \<Rightarrow> Some (Inl e, s1)
       | Inr (complete, header) \<Rightarrow>
           if \<not> complete then Some (Inr None, s1)
           else
             (let packet_len = unat (from_be_bytes header) in
              if packet_len = 0 then Some (Inr (Some []), s1)
              else if packet_len > buf_len then
                Some (Inl (Bail ''{label}: stream packet {packet_len} bytes exceeds max {} bytes''), s1)
              else
                Option.bind (read_stream_exact_or_eof rd packet_len s1) (\<lambda>(r2, s2).
                  Some (bind_res r2 (\<lambda>(complete, packet).
                          map_sum id Some
                            (context_opt ''{label}: stream ended mid-packet''
                              (if complete then Some packet else None))), s2))))"

text \<open>\<open>device_send\<close> is \<^verbatim>\<open>AsyncDevice::send\<close>: the number of bytes taken, or an error.\<close>

partial_function (option) pump_stream_to_tun ::
    "('s \<Rightarrow> nat \<Rightarrow> read_outcome \<times> 's) \<Rightarrow> ('d \<Rightarrow> u8 list \<Rightarrow> nat result \<times> 'd) \<Rightarrow> nat \<Rightarrow> 's \<Rightarrow> 'd
     \<Rightarrow> (unit result \<times> 's \<times> 'd) option" where
  "pump_stream_to_tun rd device_send max_packet_bytes s d =
     Option.bind (read_stream_packet rd max_packet_bytes s) (\<lambda>(r, s').
       case r of
         Inl e \<Rightarrow> Some (Inl e, s', d)
       | Inr None \<Rightarrow> Some (Inr (), s', d)
       | Inr (Some packet) \<Rightarrow>
           if length packet = 0 then pump_stream_to_tun rd device_send max_packet_bytes s' d
           else
             (case device_send d packet of
                (Inl e, d') \<Rightarrow> Some (Inl e, s', d')
              | (Inr written, d') \<Rightarrow>
                  if written \<noteq> length packet
                  then Some (Inl (Bail ''{label}: partial tun write: wrote {written} of {packet_len} bytes''), s', d')
                  else pump_stream_to_tun rd device_send max_packet_bytes s' d'))"

text \<open>
  \<^verbatim>\<open>finish_stream_with_ack\<close>: \<open>stopped\<close> is what waiting at most five seconds for \<^verbatim>\<open>stopped()\<close> gives,
  \<open>None\<close> for the timeout.
\<close>

definition finish_stream_with_ack :: "unit result \<Rightarrow> u64 option result option \<Rightarrow> unit result" where
  "finish_stream_with_ack finish stopped =
     bind_res (context_res ''failed to finish {label}'' finish) (\<lambda>_.
     case stopped of
       Some (Inr None) \<Rightarrow> Inr ()
     | Some (Inr (Some code)) \<Rightarrow> Inr ()
     | Some (Inl e) \<Rightarrow> Inl (Context ''{label} stopped wait failed'' e)
     | None \<Rightarrow> Inr ())"

section \<open>Frames\<close>

definition frame :: "u8 list \<Rightarrow> u8 list" where
  "frame p = to_be_bytes (of_nat (length p)) @ p"

definition framable :: "u8 list \<Rightarrow> bool" where
  "framable p \<longleftrightarrow> length p \<le> 65535"

definition unframe :: "u8 list \<Rightarrow> (u8 list \<times> u8 list) option" where
  "unframe bs =
     (if length bs < 2 then None
      else let n = unat (from_be_bytes (take 2 bs)) in
           if length bs < 2 + n then None else Some (take n (drop 2 bs), drop (2 + n) bs))"

lemma length_to_be_bytes [simp]: "length (to_be_bytes w) = 2"
  by (simp add: to_be_bytes_def)

lemma from_to_be_bytes [simp]: "from_be_bytes (to_be_bytes w) = w"
proof -
  have "unat w div 256 < 256"
    using unsigned_less [of w, where 'a = nat] by auto
  moreover have "unat w mod 256 < 256" by simp
  ultimately have "unat (of_nat (unat w div 256) :: u8) * 256 + unat (of_nat (unat w mod 256) :: u8) = unat w"
    by (simp add: unat_of_nat take_bit_nat_eq_self)
  then show ?thesis by (simp add: from_be_bytes_def to_be_bytes_def)
qed

lemma to_from_be_bytes: "length bs = 2 \<Longrightarrow> to_be_bytes (from_be_bytes bs) = bs"
proof -
  assume "length bs = 2"
  then obtain a b where bs: "bs = [a, b]" by (auto simp: length_Suc_conv numeral_2_eq_2)
  define n where "n = unat a * 256 + unat b"
  have "unat a < 256" "unat b < 256" using unsigned_less [of a] unsigned_less [of b] by simp_all
  then have "n < 65536" "n div 256 = unat a" "n mod 256 = unat b" by (simp_all add: n_def)
  moreover have "from_be_bytes bs = of_nat n" by (simp add: from_be_bytes_def bs n_def)
  ultimately show ?thesis by (simp add: bs to_be_bytes_def unat_of_nat take_bit_nat_eq_self)
qed

lemma unat_packet_len: "framable p \<Longrightarrow> unat (of_nat (length p) :: u16) = length p"
  by (simp add: framable_def unat_of_nat take_bit_nat_eq_self)

lemma length_frame [simp]: "length (frame p) = 2 + length p"
  by (simp add: frame_def)

lemma write_stream_packet_frame:
  "framable p \<Longrightarrow> 2 \<le> length h \<Longrightarrow>
     \<exists>h'. write_stream_packet w h p = (h', [to_be_bytes (of_nat (length p)), p], w) \<and> length h' = length h"
  by (simp add: write_stream_packet_def framable_def Let_def)

interpretation packet: prefix_codec frame unframe framable
  by unfold_locales
    (auto simp: frame_def unframe_def Let_def unat_packet_len simp flip: length_greater_0_conv)

section \<open>What the receiving loop should do\<close>

text \<open>
  The receiving loop as a function of all the bytes that the peer writes before it finishes the
  stream: the packets for the TUN device, and the result.
\<close>

function stream_spec :: "nat \<Rightarrow> u8 list \<Rightarrow> u8 list list \<times> unit result" where
  "stream_spec max_packet_bytes bs =
     (let n = unat (from_be_bytes (take 2 bs)); rest = drop 2 bs in
      if bs = [] then ([], Inr ())
      else if length bs = 1 then ([], Inl (Bail ''{label}: stream ended mid-frame''))
      else if n = 0 then stream_spec max_packet_bytes rest
      else if n > max_packet_bytes
      then ([], Inl (Bail ''{label}: stream packet {packet_len} bytes exceeds max {} bytes''))
      else if rest = [] then ([], Inl (Bail ''{label}: stream ended mid-packet''))
      else if length rest < n then ([], Inl (Bail ''{label}: stream ended mid-frame''))
      else (case stream_spec max_packet_bytes (drop n rest) of (ps, r) \<Rightarrow> (take n rest # ps, r)))"
  by pat_completeness auto
termination by (relation "measure (\<lambda>(m, bs). length bs)") auto

declare stream_spec.simps [simp del]

text \<open>The result is \<^verbatim>\<open>Ok\<close> only for bytes that are whole frames with packets that fit.\<close>

lemma frame_take:
  assumes "2 \<le> length bs" and "n = unat (from_be_bytes (take 2 bs))" and "n \<le> length (drop 2 bs)"
  shows "frame (take n (drop 2 bs)) @ drop n (drop 2 bs) = bs"
    and "framable (take n (drop 2 bs))" and "length (take n (drop 2 bs)) = n"
proof -
  have "to_be_bytes (of_nat n) = take 2 bs" using assms(1,2) by (simp add: to_from_be_bytes)
  moreover show l: "length (take n (drop 2 bs)) = n" using assms(3) by simp
  ultimately show "frame (take n (drop 2 bs)) @ drop n (drop 2 bs) = bs"
    by (simp only: frame_def append_assoc append_take_drop_id)
  show "framable (take n (drop 2 bs))"
    using assms(2) unsigned_less [of "from_be_bytes (take 2 bs)", where 'a = nat] by (simp add: framable_def l)
qed

lemma stream_spec_Ok:
  "snd (stream_spec cap bs) = Inr () \<Longrightarrow>
     \<exists>ps. bs = concat (map frame ps) \<and> list_all (\<lambda>p. framable p \<and> length p \<le> cap) ps
        \<and> fst (stream_spec cap bs) = filter (\<lambda>p. p \<noteq> []) ps"
proof (induction "length bs" arbitrary: bs rule: less_induct)
  case less
  define n where "n = unat (from_be_bytes (take 2 bs))"
  show ?case
  proof (cases "bs = []")
    case True
    then show ?thesis by (intro exI [of _ "[]"]) (simp add: stream_spec.simps [of cap "[]"])
  next
    case False
    have "length bs \<noteq> 1" using less.prems False stream_spec.simps [of cap bs] by (auto split: if_splits)
    with False have r1: "2 \<le> length bs" by (cases bs) (auto simp: Suc_le_eq)
    have r: "n \<le> cap" "n \<le> length (drop 2 bs)"
      "stream_spec cap bs = (if n = 0 then stream_spec cap (drop 2 bs)
         else (take n (drop 2 bs) # fst (stream_spec cap (drop n (drop 2 bs))), snd (stream_spec cap (drop n (drop 2 bs)))))"
      using less.prems r1 stream_spec.simps [of cap bs]
      by (auto simp: Let_def not_less simp flip: n_def split: if_splits prod.splits)
    let ?p = "take n (drop 2 bs)" and ?rest = "drop n (drop 2 bs)"
    note p = frame_take [OF r1 n_def r(2)]
    have "snd (stream_spec cap ?rest) = Inr ()" using less.prems r(3) by (cases "n = 0") (simp_all del: drop_drop)
    moreover have "length ?rest < length bs" using r1 by simp
    ultimately obtain ps where ps: "?rest = concat (map frame ps)" "list_all (\<lambda>p. framable p \<and> length p \<le> cap) ps"
      "fst (stream_spec cap ?rest) = filter (\<lambda>p. p \<noteq> []) ps" using less.hyps by blast
    moreover have "fst (stream_spec cap bs) = filter (\<lambda>p. p \<noteq> []) (?p # ps)"
      using r(3) ps(3) p(3) by (cases "n = 0") (auto simp del: drop_drop)
    ultimately show ?thesis using p r(1) by (intro exI [of _ "?p # ps"]) auto
  qed
qed

section \<open>What the loops rely on\<close>

text \<open>What \<open>read_stream_exact_or_eof\<close> should return when \<open>bs\<close> are the bytes to come.\<close>

definition exact_outcome :: "nat \<Rightarrow> u8 list \<Rightarrow> (bool \<times> u8 list) result" where
  "exact_outcome n bs =
     (if n \<le> length bs then Inr (True, take n bs) else if bs = [] then Inr (False, [])
      else Inl (Bail ''{label}: stream ended mid-frame''))"

text \<open>
  \<open>content s\<close> are the bytes the peer has written before finishing the stream and that are still to
  be read, \<open>lag s\<close> bounds the number of empty reads in a row.
\<close>

locale recv_stream =
  fixes rd :: "'s \<Rightarrow> nat \<Rightarrow> read_outcome \<times> 's"
    and content :: "'s \<Rightarrow> u8 list"
    and lag :: "'s \<Rightarrow> nat"
  assumes read_got: "rd s n = (RGot bs, s') \<Longrightarrow> 0 < n \<Longrightarrow>
      length bs \<le> n \<and> content s = bs @ content s' \<and> (bs = [] \<longrightarrow> lag s' < lag s)"
    and read_eof: "rd s n = (REof, s') \<Longrightarrow> content s = [] \<and> content s' = []"
    and read_no_fail: "0 < n \<Longrightarrow> rd s n \<noteq> (RFail e, s')"
begin

lemma read_exact_from_returns:
  "length buf \<le> len \<Longrightarrow>
   \<exists>s'. read_exact_from rd len buf s =
     Some (if len \<le> length buf + length (content s)
           then Inr (True, buf @ take (len - length buf) (content s))
           else if buf = [] \<and> content s = [] then Inr (False, [])
           else Inl (Bail ''{label}: stream ended mid-frame''), s')
     \<and> content s' = drop (len - length buf) (content s)"
proof (induction "(s, buf)" arbitrary: s buf
    rule: wf_induct_rule [OF wf_measures [of "[\<lambda>(s, buf). length (content s), \<lambda>(s, buf). lag s]"]])
  case 1
  show ?case
  proof (cases "length buf < len")
    case False
    with "1.prems" show ?thesis by (subst read_exact_from.simps) simp
  next
    case True
    then have pos: "0 < len - length buf" by simp
    show ?thesis
    proof (cases "rd s (len - length buf)")
      case (Pair r s1)
      show ?thesis
      proof (cases r)
        case (RGot bs)
        from read_got [OF Pair [unfolded RGot] pos]
        have b: "length bs \<le> len - length buf" "content s = bs @ content s1" "bs = [] \<longrightarrow> lag s1 < lag s"
          by auto
        have "((s1, buf @ bs), (s, buf)) \<in> measures [\<lambda>(s, buf). length (content s), \<lambda>(s, buf). lag s]"
          using b by (cases bs) auto
        from "1.hyps" [OF this] b True show ?thesis
          by (subst read_exact_from.simps) (auto simp: Pair RGot)
      next
        case REof
        with read_eof [OF Pair [unfolded REof]] True Pair show ?thesis
          by (subst read_exact_from.simps) auto
      next
        case (RFail e)
        with read_no_fail [OF pos] Pair show ?thesis by auto
      qed
    qed
  qed
qed

text \<open>Reading \<open>n\<close> bytes or to the end.\<close>

lemma read_exact: "\<exists>s'. read_stream_exact_or_eof rd n s = Some (exact_outcome n (content s), s') \<and> content s' = drop n (content s)"
  using read_exact_from_returns [of "[]" n s] by (auto simp: read_stream_exact_or_eof_def exact_outcome_def)

text \<open>Reading a packet when a frame, nothing, or part of a frame is left.\<close>

lemma read_packet_frame:
  assumes "content s = frame p @ rest" and "framable p" and "length p \<le> buf_len"
  shows "\<exists>s'. read_stream_packet rd buf_len s = Some (Inr (Some p), s') \<and> content s' = rest"
proof -
  from assms have c: "content s = to_be_bytes (of_nat (length p)) @ p @ rest"
    by (simp add: frame_def)
  with read_exact_from_returns [of "[]" 2 s] obtain s1 where
    h: "read_exact_from rd 2 [] s = Some (Inr (True, to_be_bytes (of_nat (length p))), s1)"
    and c1: "content s1 = p @ rest"
    by auto
  show ?thesis
  proof (cases "p = []")
    case True
    with assms h c1 show ?thesis
      by (simp add: read_stream_packet_def read_stream_exact_or_eof_def)
  next
    case False
    with read_exact_from_returns [of "[]" "length p" s1] c1 obtain s2 where
      "read_exact_from rd (length p) [] s1 = Some (Inr (True, p), s2)" "content s2 = rest"
      by auto
    with assms False h show ?thesis
      by (simp add: read_stream_packet_def read_stream_exact_or_eof_def Let_def unat_packet_len)
  qed
qed

lemma read_packet_eof:
  "content s = [] \<Longrightarrow> \<exists>s'. read_stream_packet rd buf_len s = Some (Inr None, s') \<and> content s' = []"
  using read_exact_from_returns [of "[]" 2 s]
  by (auto simp: read_stream_packet_def read_stream_exact_or_eof_def)

end

text \<open>A TUN device that takes whole packets; \<open>log\<close> are the packets it has taken.\<close>

locale tun_device =
  fixes device_send :: "'d \<Rightarrow> u8 list \<Rightarrow> nat result \<times> 'd"
    and log :: "'d \<Rightarrow> u8 list list"
  assumes send_all: "p \<noteq> [] \<Longrightarrow> \<exists>d'. device_send d p = (Inr (length p), d') \<and> log d' = log d @ [p]"

locale stream_tunnel = recv_stream rd content lag + tun_device device_send log
  for rd :: "'s \<Rightarrow> nat \<Rightarrow> read_outcome \<times> 's"
    and content :: "'s \<Rightarrow> u8 list"
    and lag :: "'s \<Rightarrow> nat"
    and device_send :: "'d \<Rightarrow> u8 list \<Rightarrow> nat result \<times> 'd"
    and log :: "'d \<Rightarrow> u8 list list"
begin

text \<open>The loop works off the frames in front, whatever follows them.\<close>

lemma pump_frames:
  assumes "list_all (\<lambda>p. framable p \<and> length p \<le> cap) ps" and "content s = concat (map frame ps) @ rest"
  shows "\<exists>s' d'. pump_stream_to_tun rd device_send cap s d = pump_stream_to_tun rd device_send cap s' d'
     \<and> content s' = rest \<and> log d' = log d @ filter (\<lambda>p. p \<noteq> []) ps"
  using assms
proof (induction ps arbitrary: s d)
  case Nil
  then show ?case by auto
next
  case (Cons p ps)
  then obtain s1 where r: "read_stream_packet rd cap s = Some (Inr (Some p), s1)"
    and c: "content s1 = concat (map frame ps) @ rest"
    using read_packet_frame [of s p "concat (map frame ps) @ rest" cap] by auto
  show ?case
  proof (cases "p = []")
    case True
    with r have "pump_stream_to_tun rd device_send cap s d = pump_stream_to_tun rd device_send cap s1 d"
      by (subst pump_stream_to_tun.simps) simp
    with Cons.IH [of s1 d] Cons.prems c True show ?thesis by simp
  next
    case False
    then obtain d1 where d1: "device_send d p = (Inr (length p), d1)" "log d1 = log d @ [p]"
      using send_all by blast
    with r False have "pump_stream_to_tun rd device_send cap s d = pump_stream_to_tun rd device_send cap s1 d1"
      by (subst pump_stream_to_tun.simps) simp
    with Cons.IH [of s1 d1] Cons.prems c d1 False show ?thesis by auto
  qed
qed

lemma pump_delivers:
  assumes "list_all (\<lambda>p. framable p \<and> length p \<le> cap) ps" and "content s = concat (map frame ps)"
  shows "\<exists>s' d'. pump_stream_to_tun rd device_send cap s d = Some (Inr (), s', d')
     \<and> log d' = log d @ filter (\<lambda>p. p \<noteq> []) ps"
proof -
  from pump_frames [OF assms(1), of s "[]" d] assms(2) obtain s1 d1 where
    "pump_stream_to_tun rd device_send cap s d = pump_stream_to_tun rd device_send cap s1 d1"
    "content s1 = []" "log d1 = log d @ filter (\<lambda>p. p \<noteq> []) ps" by auto
  moreover from this(2) read_packet_eof [of s1 cap] obtain s2 where
    "read_stream_packet rd cap s1 = Some (Inr None, s2)" by blast
  then have "pump_stream_to_tun rd device_send cap s1 d1 = Some (Inr (), s2, d1)"
    by (subst pump_stream_to_tun.simps) simp
  ultimately show ?thesis by simp
qed

text \<open>For any bytes whatever, the loop does what the specification says.\<close>

lemma pump_meets_spec:
  "\<exists>s' d'. pump_stream_to_tun rd device_send cap s d = Some (snd (stream_spec cap (content s)), s', d')
     \<and> log d' = log d @ fst (stream_spec cap (content s))"
proof (induction "length (content s)" arbitrary: s d rule: less_induct)
  case less
  let ?bs = "content s"
  let ?n = "unat (from_be_bytes (take 2 ?bs))" and ?rest = "drop 2 ?bs"
  note unfold = pump_stream_to_tun.simps [of rd device_send cap s d] stream_spec.simps [of cap ?bs]
  obtain s1 s2 where
    h: "read_stream_exact_or_eof rd 2 s = Some (exact_outcome 2 ?bs, s1)" "content s1 = ?rest"
    and b: "read_stream_exact_or_eof rd ?n s1 = Some (exact_outcome ?n ?rest, s2)" "content s2 = drop ?n ?rest"
    using read_exact [of 2 s] read_exact [of ?n] by metis
  consider (short) "length ?bs < 2" | (empty) "2 \<le> length ?bs" "?n = 0"
    | (bad) "2 \<le> length ?bs" "?n \<noteq> 0" "cap < ?n \<or> length ?rest < ?n"
    | (whole) "2 \<le> length ?bs" "?n \<noteq> 0" "?n \<le> cap" "?n \<le> length ?rest"
    by linarith
  then show ?case
  proof cases
    case short
    then obtain b where "?bs = [] \<or> ?bs = [b]" by (cases ?bs) auto
    then show ?thesis
      by (auto simp: unfold(1) read_stream_packet_def h exact_outcome_def Let_def stream_spec.simps [of cap "[]"] stream_spec.simps [of cap "[b]"])
  next
    case empty
    then have "pump_stream_to_tun rd device_send cap s d = pump_stream_to_tun rd device_send cap s1 d"
      "stream_spec cap ?bs = stream_spec cap (content s1)"
      by (auto simp: unfold read_stream_packet_def h exact_outcome_def Let_def)
    with less [of s1 d] empty h(2) show ?thesis by simp
  next
    case bad
    then show ?thesis by (auto simp: unfold read_stream_packet_def h(1) b(1) exact_outcome_def Let_def)
  next
    case whole
    then have "read_stream_packet rd cap s = Some (Inr (Some (take ?n ?rest)), s2)"
      by (simp add: read_stream_packet_def h(1) b(1) exact_outcome_def Let_def)
    moreover have "take ?n ?rest \<noteq> []" using whole by (metis length_0_conv length_take min.absorb2)
    then obtain d1 where d1: "device_send d (take ?n ?rest) = (Inr (length (take ?n ?rest)), d1)"
      "log d1 = log d @ [take ?n ?rest]"
      using send_all by blast
    ultimately have "pump_stream_to_tun rd device_send cap s d = pump_stream_to_tun rd device_send cap s2 d1"
      using whole by (simp add: unfold)
    moreover have "stream_spec cap ?bs =
        (case stream_spec cap (content s2) of (ps, r) \<Rightarrow> (take ?n ?rest # ps, r))"
      using whole by (subst stream_spec.simps) (auto simp: Let_def b(2))
    moreover have "length (content s2) < length ?bs" using whole b(2) by simp
    ultimately show ?thesis using less [of s2 d1] d1 by (auto split: prod.split)
  qed
qed

lemma pump_Ok:
  assumes "pump_stream_to_tun rd device_send cap s d = Some (Inr (), s', d')"
  shows "\<exists>ps. content s = concat (map frame ps) \<and> list_all (\<lambda>p. framable p \<and> length p \<le> cap) ps
     \<and> log d' = log d @ filter (\<lambda>p. p \<noteq> []) ps"
proof -
  have "snd (stream_spec cap (content s)) = Inr ()" "log d' = log d @ fst (stream_spec cap (content s))"
    using pump_meets_spec [of cap s d] assms by auto
  with stream_spec_Ok [OF this(1)] show ?thesis by auto
qed

end

section \<open>A stream cut into arbitrary segments\<close>

text \<open>
  The streams that meet the contract: the bytes arrive in segments of any sizes, empty ones included,
  a read returns the next segment or the part of it that fits, and the end follows the last one.
\<close>

fun seg_read :: "u8 list list \<Rightarrow> nat \<Rightarrow> read_outcome \<times> u8 list list" where
  "seg_read [] n = (REof, [])"
| "seg_read (c # cs) n = (if length c \<le> n then (RGot c, cs) else (RGot (take n c), drop n c # cs))"

definition log_send :: "u8 list list \<Rightarrow> u8 list \<Rightarrow> nat result \<times> u8 list list" where
  "log_send d p = (Inr (length p), d @ [p])"

interpretation segments: recv_stream seg_read concat length
proof
  fix s n bs s'
  assume "seg_read s n = (RGot bs, s')" "0 < n"
  then show "length bs \<le> n \<and> concat s = bs @ concat s' \<and> (bs = [] \<longrightarrow> length s' < length s)"
    by (cases s) (auto split: if_splits)
next
  fix s n s'
  assume "seg_read s n = (REof, s')"
  then show "concat s = [] \<and> concat s' = []" by (cases s) (auto split: if_splits)
next
  fix n s e s'
  show "seg_read s n \<noteq> (RFail e, s')" by (cases s) auto
qed

interpretation log_device: tun_device log_send "\<lambda>d. d"
  by unfold_locales (simp add: log_send_def)

interpretation segment_tunnel: stream_tunnel seg_read concat length log_send "\<lambda>d. d"
  by unfold_locales

section \<open>Properties\<close>

text \<open>
  C16: A packet written with \<^verbatim>\<open>write_stream_packet\<close> is read back unchanged by
  \<^verbatim>\<open>read_stream_packet\<close>, which returns and leaves the bytes after it unread, however the reads cut
  the stream.
\<close>

theorem written_packet_read_back:
  assumes "recv_stream rd content lag"
    and "write_stream_packet (Inr ()) frame_header p = (h', chunks, Inr ())"
    and "content s = concat chunks @ rest" and "length p \<le> buf_len"
  shows "\<exists>s'. read_stream_packet rd buf_len s = Some (Inr (Some p), s') \<and> content s' = rest"
proof -
  from assms(2) have "framable p" "concat chunks = frame p"
    by (auto simp: write_stream_packet_def framable_def frame_def Let_def split: if_splits)
  with assms show ?thesis by (simp add: recv_stream.read_packet_frame)
qed

theorem written_packet_read_back_witness:
  "\<exists>s'. read_stream_packet seg_read 4 [[0], [], [3, 7], [8, 9, 0, 1]] = Some (Inr (Some [7, 8, 9]), s')
     \<and> concat s' = [0, 1]"
proof -
  have w: "write_stream_packet (Inr ()) [0, 0] [7, 8, 9] = ([0, 3], [[0, 3], [7, 8, 9]], Inr ())"
    by (simp add: write_stream_packet_def to_be_bytes_def Let_def)
  show ?thesis
    by (rule written_packet_read_back [OF segments.recv_stream_axioms w]) simp_all
qed

text \<open>
  C5: For every sequence of bytes whatever, cut into reads in any way, the receiving loop returns, writes to
  the TUN device exactly the packets that the specification \<open>stream_spec\<close> takes from the bytes, in order,
  and ends with its result: \<^verbatim>\<open>Ok\<close> when the stream ends between two frames, an error when it ends inside
  one or a packet does not fit the buffer, and then nothing of that packet or after it is written.
\<close>

theorem stream_pump_meets_spec:
  assumes "recv_stream rd content lag" and "tun_device device_send logged"
  shows "\<exists>s' d'. pump_stream_to_tun rd device_send max_packet_bytes s d =
       Some (snd (stream_spec max_packet_bytes (content s)), s', d')
     \<and> logged d' = logged d @ fst (stream_spec max_packet_bytes (content s))"
  by (rule stream_tunnel.pump_meets_spec [OF stream_tunnel.intro [OF assms]])

theorem stream_pump_meets_spec_witness:
  "\<exists>s'. pump_stream_to_tun seg_read log_send 4 [[0], [], [3, 7, 8], [9, 0, 0, 0, 4, 1]] [] =
     Some (Inl (Bail ''{label}: stream ended mid-frame''), s', [[7, 8, 9]])"
proof -
  have "stream_spec 4 [0, 3, 7, 8, 9, 0, 0, 0, 4, 1] = ([[7, 8, 9]], Inl (Bail ''{label}: stream ended mid-frame''))"
    by (simp add: stream_spec.simps from_be_bytes_def)
  with stream_pump_meets_spec [OF segments.recv_stream_axioms log_device.tun_device_axioms, of 4
      "[[0], [], [3, 7, 8], [9, 0, 0, 0, 4, 1]]" "[]"]
  show ?thesis by auto
qed

end
