(* ===== verification/F64.thy ===== *)
theory F64
  imports Complex_Main Prelude
begin

text \<open>
  The binary64 arithmetic of Rust's \<^verbatim>\<open>f64\<close>, on the values the sources compute with: rates, byte
  counts and times, all of them finite and none near the smallest or the largest double. A double is
  the rational it denotes; an operation is the exact operation followed by rounding to 53
  significant bits, to nearest, ties to even. The exponent range is not bounded here, which changes
  nothing on those values. The locale \<open>rounding\<close> lists what the pacer's proofs use of rounding.
\<close>

section \<open>Rounding to an integer, ties to even\<close>

definition round_even :: "rat \<Rightarrow> int" where
  "round_even x =
     (let f = \<lfloor>x\<rfloor>; d = x - of_int f in
      if d < 1 / 2 then f else if d > 1 / 2 then f + 1 else if even f then f else f + 1)"

lemma round_even_of_int [simp]: "round_even (of_int n) = n"
  by (simp add: round_even_def)

lemma round_even_between: "\<lfloor>x\<rfloor> \<le> round_even x \<and> round_even x \<le> \<lfloor>x\<rfloor> + 1"
  by (auto simp: round_even_def Let_def)

lemma round_even_error: "\<bar>of_int (round_even x) - x\<bar> \<le> 1 / 2"
  using of_int_floor_le [of x] floor_correct [of x]
  by (auto simp: round_even_def Let_def abs_le_iff)

lemma round_even_mono: "x \<le> y \<Longrightarrow> round_even x \<le> round_even y"
proof -
  assume le: "x \<le> y"
  show ?thesis
  proof (cases "\<lfloor>x\<rfloor> = \<lfloor>y\<rfloor>")
    case True
    with le show ?thesis by (auto simp: round_even_def Let_def)
  next
    case False
    with floor_mono [OF le] have "\<lfloor>x\<rfloor> + 1 \<le> \<lfloor>y\<rfloor>" by simp
    with round_even_between [of x] round_even_between [of y] show ?thesis by linarith
  qed
qed

lemma round_even_le: "x \<le> of_int n \<Longrightarrow> round_even x \<le> n"
  using round_even_mono [of x "of_int n"] by simp

lemma round_even_ge: "of_int n \<le> x \<Longrightarrow> n \<le> round_even x"
  using round_even_mono [of "of_int n" x] by simp

section \<open>The binary exponent\<close>

function fexp :: "rat \<Rightarrow> int" where
  "fexp x =
     (if x \<le> 0 then 0
      else if 2 \<le> x then fexp (x / 2) + 1
      else if x < 1 then fexp (2 * x) - 1
      else 0)"
  by pat_completeness auto
termination
proof (relation "measure (\<lambda>x. if 1 \<le> x then nat \<lfloor>x\<rfloor> else nat \<lceil>1 / x\<rceil> + 1)")
  show "wf (measure (\<lambda>x::rat. if 1 \<le> x then nat \<lfloor>x\<rfloor> else nat \<lceil>1 / x\<rceil> + 1))" by simp
next
  fix x :: rat
  assume "\<not> x \<le> 0" "2 \<le> x"
  have "of_int \<lfloor>x / 2\<rfloor> \<le> x / 2" by (rule of_int_floor_le)
  moreover have "x < of_int \<lfloor>x\<rfloor> + 1" using floor_correct [of x] by simp
  ultimately have "(of_int (2 * \<lfloor>x / 2\<rfloor>) :: rat) < of_int (\<lfloor>x\<rfloor> + 1)" by simp
  then have "2 * \<lfloor>x / 2\<rfloor> < \<lfloor>x\<rfloor> + 1" by (simp only: of_int_less_iff)
  moreover have "1 \<le> \<lfloor>x / 2\<rfloor>" using \<open>2 \<le> x\<close> by (simp add: le_floor_iff)
  ultimately have "\<lfloor>x / 2\<rfloor> < \<lfloor>x\<rfloor>" "0 < \<lfloor>x\<rfloor>" by linarith+
  then show "(x / 2, x) \<in> measure (\<lambda>x. if 1 \<le> x then nat \<lfloor>x\<rfloor> else nat \<lceil>1 / x\<rceil> + 1)"
    using \<open>2 \<le> x\<close> by simp
next
  fix x :: rat
  assume "\<not> x \<le> 0" "x < 1"
  then have x: "0 < x" "x < 1" by auto
  have c: "1 / x \<le> of_int \<lceil>1 / x\<rceil>" by (rule le_of_int_ceiling)
  have one: "1 < 1 / x" using x by simp
  show "(2 * x, x) \<in> measure (\<lambda>x. if 1 \<le> x then nat \<lfloor>x\<rfloor> else nat \<lceil>1 / x\<rceil> + 1)"
  proof (cases "1 \<le> 2 * x")
    case True
    have "\<lfloor>2 * x\<rfloor> = 1" using True x by (simp add: floor_eq_iff)
    moreover have "1 \<le> \<lceil>1 / x\<rceil>" using one by (subst le_ceiling_iff) linarith
    ultimately show ?thesis using True x by simp
  next
    case False
    have "\<lceil>1 / (2 * x)\<rceil> < \<lceil>1 / x\<rceil>"
    proof -
      have "of_int \<lceil>1 / (2 * x)\<rceil> < 1 / (2 * x) + 1"
        using ceiling_correct [of "1 / (2 * x)"] by simp
      moreover have "1 / (2 * x) + 1 \<le> 1 / x" 
        using False x by (simp add: field_simps)
      ultimately have "(of_int \<lceil>1 / (2 * x)\<rceil> :: rat) < of_int \<lceil>1 / x\<rceil>" using c by linarith
      then show ?thesis by simp
    qed
    moreover have "0 < \<lceil>1 / x\<rceil>" using one by (subst zero_less_ceiling) linarith
    ultimately show ?thesis using False x by simp
  qed
qed

declare fexp.simps [simp del]

lemma fexp_bounds: "0 < x \<Longrightarrow> 2 powi fexp x \<le> x \<and> x < 2 powi (fexp x + 1)"
proof (induction x rule: fexp.induct)
  case (1 x)
  consider "2 \<le> x" | "x < 1" | "1 \<le> x" "x < 2" by linarith
  then show ?case
  proof cases
    case 1
    with "1.IH"(1) "1.prems" have ih: "2 powi fexp (x / 2) \<le> x / 2" "x / 2 < 2 powi (fexp (x / 2) + 1)"
      by auto
    have "fexp x = fexp (x / 2) + 1" using 1 by (subst fexp.simps) simp
    with ih show ?thesis by (simp add: power_int_add)
  next
    case 2
    with "1.IH"(2) "1.prems" have ih: "2 powi fexp (2 * x) \<le> 2 * x" "2 * x < 2 powi (fexp (2 * x) + 1)"
      by auto
    have "fexp x = fexp (2 * x) - 1" using 2 "1.prems" by (subst fexp.simps) simp
    with ih show ?thesis by (simp add: power_int_add power_int_diff)
  next
    case 3
    then have "fexp x = 0" by (subst fexp.simps) simp
    with 3 show ?thesis by simp
  qed
qed

lemma fexp_unique:
  assumes "2 powi e \<le> x" "x < 2 powi (e + 1)"
  shows "fexp x = e"
proof -
  have "0 < (2::rat) powi e" by (rule zero_less_power_int) simp
  with assms(1) have "0 < x" by linarith
  then have b: "2 powi fexp x \<le> x" "x < 2 powi (fexp x + 1)" using fexp_bounds by auto
  have "(2::rat) powi e < 2 powi (fexp x + 1)" using assms(1) b(2) by (rule le_less_trans)
  moreover have "(2::rat) powi fexp x < 2 powi (e + 1)" using b(1) assms(2) by (rule le_less_trans)
  ultimately have "e < fexp x + 1" "fexp x < e + 1"
    using power_int_increasing [of _ _ "2::rat"] by (meson linorder_not_less one_le_numeral)+
  then show ?thesis by simp
qed

lemma fexp_mono: "0 < x \<Longrightarrow> x \<le> y \<Longrightarrow> fexp x \<le> fexp y"
proof (rule ccontr)
  assume "0 < x" "x \<le> y" "\<not> fexp x \<le> fexp y"
  then have "(2::rat) powi (fexp y + 1) \<le> 2 powi fexp x"
    by (intro power_int_increasing) auto
  with fexp_bounds [of x] fexp_bounds [of y] \<open>0 < x\<close> \<open>x \<le> y\<close> show False by linarith
qed

section \<open>Rounding to 53 significant bits\<close>

definition ulp :: "rat \<Rightarrow> rat" where
  "ulp x = 2 powi (fexp x - 52)"

definition f64_round :: "rat \<Rightarrow> rat" where
  "f64_round x =
     (if x = 0 then 0
      else sgn x * (of_int (round_even (\<bar>x\<bar> / ulp \<bar>x\<bar>)) * ulp \<bar>x\<bar>))"

definition fadd :: "rat \<Rightarrow> rat \<Rightarrow> rat" where
  "fadd x y = f64_round (x + y)"

definition fsub :: "rat \<Rightarrow> rat \<Rightarrow> rat" where
  "fsub x y = f64_round (x - y)"

definition fmul :: "rat \<Rightarrow> rat \<Rightarrow> rat" where
  "fmul x y = f64_round (x * y)"

definition fdiv :: "rat \<Rightarrow> rat \<Rightarrow> rat" where
  "fdiv x y = f64_round (x / y)"

text \<open>An integer converted with \<^verbatim>\<open>as f64\<close>.\<close>

definition f64_of_nat :: "nat \<Rightarrow> rat" where
  "f64_of_nat n = f64_round (of_nat n)"

lemma ulp_pos [simp]: "0 < ulp x"
  by (simp add: ulp_def)

lemma ulp_simps [simp]: "ulp x \<noteq> 0" "\<bar>ulp x\<bar> = ulp x" "0 \<le> ulp x"
  by (simp_all add: ulp_def)

lemma powi_split: "(2::rat) powi fexp x = 2 ^ 52 * ulp x" "(2::rat) powi (fexp x + 1) = 2 ^ 53 * ulp x"
  by (simp_all add: ulp_def power_int_diff power_int_add)

lemma scaled_bounds: "0 < x \<Longrightarrow> 2 ^ 52 \<le> x / ulp x \<and> x / ulp x < 2 ^ 53"
  using fexp_bounds [of x] unfolding powi_split by (simp add: field_simps)

lemma f64_round_0 [simp]: "f64_round 0 = 0"
  by (simp add: f64_round_def)

lemma f64_round_pos: "0 < x \<Longrightarrow> f64_round x = of_int (round_even (x / ulp x)) * ulp x"
  by (simp add: f64_round_def)

lemma f64_round_minus: "f64_round (- x) = - f64_round x"
  by (simp add: f64_round_def sgn_minus)

lemma scaled_round_bounds:
  assumes "0 < x"
  shows "2 ^ 52 \<le> round_even (x / ulp x) \<and> round_even (x / ulp x) \<le> 2 ^ 53"
  using scaled_bounds [OF assms] round_even_le [of "x / ulp x" "2 ^ 53"] round_even_ge [of "2 ^ 52" "x / ulp x"]
  by simp

lemma f64_round_range:
  assumes "0 < x"
  shows "2 powi fexp x \<le> f64_round x \<and> f64_round x \<le> 2 powi (fexp x + 1)"
proof -
  have "(of_int (2 ^ 52) :: rat) \<le> of_int (round_even (x / ulp x))"
    and "(of_int (round_even (x / ulp x)) :: rat) \<le> of_int (2 ^ 53)"
    using scaled_round_bounds [OF assms] by (simp_all only: of_int_le_iff)
  then show ?thesis
    unfolding powi_split f64_round_pos [OF assms] by (simp add: mult_right_mono)
qed

lemma f64_round_nonneg: "0 \<le> x \<Longrightarrow> 0 \<le> f64_round x"
proof -
  assume "0 \<le> x"
  then consider "x = 0" | "0 < x" by linarith
  then show ?thesis
  proof cases
    case 2
    then have "0 < (2::rat) powi fexp x" by (simp add: zero_less_power_int)
    with f64_round_range [OF 2] show ?thesis by linarith
  qed simp
qed

lemma f64_round_gt_0: "0 < x \<Longrightarrow> 0 < f64_round x"
proof -
  assume "0 < x"
  moreover have "0 < (2::rat) powi fexp x" by (simp add: zero_less_power_int)
  ultimately show ?thesis using f64_round_range [of x] by linarith
qed

lemma f64_round_mono_pos:
  assumes "0 < x" "x \<le> y"
  shows "f64_round x \<le> f64_round y"
proof (cases "fexp x = fexp y")
  case True
  then have "ulp x = ulp y" by (simp add: ulp_def)
  moreover have "x / ulp y \<le> y / ulp y" using assms by (simp add: divide_right_mono less_imp_le)
  ultimately show ?thesis
    using assms round_even_mono by (simp add: f64_round_pos mult_right_mono less_imp_le)
next
  case False
  with fexp_mono [OF assms] have "fexp x + 1 \<le> fexp y" by simp
  then have "(2::rat) powi (fexp x + 1) \<le> 2 powi fexp y" by (rule power_int_increasing) simp
  with f64_round_range [of x] f64_round_range [of y] assms show ?thesis by linarith
qed

lemma f64_round_mono:
  assumes "x \<le> y"
  shows "f64_round x \<le> f64_round y"
proof -
  consider "0 < x" | "x \<le> 0" "0 \<le> y" | "y < 0" using assms by linarith
  then show ?thesis
  proof cases
    case 1
    then show ?thesis using assms by (rule f64_round_mono_pos)
  next
    case 2
    have "0 \<le> f64_round (- x)" "0 \<le> f64_round y" using 2 by (simp_all add: f64_round_nonneg)
    then show ?thesis by (simp add: f64_round_minus)
  next
    case 3
    with assms f64_round_mono_pos [of "- y" "- x"] show ?thesis by (simp add: f64_round_minus)
  qed
qed

text \<open>A number of at most 53 significant bits is not changed, so rounding twice is rounding once.\<close>

lemma f64_round_exact_less:
  assumes "0 < m" "m < 2 ^ 53"
  shows "f64_round (of_int m * 2 powi e) = of_int m * 2 powi e"
proof -
  define y :: rat where "y = of_int m * 2 powi e"
  have y: "0 < y" using assms by (simp add: y_def zero_less_power_int)
  have "(of_int m :: rat) < of_int (2 ^ 53)" using assms(2) by (simp only: of_int_less_iff)
  then have "y < 2 powi (53 + e)" by (simp add: y_def power_int_add zero_less_power_int)
  with fexp_bounds [OF y] have "(2::rat) powi fexp y < 2 powi (53 + e)" by linarith
  then have "fexp y < 53 + e" using power_int_increasing [of "53 + e" "fexp y" "2::rat"] by force
  then obtain k where k: "e - (fexp y - 52) = int k" using nonneg_int_cases [of "e - (fexp y - 52)"] by auto
  have "y / ulp y = of_int m * 2 powi (e - (fexp y - 52))"
    by (simp add: y_def ulp_def power_int_diff)
  also have "\<dots> = of_int (m * 2 ^ k)" by (simp add: k)
  finally have "of_int (round_even (y / ulp y)) = y / ulp y" by (simp only: round_even_of_int)
  then show ?thesis
    unfolding y_def [symmetric] f64_round_pos [OF y] using ulp_pos [of y] by simp
qed

lemma f64_round_exact:
  assumes "0 < m" "m \<le> 2 ^ 53"
  shows "f64_round (of_int m * 2 powi e) = of_int m * 2 powi e"
proof (cases "m = 2 ^ 53")
  case True
  have "(of_int m :: rat) * 2 powi e = of_int (2 ^ 52) * 2 powi (e + 1)"
    by (simp add: True power_int_add)
  then show ?thesis using f64_round_exact_less [of "2 ^ 52" "e + 1"] by simp
next
  case False
  with assms show ?thesis by (intro f64_round_exact_less) auto
qed

lemma f64_round_idem: "f64_round (f64_round x) = f64_round x"
proof -
  have pos: "f64_round (f64_round z) = f64_round z" if "0 < z" for z
    using f64_round_exact [of "round_even (z / ulp z)" "fexp z - 52"] scaled_round_bounds [OF that]
    unfolding f64_round_pos [OF that] ulp_def [symmetric] by simp
  consider "x = 0" | "0 < x" | "0 < - x" by linarith
  then show ?thesis
  proof cases
    case 3
    from pos [OF 3] show ?thesis by (simp add: f64_round_minus)
  qed (use pos in auto)
qed

lemma f64_of_nat_exact: "n \<le> 2 ^ 53 \<Longrightarrow> f64_of_nat n = of_nat n"
  using f64_round_exact [of "int n" 0] by (cases "n = 0") (auto simp: f64_of_nat_def)

lemma f64_of_nat_mono: "m \<le> n \<Longrightarrow> f64_of_nat m \<le> f64_of_nat n"
  unfolding f64_of_nat_def by (intro f64_round_mono of_nat_mono)

text \<open>The relative error.\<close>

lemma f64_round_error:
  assumes "0 \<le> x"
  shows "\<bar>f64_round x - x\<bar> \<le> x / 2 ^ 53"
proof (cases "x = 0")
  case False
  with assms have x: "0 < x" by simp
  have "f64_round x - x = (of_int (round_even (x / ulp x)) - x / ulp x) * ulp x"
    using ulp_pos [of x] by (simp add: f64_round_pos [OF x] left_diff_distrib)
  then have "\<bar>f64_round x - x\<bar> = \<bar>of_int (round_even (x / ulp x)) - x / ulp x\<bar> * ulp x"
    using ulp_pos [of x] by (simp add: abs_mult)
  also have "\<dots> \<le> 1 / 2 * ulp x"
    using round_even_error [of "x / ulp x"] ulp_pos [of x] by (intro mult_right_mono) auto
  also have "\<dots> \<le> x / 2 ^ 53"
    using fexp_bounds [OF x] unfolding powi_split by simp
  finally show ?thesis .
qed simp

text \<open>Halving is exact.\<close>

lemma f64_round_half:
  assumes "0 < x"
  shows "f64_round (x / 2) = f64_round x / 2"
proof -
  have "fexp (x / 2) = fexp x - 1"
    using fexp_bounds [OF assms] by (intro fexp_unique) (simp_all add: power_int_diff power_int_add)
  then have u: "ulp (x / 2) = ulp x / 2" by (simp add: ulp_def power_int_diff)
  have "0 < x / 2" using assms by simp
  from f64_round_pos [OF this] f64_round_pos [OF assms] show ?thesis by (simp add: u)
qed

section \<open>What the proofs use\<close>

locale rounding =
  fixes rnd :: "rat \<Rightarrow> rat"
    and u :: rat
  assumes rnd_mono: "x \<le> y \<Longrightarrow> rnd x \<le> rnd y"
    and rnd_idem: "rnd (rnd x) = rnd x"
    and rnd_error: "0 \<le> x \<Longrightarrow> \<bar>rnd x - x\<bar> \<le> x * u"
    and u_range: "0 \<le> u" "u < 1"
begin

lemma rnd_le: "0 \<le> x \<Longrightarrow> rnd x \<le> x * (1 + u)"
  using rnd_error [of x] by (simp add: abs_le_iff distrib_left)

lemma rnd_ge: "0 \<le> x \<Longrightarrow> x * (1 - u) \<le> rnd x"
  using rnd_error [of x] by (simp add: abs_le_iff right_diff_distrib)

lemma rnd_nonneg: "0 \<le> x \<Longrightarrow> 0 \<le> rnd x"
  using rnd_ge [of x] u_range mult_nonneg_nonneg [of x "1 - u"] by linarith

lemma rnd_pos: "0 < x \<Longrightarrow> 0 < rnd x"
  using rnd_ge [of x] u_range mult_pos_pos [of x "1 - u"] by linarith

text \<open>Rounding does not cross a value that needs no rounding.\<close>

lemma rnd_le_fixed: "rnd m = m \<Longrightarrow> x \<le> m \<Longrightarrow> rnd x \<le> m"
  using rnd_mono [of x m] by simp

lemma rnd_ge_fixed: "rnd m = m \<Longrightarrow> m \<le> x \<Longrightarrow> m \<le> rnd x"
  using rnd_mono [of m x] by simp

text \<open>Scaling a rate down or up.\<close>

lemma rnd_scale_down: "rnd c = c \<Longrightarrow> 0 \<le> c \<Longrightarrow> 0 \<le> k \<Longrightarrow> k \<le> 1 \<Longrightarrow> rnd (c * k) \<le> c"
  by (rule rnd_le_fixed) (simp_all add: mult_left_le)

lemma rnd_scale_up: "rnd c = c \<Longrightarrow> 0 \<le> c \<Longrightarrow> 1 \<le> k \<Longrightarrow> c \<le> rnd (c * k)"
  by (rule rnd_ge_fixed) (simp_all add: mult_le_cancel_left1)

text \<open>Error propagation through the computations of the pacer.\<close>

lemma one_u_mono: "1 \<le> (1 + u) ^ k"
  using u_range by (simp add: one_le_power)

lemma rnd_sum_of_product:
  assumes "0 \<le> b" "0 \<le> x" "0 \<le> c" "0 \<le> x'" "x' \<le> x * (1 + u) ^ 3"
  shows "rnd (rnd (x' * c) + rnd b) \<le> (x * c + b) * (1 + u) ^ 5"
proof -
  have "rnd (x' * c) \<le> x' * c * (1 + u)" using assms by (intro rnd_le) simp
  also have "\<dots> \<le> x * (1 + u) ^ 3 * c * (1 + u)"
    using assms u_range by (intro mult_right_mono) auto
  finally have p: "rnd (x' * c) \<le> x * c * (1 + u) ^ 4" by (simp add: power_Suc2 power_numeral_reduce algebra_simps)
  have "rnd b \<le> b * (1 + u)" using assms by (intro rnd_le)
  also have "\<dots> \<le> b * (1 + u) ^ 4"
    using assms u_range by (intro mult_left_mono) (auto intro: self_le_power)
  finally have s: "rnd (x' * c) + rnd b \<le> (x * c + b) * (1 + u) ^ 4" using p by (simp add: distrib_right)
  have "0 \<le> rnd (x' * c) + rnd b" using assms by (intro add_nonneg_nonneg rnd_nonneg) auto
  then have "rnd (rnd (x' * c) + rnd b) \<le> (rnd (x' * c) + rnd b) * (1 + u)" by (rule rnd_le)
  also have "\<dots> \<le> (x * c + b) * (1 + u) ^ 4 * (1 + u)"
    using s u_range by (intro mult_right_mono) auto
  finally show ?thesis by (simp add: mult.assoc flip: power_Suc2)
qed

lemma rnd_quotient_ge:
  assumes "0 \<le> d" "0 < c"
  shows "d * (1 - u) ^ 2 \<le> rnd (rnd d / c) * c"
proof -
  have "d * (1 - u) / c * (1 - u) \<le> rnd d / c * (1 - u)"
    using assms u_range rnd_ge [of d] by (intro mult_right_mono divide_right_mono) auto
  also have "\<dots> \<le> rnd (rnd d / c)"
    using assms rnd_nonneg [of d] by (intro rnd_ge) auto
  finally have "d * (1 - u) / c * (1 - u) * c \<le> rnd (rnd d / c) * c"
    using assms by (intro mult_right_mono) auto
  then show ?thesis using assms by (simp add: power2_eq_square)
qed

lemma rnd_quotient_le:
  assumes "0 \<le> d" "0 < c"
  shows "rnd (rnd d / c) * c \<le> d * (1 + u) ^ 2"
proof -
  have "rnd (rnd d / c) \<le> rnd d / c * (1 + u)"
    using assms rnd_nonneg [of d] by (intro rnd_le) auto
  also have "\<dots> \<le> d * (1 + u) / c * (1 + u)"
    using assms u_range rnd_le [of d] by (intro mult_right_mono divide_right_mono) auto
  finally have "rnd (rnd d / c) * c \<le> d * (1 + u) / c * (1 + u) * c"
    using assms by (intro mult_right_mono) auto
  then show ?thesis using assms by (simp add: power2_eq_square)
qed

end

interpretation f64: rounding f64_round "1 / 2 ^ 53"
  by unfold_locales
    (use f64_round_error in \<open>simp_all add: f64_round_mono f64_round_idem\<close>)

text \<open>Evaluation on numerals.\<close>

lemma floor_rat_numeral [simp]: "\<lfloor>numeral a / numeral b :: rat\<rfloor> = numeral a div numeral b"
  using floor_divide_of_int_eq [of "numeral a" "numeral b", where 'a = rat] by simp

lemmas f64_eval = f64_round_def ulp_def round_even_def fexp.simps

end
