(* ===== verification/Pacer.thy ===== *)
theory Pacer
  imports F64
begin

text \<open>
  \<^verbatim>\<open>EgressPacer\<close> of \<^verbatim>\<open>crates/litevpn-core/src/quic.rs\<close>. An \<^verbatim>\<open>Instant\<close> is a number of nanoseconds of
  the monotonic clock and a \<^verbatim>\<open>Duration\<close> a number of nanoseconds. Each call of \<^verbatim>\<open>Instant::now\<close> and the
  connection statistics come from the record \<open>pacer_env\<close>. \<open>pacer_wait\<close> returns the instant until
  which the caller sleeps. The lemmas: the pacing rate stays between half the target and the target
  in every reachable state; it falls only on loss or congestion and rises only without; when
  \<open>pacer_wait\<close> is over, the bytes counted are within the burst plus rate times time, and it does not
  sleep longer than that needs; every packet is counted; it panics only by an overflow of the clock.
\<close>

section \<open>Durations\<close>

definition nanos :: nat where
  "nanos = 1000000000"

definition as_secs_f64 :: "nat \<Rightarrow> rat" where
  "as_secs_f64 d = fadd (f64_of_nat (d div nanos)) (fdiv (f64_of_nat (d mod nanos)) 1000000000)"

text \<open>\<^verbatim>\<open>Duration::from_secs_f64\<close> rounds to the nearest nanosecond and panics on negative and on too large values.\<close>

definition from_secs_f64 :: "rat \<Rightarrow> nat result" where
  "from_secs_f64 x =
     (if x < 0 \<or> 2 ^ 64 * int nanos \<le> round_even (x * 1000000000)
      then Inl (Panic ''can not convert float seconds to Duration'')
      else Inr (nat (round_even (x * 1000000000))))"

text \<open>
  \<^verbatim>\<open>Instant + Duration\<close>: the seconds of an \<^verbatim>\<open>Instant\<close> are an \<^verbatim>\<open>i64\<close>, and the addition panics when they
  overflow.
\<close>

definition instant_overflow :: error where
  "instant_overflow = Panic ''overflow when adding duration to instant''"

definition instant_add :: "nat \<Rightarrow> nat \<Rightarrow> nat result" where
  "instant_add started duration =
     (if (started + duration) div nanos < 2 ^ 63 then Inr (started + duration) else Inl instant_overflow)"

section \<open>The pacer\<close>

record EgressPacer =
  ep_max_bytes_per_sec :: "rat option"
  ep_current_bytes_per_sec :: "rat option"
  ep_min_bytes_per_sec :: "rat option"
  ep_burst_bytes :: u64
  ep_epoch_started :: nat
  ep_epoch_bytes :: u64
  ep_adaptive :: bool
  ep_last_adjust :: nat
  ep_last_lost_packets :: "u64 option"
  ep_last_congestion_events :: "u64 option"

record pacer_env =
  pe_adjust_check :: nat
  pe_adjust_set :: nat
  pe_reset :: nat
  pe_wait_elapsed :: nat
  pe_wait_now :: nat
  pe_lost_packets :: u64
  pe_congestion_events :: u64

definition PACER_BURST_WINDOW_SECS :: rat where
  "PACER_BURST_WINDOW_SECS = f64_round (5 / 1000)"

definition target_bytes_per_sec :: "u64 \<Rightarrow> rat option" where
  "target_bytes_per_sec target_mbps =
     (if target_mbps = 0 then None
      else Some (fdiv (fmul (f64_of_nat (unat target_mbps)) 1000000) 8))"

text \<open>The cast of a double to \<^verbatim>\<open>u64\<close> saturates.\<close>

definition target_burst_bytes :: "rat option \<Rightarrow> nat \<Rightarrow> u64" where
  "target_burst_bytes target mtu =
     (case target of
        None \<Rightarrow> 0
      | Some bytes_per_sec \<Rightarrow>
          of_nat (min (nat \<lceil>max (fmul bytes_per_sec PACER_BURST_WINDOW_SECS) (f64_of_nat mtu)\<rceil>) (2 ^ 64 - 1)))"

definition pacer_new :: "u64 \<Rightarrow> nat \<Rightarrow> bool \<Rightarrow> nat \<Rightarrow> EgressPacer" where
  "pacer_new target_mbps packet_bytes adaptive now =
     (let max_bytes_per_sec = target_bytes_per_sec target_mbps in
      \<lparr>ep_max_bytes_per_sec = max_bytes_per_sec,
       ep_current_bytes_per_sec = max_bytes_per_sec,
       ep_min_bytes_per_sec = map_option (\<lambda>value. fmul value (1 / 2)) max_bytes_per_sec,
       ep_burst_bytes = target_burst_bytes max_bytes_per_sec packet_bytes,
       ep_epoch_started = now,
       ep_epoch_bytes = 0,
       ep_adaptive = adaptive,
       ep_last_adjust = now,
       ep_last_lost_packets = None,
       ep_last_congestion_events = None\<rparr>)"

definition pacer_from_optional :: "u64 option \<Rightarrow> nat \<Rightarrow> bool \<Rightarrow> nat \<Rightarrow> EgressPacer" where
  "pacer_from_optional target_mbps packet_bytes adaptive now =
     pacer_new (case target_mbps of None \<Rightarrow> 0 | Some m \<Rightarrow> m) packet_bytes adaptive now"

definition pacer_reset_epoch :: "pacer_env \<Rightarrow> EgressPacer \<Rightarrow> EgressPacer" where
  "pacer_reset_epoch env p = p\<lparr>ep_epoch_started := pe_reset env, ep_epoch_bytes := 0\<rparr>"

text \<open>The rate after an adjustment.\<close>

definition pacer_next_rate :: "EgressPacer \<Rightarrow> rat \<Rightarrow> bool \<Rightarrow> rat" where
  "pacer_next_rate p current worse =
     (if worse
      then max (fmul current (f64_round (85 / 100)))
             (case ep_min_bytes_per_sec p of None \<Rightarrow> current | Some m \<Rightarrow> m)
      else min (fmul current (f64_round (102 / 100)))
             (case ep_max_bytes_per_sec p of None \<Rightarrow> current | Some m \<Rightarrow> m))"

definition pacer_adjust :: "pacer_env \<Rightarrow> EgressPacer \<Rightarrow> EgressPacer" where
  "pacer_adjust env p =
     (case ep_current_bytes_per_sec p of
        None \<Rightarrow> p
      | Some current \<Rightarrow>
          if pe_adjust_check env - ep_last_adjust p < 250000000 then p
          else
            (let lost_packets = pe_lost_packets env;
                 congestion_events = pe_congestion_events env
             in case ep_last_lost_packets p of
                  None \<Rightarrow>
                    p\<lparr>ep_last_lost_packets := Some lost_packets,
                      ep_last_congestion_events := Some congestion_events,
                      ep_last_adjust := pe_adjust_set env\<rparr>
                | Some previous_lost_packets \<Rightarrow>
                    (let previous_congestion_events =
                           (case ep_last_congestion_events p of None \<Rightarrow> congestion_events | Some c \<Rightarrow> c);
                         p1 = p\<lparr>ep_last_lost_packets := Some lost_packets,
                                ep_last_congestion_events := Some congestion_events,
                                ep_last_adjust := pe_adjust_set env\<rparr>;
                         next_rate = pacer_next_rate p current
                           (lost_packets > previous_lost_packets
                            \<or> congestion_events > previous_congestion_events)
                     in if \<bar>fsub next_rate current\<bar> > 1 / 2 ^ 52
                        then pacer_reset_epoch env (p1\<lparr>ep_current_bytes_per_sec := Some next_rate\<rparr>)
                        else p1)))"

text \<open>\<open>Some t\<close>: sleep until the instant \<open>t\<close>.\<close>

definition pacer_wait :: "pacer_env \<Rightarrow> EgressPacer \<Rightarrow> nat option result" where
  "pacer_wait env p =
     (case ep_current_bytes_per_sec p of
        None \<Rightarrow> Inr None
      | Some current_bytes_per_sec \<Rightarrow>
          if ep_epoch_bytes p \<le> ep_burst_bytes p then Inr None
          else
            (let elapsed = as_secs_f64 (pe_wait_elapsed env - ep_epoch_started p);
                 allowed_bytes = fadd (fmul elapsed current_bytes_per_sec) (f64_of_nat (unat (ep_burst_bytes p)))
             in if f64_of_nat (unat (ep_epoch_bytes p)) \<le> allowed_bytes then Inr None
                else
                  bind_res (from_secs_f64
                    (fdiv (f64_of_nat (unat (ep_epoch_bytes p - ep_burst_bytes p))) current_bytes_per_sec))
                    (\<lambda>target_elapsed.
                      bind_res (instant_add (ep_epoch_started p) target_elapsed) (\<lambda>target_time.
                      Inr (if target_time > pe_wait_now env then Some target_time else None)))))"

text \<open>\<open>has_connection\<close>: a connection is passed in, whose statistics are those of the environment.\<close>

definition record_and_wait ::
    "nat \<Rightarrow> bool \<Rightarrow> pacer_env \<Rightarrow> EgressPacer \<Rightarrow> EgressPacer \<times> nat option result" where
  "record_and_wait packet_bytes has_connection env p =
     (let p1 = p\<lparr>ep_epoch_bytes := saturating_add (ep_epoch_bytes p) (of_nat packet_bytes)\<rparr>;
          p2 = (if ep_adaptive p1 \<and> has_connection then pacer_adjust env p1 else p1)
      in (p2, pacer_wait env p2))"

section \<open>The rate stays in its range\<close>

definition pacer_inv :: "EgressPacer \<Rightarrow> bool" where
  "pacer_inv p \<longleftrightarrow>
     (case ep_max_bytes_per_sec p of
        None \<Rightarrow> ep_current_bytes_per_sec p = None \<and> ep_min_bytes_per_sec p = None
      | Some mx \<Rightarrow> (\<exists>c. ep_current_bytes_per_sec p = Some c \<and> ep_min_bytes_per_sec p = Some (mx / 2)
          \<and> 125000 \<le> mx \<and> f64_round mx = mx \<and> f64_round c = c \<and> mx / 2 \<le> c \<and> c \<le> mx))"

lemma target_rate:
  assumes "target_bytes_per_sec t = Some b"
  shows "125000 \<le> b" "f64_round b = b" "f64_round (b / 2) = b / 2" "0 < b"
proof -
  from assms have t: "t \<noteq> 0" and b: "b = fdiv (fmul (f64_of_nat (unat t)) 1000000) 8"
    by (auto simp: target_bytes_per_sec_def split: if_splits)
  show rb: "f64_round b = b" by (simp add: b fdiv_def f64_round_idem)
  from t have "1 \<le> unat t" by (simp add: Suc_leI unat_gt_0)
  then have "f64_of_nat 1 \<le> f64_of_nat (unat t)" by (rule f64_of_nat_mono)
  moreover have "f64_of_nat 1 = 1" using f64_of_nat_exact [of 1] by simp
  ultimately have "f64_round 1000000 \<le> fmul (f64_of_nat (unat t)) 1000000"
    unfolding fmul_def by (intro f64_round_mono) simp
  moreover have "f64_round 1000000 = 1000000"
    using f64_of_nat_exact [of 1000000] by (simp add: f64_of_nat_def)
  ultimately have "f64_round 125000 \<le> b"
    unfolding b fdiv_def by (intro f64_round_mono) simp
  moreover have "f64_round 125000 = 125000"
    using f64_of_nat_exact [of 125000] by (simp add: f64_of_nat_def)
  ultimately show "125000 \<le> b" by simp
  then show "0 < b" by simp
  then show "f64_round (b / 2) = b / 2" by (simp add: f64_round_half rb)
qed

lemma pacer_new_inv [rust_inv]: "pacer_inv (pacer_new t n a now)"
proof (cases "target_bytes_per_sec t")
  case None
  then show ?thesis by (simp add: pacer_inv_def pacer_new_def)
next
  case (Some b)
  with target_rate [OF Some] show ?thesis
    by (simp add: pacer_inv_def pacer_new_def fmul_def Let_def)
qed

text \<open>The two factors as doubles.\<close>

lemma rate_factors:
  "0 \<le> f64_round (85 / 100)" "f64_round (85 / 100) \<le> 1" "1 \<le> f64_round (102 / 100)"
proof -
  have one: "f64_round 1 = 1" using f64_of_nat_exact [of 1] by (simp add: f64_of_nat_def)
  show "0 \<le> f64_round (85 / 100)" by (simp add: f64_round_nonneg)
  show "f64_round (85 / 100) \<le> 1" by (rule f64.rnd_le_fixed [OF one]) simp
  show "1 \<le> f64_round (102 / 100)" by (rule f64.rnd_ge_fixed [OF one]) simp
qed

lemma next_rate_range:
  assumes "pacer_inv p" and "ep_current_bytes_per_sec p = Some c" and "ep_max_bytes_per_sec p = Some mx"
  shows "mx / 2 \<le> pacer_next_rate p c w" "pacer_next_rate p c w \<le> mx"
    "f64_round (pacer_next_rate p c w) = pacer_next_rate p c w"
    "w \<Longrightarrow> pacer_next_rate p c w \<le> c" "\<not> w \<Longrightarrow> c \<le> pacer_next_rate p c w"
proof -
  from assms have i: "ep_min_bytes_per_sec p = Some (mx / 2)" "125000 \<le> mx" "f64_round mx = mx"
    "f64_round c = c" "mx / 2 \<le> c" "c \<le> mx"
    by (auto simp: pacer_inv_def)
  then have half: "f64_round (mx / 2) = mx / 2" by (simp add: f64_round_half)
  have down: "fmul c (f64_round (85 / 100)) \<le> c"
    unfolding fmul_def using i rate_factors by (intro f64.rnd_scale_down) auto
  have up: "c \<le> fmul c (f64_round (102 / 100))"
    unfolding fmul_def using i rate_factors by (intro f64.rnd_scale_up) auto
  have idem: "f64_round (fmul c k) = fmul c k" for k by (simp add: fmul_def f64_round_idem)
  show "mx / 2 \<le> pacer_next_rate p c w" "pacer_next_rate p c w \<le> mx"
    "w \<Longrightarrow> pacer_next_rate p c w \<le> c" "\<not> w \<Longrightarrow> c \<le> pacer_next_rate p c w"
    using i down up assms by (auto simp: pacer_next_rate_def)
  show "f64_round (pacer_next_rate p c w) = pacer_next_rate p c w"
    using i half idem assms by (auto simp: pacer_next_rate_def max_def min_def)
qed

lemma pacer_adjust_inv [rust_inv]:
  assumes "pacer_inv p"
  shows "pacer_inv (pacer_adjust env p)"
proof (cases "ep_current_bytes_per_sec p")
  case None
  with assms show ?thesis by (simp add: pacer_adjust_def)
next
  case (Some c)
  with assms obtain mx where mx: "ep_max_bytes_per_sec p = Some mx"
    by (auto simp: pacer_inv_def split: option.splits)
  from assms Some mx next_rate_range [OF assms Some mx] show ?thesis
    by (auto simp: pacer_adjust_def pacer_inv_def pacer_reset_epoch_def Let_def split: option.split)
qed

lemma record_and_wait_inv [rust_inv]:
  assumes "pacer_inv p"
  shows "pacer_inv (fst (record_and_wait n has_connection env p))"
proof -
  have "pacer_inv (p\<lparr>ep_epoch_bytes := b\<rparr>)" for b
    using assms by (simp add: pacer_inv_def split: option.splits)
  then show ?thesis by (auto simp: record_and_wait_def Let_def intro: rust_inv)
qed

section \<open>Rounding errors of the waiting time\<close>

lemma as_secs_f64_le: "as_secs_f64 d \<le> of_nat d / 1000000000 * (1 + 1 / 2 ^ 53) ^ 3"
proof -
  let ?u = "1 / 2 ^ 53 :: rat"
  have a: "f64_of_nat (d div nanos) \<le> of_nat (d div nanos) * (1 + ?u)"
    unfolding f64_of_nat_def by (rule f64.rnd_le) simp
  have a2: "of_nat (d div nanos) * (1 + ?u) \<le> of_nat (d div nanos) * (1 + ?u) ^ 2"
    by (intro mult_left_mono) (simp_all add: power2_eq_square)
  have n: "0 \<le> f64_of_nat k" for k unfolding f64_of_nat_def by (rule f64.rnd_nonneg) simp
  have m: "f64_of_nat (d mod nanos) \<le> of_nat (d mod nanos) * (1 + ?u)"
    unfolding f64_of_nat_def by (rule f64.rnd_le) simp
  have "fdiv (f64_of_nat (d mod nanos)) 1000000000 \<le> f64_of_nat (d mod nanos) / 1000000000 * (1 + ?u)"
    unfolding fdiv_def using n by (intro f64.rnd_le) simp
  also have "\<dots> \<le> of_nat (d mod nanos) * (1 + ?u) / 1000000000 * (1 + ?u)"
    using m by (intro mult_right_mono divide_right_mono) auto
  finally have b: "fdiv (f64_of_nat (d mod nanos)) 1000000000 \<le> of_nat (d mod nanos) / 1000000000 * (1 + ?u) ^ 2"
    by (simp add: power2_eq_square)
  have split: "(of_nat d :: rat) = of_nat (d div nanos) * 1000000000 + of_nat (d mod nanos)"
    by (subst div_mult_mod_eq [of d nanos, symmetric]) (simp only: of_nat_add of_nat_mult nanos_def of_nat_numeral)
  have sum: "f64_of_nat (d div nanos) + fdiv (f64_of_nat (d mod nanos)) 1000000000
      \<le> of_nat d / 1000000000 * (1 + ?u) ^ 2"
    using a a2 b unfolding split by (simp only: add_divide_distrib distrib_right)
  have "as_secs_f64 d \<le> (f64_of_nat (d div nanos) + fdiv (f64_of_nat (d mod nanos)) 1000000000) * (1 + ?u)"
    unfolding as_secs_f64_def fadd_def
    by (rule f64.rnd_le) (auto simp: n fdiv_def intro!: add_nonneg_nonneg f64.rnd_nonneg)
  also have "\<dots> \<le> of_nat d / 1000000000 * (1 + ?u) ^ 2 * (1 + ?u)"
    using sum by (intro mult_right_mono) auto
  finally show ?thesis by (simp add: power3_eq_cube power2_eq_square mult.assoc)
qed

lemma as_secs_f64_nonneg: "0 \<le> as_secs_f64 d"
  unfolding as_secs_f64_def fadd_def fdiv_def f64_of_nat_def
  by (intro f64.rnd_nonneg add_nonneg_nonneg divide_nonneg_nonneg) auto

text \<open>The test that lets a packet pass at once is sound up to rounding.\<close>

lemma allowed_bytes_sound:
  assumes "f64_of_nat e \<le> fadd (fmul (as_secs_f64 d) c) (f64_of_nat b)" and "0 \<le> c"
  shows "of_nat e \<le> (1 + 1 / 2 ^ 50) * (of_nat b + c * of_nat d / 1000000000)"
proof -
  let ?u = "1 / 2 ^ 53 :: rat" and ?A = "of_nat d / 1000000000 * c + of_nat b :: rat"
  have A: "0 \<le> ?A" using assms(2) by simp
  have "of_nat e * (1 - ?u) \<le> f64_of_nat e"
    unfolding f64_of_nat_def by (rule f64.rnd_ge) simp
  also have "\<dots> \<le> ?A * (1 + ?u) ^ 5"
    using assms as_secs_f64_le [of d] as_secs_f64_nonneg [of d]
    unfolding fadd_def fmul_def f64_of_nat_def
    by (intro order_trans [OF _ f64.rnd_sum_of_product]) auto
  also have "\<dots> \<le> ?A * ((1 + 1 / 2 ^ 50) * (1 - ?u))"
    using A by (intro mult_left_mono) (simp_all add: power_numeral_reduce)
  finally have "of_nat e * (1 - ?u) \<le> ?A * (1 + 1 / 2 ^ 50) * (1 - ?u)" by (simp only: mult.assoc)
  then have "of_nat e \<le> ?A * (1 + 1 / 2 ^ 50)" by (subst (asm) mult_le_cancel_right) auto
  then show ?thesis by (simp add: algebra_simps)
qed

text \<open>The computed waiting time is long enough, and not longer than needed.\<close>

lemma from_secs_f64_near:
  assumes "from_secs_f64 x = Inr n"
  shows "of_nat n \<le> x * 1000000000 + 1 / 2" "x * 1000000000 \<le> of_nat n + 1 / 2"
proof -
  from assms have x: "0 \<le> x" and n: "n = nat (round_even (x * 1000000000))"
    by (auto simp: from_secs_f64_def split: if_splits)
  have "0 \<le> round_even (x * 1000000000)" using x round_even_ge [of 0] by simp
  then have "of_nat n = (of_int (round_even (x * 1000000000)) :: rat)" by (simp add: n)
  then have "\<bar>of_nat n - x * 1000000000\<bar> \<le> 1 / 2"
    using round_even_error [of "x * 1000000000"] by simp
  then show "of_nat n \<le> x * 1000000000 + 1 / 2" "x * 1000000000 \<le> of_nat n + 1 / 2"
    by linarith+
qed

lemma target_elapsed_enough:
  assumes "from_secs_f64 (fdiv (f64_of_nat n) c) = Inr k" and "0 < c"
  shows "of_nat n \<le> (1 + 1 / 2 ^ 50) * (c * (of_nat k + 1 / 2) / 1000000000)"
proof -
  let ?u = "1 / 2 ^ 53 :: rat" and ?q = "fdiv (f64_of_nat n) c"
  have "of_nat n * (1 - ?u) ^ 2 \<le> ?q * c"
    unfolding fdiv_def f64_of_nat_def using assms(2) by (intro f64.rnd_quotient_ge) auto
  also have "\<dots> \<le> (of_nat k + 1 / 2) / 1000000000 * c"
    using from_secs_f64_near [OF assms(1)] assms(2)
    by (intro mult_right_mono) (simp_all only: pos_le_divide_eq pos_divide_le_eq zero_less_numeral diff_le_eq less_imp_le)
  finally have n: "of_nat n * (1 - ?u) ^ 2 \<le> c * (of_nat k + 1 / 2) / 1000000000" by (simp add: mult.commute)
  have "of_nat n * 1 \<le> of_nat n * ((1 - ?u) ^ 2 * (1 + 1 / 2 ^ 50))"
    by (intro mult_left_mono) (simp_all add: power_numeral_reduce)
  also have "\<dots> = of_nat n * (1 - ?u) ^ 2 * (1 + 1 / 2 ^ 50)" by (simp only: mult.assoc)
  also have "\<dots> \<le> c * (of_nat k + 1 / 2) / 1000000000 * (1 + 1 / 2 ^ 50)"
    using n by (intro mult_right_mono) auto
  finally show ?thesis by (simp only: mult.commute mult_1_right)
qed

lemma target_elapsed_not_too_long:
  assumes "from_secs_f64 (fdiv (f64_of_nat n) c) = Inr k" and "0 < c"
  shows "c * (of_nat k - 1 / 2) / 1000000000 \<le> (1 + 1 / 2 ^ 50) * of_nat n"
proof -
  let ?u = "1 / 2 ^ 53 :: rat" and ?q = "fdiv (f64_of_nat n) c"
  have "(of_nat k - 1 / 2) / 1000000000 * c \<le> ?q * c"
    using from_secs_f64_near [OF assms(1)] assms(2)
    by (intro mult_right_mono) (simp_all only: pos_le_divide_eq pos_divide_le_eq zero_less_numeral diff_le_eq less_imp_le)
  also have "\<dots> \<le> of_nat n * (1 + ?u) ^ 2"
    unfolding fdiv_def f64_of_nat_def using assms(2) by (intro f64.rnd_quotient_le) auto
  also have "\<dots> \<le> of_nat n * (1 + 1 / 2 ^ 50)"
    by (intro mult_left_mono) (simp_all add: power_numeral_reduce)
  finally show ?thesis by (simp add: mult.commute)
qed

lemma target_elapsed_defined:
  assumes "n < 2 ^ 64" and "62500 \<le> c"
  shows "\<exists>k. from_secs_f64 (fdiv (f64_of_nat n) c) = Inr k \<and> k \<le> 2 ^ 50 * nanos"
proof -
  let ?q = "fdiv (f64_of_nat n) c"
  have q0: "0 \<le> ?q"
    unfolding fdiv_def f64_of_nat_def using assms by (intro f64.rnd_nonneg divide_nonneg_nonneg) auto
  have "?q * 62500 \<le> ?q * c" using assms q0 by (intro mult_left_mono) auto
  also have "\<dots> \<le> of_nat n * (1 + 1 / 2 ^ 53) ^ 2"
    unfolding fdiv_def f64_of_nat_def using assms(2) by (intro f64.rnd_quotient_le) auto
  also have "\<dots> \<le> of_nat n * 2" by (intro mult_left_mono) (simp_all add: power_numeral_reduce)
  also have "\<dots> \<le> of_nat (2 ^ 64) * 2" using assms(1) by (intro mult_right_mono) (auto simp del: of_nat_power)
  finally have "?q * 1000000000 \<le> of_int (2 ^ 50 * int nanos)" by (simp add: nanos_def)
  then have "round_even (?q * 1000000000) \<le> 2 ^ 50 * int nanos" by (rule round_even_le)
  with q0 show ?thesis by (simp add: from_secs_f64_def not_less nanos_def)
qed

text \<open>Adding such a waiting time to an instant of the first \<open>2\<^sup>6\<^sup>2\<close> seconds of the clock does not overflow.\<close>

definition clock_limit :: nat where
  "clock_limit = 2 ^ 62 * nanos"

lemma instant_add_Inr_iff [simp]:
  "instant_add a d = Inr b \<longleftrightarrow> b = a + d \<and> (a + d) div nanos < 2 ^ 63"
  by (auto simp: instant_add_def)

lemma instant_add_Inl_iff [simp]:
  "instant_add a d = Inl e \<longleftrightarrow> e = instant_overflow \<and> \<not> (a + d) div nanos < 2 ^ 63"
  by (auto simp: instant_add_def)

lemma instant_add_defined:
  assumes "a < clock_limit" and "d \<le> 2 ^ 50 * nanos"
  shows "instant_add a d = Inr (a + d)"
proof -
  have "a + d < 2 ^ 63 * nanos" using assms by (simp add: clock_limit_def nanos_def)
  then have "(a + d) div nanos < 2 ^ 63" by (simp add: less_mult_imp_div_less)
  then show ?thesis by simp
qed

section \<open>Reachable states\<close>

definition pacer_init :: "u64 \<Rightarrow> nat \<Rightarrow> bool \<Rightarrow> EgressPacer \<Rightarrow> bool" where
  "pacer_init target_mbps packet_bytes adaptive p \<longleftrightarrow>
     (\<exists>now. p = pacer_new target_mbps packet_bytes adaptive now)"

inductive pacer_step :: "EgressPacer \<Rightarrow> EgressPacer \<Rightarrow> bool" where
  "pacer_step p (fst (record_and_wait packet_bytes has_connection env p))"

definition pacer_run_inv :: "u64 \<Rightarrow> nat \<Rightarrow> EgressPacer \<Rightarrow> bool" where
  "pacer_run_inv target_mbps packet_bytes p \<longleftrightarrow>
     pacer_inv p \<and> ep_max_bytes_per_sec p = target_bytes_per_sec target_mbps
     \<and> ep_burst_bytes p = target_burst_bytes (target_bytes_per_sec target_mbps) packet_bytes"

lemma pacer_adjust_frame [simp]:
  "ep_max_bytes_per_sec (pacer_adjust env p) = ep_max_bytes_per_sec p"
  "ep_min_bytes_per_sec (pacer_adjust env p) = ep_min_bytes_per_sec p"
  "ep_burst_bytes (pacer_adjust env p) = ep_burst_bytes p"
  "ep_adaptive (pacer_adjust env p) = ep_adaptive p"
  by (simp_all add: pacer_adjust_def pacer_reset_epoch_def Let_def split: option.split)

interpretation pacer: inv_system "pacer_init t n a" pacer_step "pacer_run_inv t n" for t n a
proof unfold_locales
  show "pacer_run_inv t n p" if "pacer_init t n a p" for p
    using that pacer_new_inv [of t n a] by (auto simp: pacer_init_def pacer_run_inv_def pacer_new_def Let_def)
  show "pacer_run_inv t n q" if "pacer_run_inv t n p" and "pacer_step p q" for p q
    using that(2,1) record_and_wait_inv
    by (cases rule: pacer_step.cases) (auto simp: pacer_run_inv_def record_and_wait_def Let_def)
qed

lemma pacer_current:
  assumes "pacer_inv p" and "ep_current_bytes_per_sec p = Some c"
  shows "62500 \<le> c" "0 < c" "0 \<le> c"
  using assms by (auto simp: pacer_inv_def split: option.splits)

text \<open>What a call to \<open>wait\<close> guarantees at any instant \<open>t\<close> at which it may have returned.\<close>

definition wait_over :: "pacer_env \<Rightarrow> nat option \<Rightarrow> nat \<Rightarrow> bool" where
  "wait_over env r t \<longleftrightarrow> pe_wait_elapsed env \<le> t \<and> pe_wait_now env \<le> t \<and> (\<forall>T. r = Some T \<longrightarrow> T \<le> t)"

lemma unat_excess_diff: "\<not> (e::u64) \<le> b \<Longrightarrow> unat (e - b) = unat e - unat b"
  by (simp add: unat_sub)

lemma pacer_wait_bound:
  assumes inv: "pacer_inv p" and c: "ep_current_bytes_per_sec p = Some c"
    and w: "pacer_wait env p = Inr r" and over: "wait_over env r t"
    and b: "unat (ep_burst_bytes p) = b" and e: "unat (ep_epoch_bytes p) = e"
  shows "of_nat e \<le> (1 + 1 / 2 ^ 50) * (of_nat b + c * (of_nat (t - ep_epoch_started p) + 1 / 2) / 1000000000)"
    (is "_ \<le> ?K * (_ + ?R)")
proof -
  have c0: "0 < c" using pacer_current [OF inv c] by simp
  then have R: "0 \<le> ?R" by simp
  define d where "d = pe_wait_elapsed env - ep_epoch_started p"
  have dt: "(of_nat d :: rat) \<le> of_nat (t - ep_epoch_started p)"
    using over by (simp add: d_def wait_over_def diff_le_mono)
  consider (burst) "e \<le> b" | (early) "f64_of_nat e \<le> fadd (fmul (as_secs_f64 d) c) (f64_of_nat b)"
    | (slept) k where "b < e" "from_secs_f64 (fdiv (f64_of_nat (e - b)) c) = Inr k" "ep_epoch_started p + k \<le> t"
    using w over c
    by (auto simp: pacer_wait_def wait_over_def Let_def b e unat_excess_diff word_le_nat_alt
        simp flip: d_def split: if_splits)
  then show ?thesis
  proof cases
    case burst
    then have "of_nat e \<le> 1 * (of_nat b + ?R)" using R by (simp add: add_increasing2)
    also have "\<dots> \<le> ?K * (of_nat b + ?R)" using R by (intro mult_right_mono) auto
    finally show ?thesis .
  next
    case early
    have "of_nat e \<le> ?K * (of_nat b + c * of_nat d / 1000000000)"
      using early c0 by (intro allowed_bytes_sound) auto
    also have "\<dots> \<le> ?K * (of_nat b + ?R)"
      using dt c0 by (intro mult_left_mono add_left_mono divide_right_mono) auto
    finally show ?thesis .
  next
    case slept
    have "of_nat (e - b) \<le> ?K * (c * (of_nat k + 1 / 2) / 1000000000)"
      using slept(2) c0 by (rule target_elapsed_enough)
    also have "\<dots> \<le> ?K * ?R"
      using slept(3) c0 by (intro mult_left_mono divide_right_mono add_right_mono) auto
    finally have "of_nat (e - b) + of_nat b \<le> ?K * ?R + 1 * of_nat b" by simp
    also have "\<dots> \<le> ?K * ?R + ?K * of_nat b" by (intro add_left_mono mult_right_mono) auto
    finally show ?thesis using slept(1) by (simp add: of_nat_diff distrib_left add.commute)
  qed
qed

text \<open>Waiting can only fail by an overflow of the clock, and that needs an epoch that began very late.\<close>

lemma pacer_wait_Inl:
  assumes "pacer_inv p" and "pacer_wait env p = Inl e"
  shows "e = instant_overflow \<and> clock_limit \<le> ep_epoch_started p"
proof -
  obtain c where c: "ep_current_bytes_per_sec p = Some c"
    using assms(2) by (auto simp: pacer_wait_def split: option.splits)
  obtain k where k: "from_secs_f64 (fdiv (f64_of_nat (unat (ep_epoch_bytes p - ep_burst_bytes p))) c) = Inr k"
    "k \<le> 2 ^ 50 * nanos"
    using target_elapsed_defined pacer_current [OF assms(1) c] unsigned_less [of "ep_epoch_bytes p - ep_burst_bytes p"]
    by fastforce
  then have "instant_add (ep_epoch_started p) k = Inl e"
    using assms(2) c
    by (auto simp: pacer_wait_def Let_def simp del: unat_sub_if' split: if_splits elim!: bind_res.elims)
  with instant_add_defined [OF _ k(2), of "ep_epoch_started p"] show ?thesis by (auto simp: not_less [symmetric])
qed

lemma pacer_wait_sleep:
  assumes inv: "pacer_inv p" and c: "ep_current_bytes_per_sec p = Some c"
    and w: "pacer_wait env p = Inr (Some t)"
    and b: "unat (ep_burst_bytes p) = b" and e: "unat (ep_epoch_bytes p) = e"
  shows "pe_wait_now env < t" "b < e"
    "c * (of_nat (t - ep_epoch_started p) - 1 / 2) / 1000000000 \<le> (1 + 1 / 2 ^ 50) * of_nat (e - b)"
proof -
  obtain k where k: "b < e" "from_secs_f64 (fdiv (f64_of_nat (e - b)) c) = Inr k"
    "t = ep_epoch_started p + k" "pe_wait_now env < t"
    using w c
    by (auto simp: pacer_wait_def Let_def b e unat_excess_diff word_le_nat_alt split: if_splits)
  then show "pe_wait_now env < t" "b < e" by auto
  show "c * (of_nat (t - ep_epoch_started p) - 1 / 2) / 1000000000 \<le> (1 + 1 / 2 ^ 50) * of_nat (e - b)"
    using target_elapsed_not_too_long [OF k(2)] pacer_current [OF inv c] k(3) by simp
qed

lemma reach_record_and_wait:
  assumes "reach (pacer_init t n a) pacer_step p" and "record_and_wait k hc env p = (p', w)"
  shows "pacer_run_inv t n p'" "w = pacer_wait env p'"
proof -
  have "pacer_step p p'" using assms(2) pacer_step.intros [of p k hc env] by simp
  with assms(1) have "reach (pacer_init t n a) pacer_step p'" by (rule reach_step)
  then show "pacer_run_inv t n p'" by (rule pacer.reach_inv)
  show "w = pacer_wait env p'" using assms(2) by (auto simp: record_and_wait_def Let_def)
qed

text \<open>
  How the bytes are counted: in the same epoch the packet is added to those before it, and with a change
  of the rate an empty epoch begins.
\<close>

lemma record_and_wait_epoch:
  assumes "record_and_wait n hc env p = (p', w)"
  shows "if ep_current_bytes_per_sec p' = ep_current_bytes_per_sec p
         then ep_epoch_started p' = ep_epoch_started p
           \<and> ep_epoch_bytes p' = saturating_add (ep_epoch_bytes p) (of_nat n)
         else ep_epoch_started p' = pe_reset env \<and> ep_epoch_bytes p' = 0"
  using assms
  by (auto simp: record_and_wait_def pacer_adjust_def pacer_reset_epoch_def Let_def fsub_def split: if_splits option.splits)

lemma record_and_wait_started:
  "record_and_wait n hc env p = (p', w) \<Longrightarrow> ep_epoch_started p' \<in> {ep_epoch_started p, pe_reset env}"
  by (drule record_and_wait_epoch) (auto split: if_splits)

lemma record_and_wait_Inl:
  assumes "pacer_inv p" and "record_and_wait n hc env p = (p', Inl e)"
  shows "e = instant_overflow \<and> clock_limit \<le> ep_epoch_started p'"
proof -
  have "pacer_inv p'" using record_and_wait_inv [OF assms(1), of n hc env] assms(2) by simp
  moreover have "pacer_wait env p' = Inl e" using assms(2) by (auto simp: record_and_wait_def Let_def)
  ultimately show ?thesis by (rule pacer_wait_Inl)
qed

lemma unat_saturating_count:
  "n < 2 ^ 64 \<Longrightarrow> unat (saturating_add (b :: u64) (of_nat n)) = min (unat b + n) (2 ^ 64 - 1)"
  by (simp add: unat_saturating_add unat_of_nat take_bit_nat_eq_self)

section \<open>A steady pacer\<close>

text \<open>Targets in the range that the configuration allows are exact as doubles.\<close>

lemma target_exact:
  assumes "target_mbps \<noteq> 0" and "target_mbps \<le> 10000"
  shows "target_bytes_per_sec target_mbps = Some (125000 * of_nat (unat target_mbps))"
proof -
  have n: "unat target_mbps \<le> 10000" using assms(2) by (simp add: word_le_nat_alt)
  have exact: "f64_round (of_nat k) = of_nat k" if "k \<le> 10000000000" for k
    using f64_of_nat_exact [of k] that by (simp add: f64_of_nat_def)
  have "f64_of_nat (unat target_mbps) = of_nat (unat target_mbps)" using n by (intro f64_of_nat_exact) simp
  moreover have "fmul (of_nat (unat target_mbps)) 1000000 = of_nat (unat target_mbps * 1000000)"
    using n exact [of "unat target_mbps * 1000000"] by (simp add: fmul_def)
  moreover have "fdiv (of_nat (unat target_mbps * 1000000)) 8 = of_nat (unat target_mbps * 125000)"
    using n exact [of "unat target_mbps * 125000"] by (simp add: fdiv_def mult.commute)
  ultimately show ?thesis using assms(1) by (simp add: target_bytes_per_sec_def mult.commute)
qed

text \<open>A pacer that does not adapt keeps its rate and its first epoch, and has counted \<open>sent\<close> bytes.\<close>

definition pacer_counts :: "u64 \<Rightarrow> nat \<Rightarrow> nat \<Rightarrow> nat \<Rightarrow> EgressPacer \<Rightarrow> bool" where
  "pacer_counts target_mbps packet_bytes now sent p \<longleftrightarrow>
     pacer_run_inv target_mbps packet_bytes p \<and> \<not> ep_adaptive p
     \<and> ep_current_bytes_per_sec p = target_bytes_per_sec target_mbps \<and> ep_epoch_started p = now
     \<and> (sent < 2 ^ 64 \<longrightarrow> unat (ep_epoch_bytes p) = sent)"

lemma pacer_counts_new: "pacer_counts t m now 0 (pacer_new t m False now)"
  using pacer.inv_init [of t m False] 
  by (auto simp: pacer_counts_def pacer_init_def pacer_new_def Let_def)

lemma pacer_counts_record:
  assumes "pacer_counts t m now sent p" and "record_and_wait n hc env p = (p', w)"
  shows "pacer_counts t m now (sent + n) p'"
proof -
  have "pacer_run_inv t m p'"
    using pacer.inv_step [of t m p p'] pacer_step.intros [of p n hc env] assms by (simp add: pacer_counts_def)
  with assms show ?thesis
    by (auto simp: pacer_counts_def record_and_wait_def Let_def unat_saturating_count)
qed

lemma pacer_counts_bound:
  assumes "pacer_counts t m now sent p" and "target_bytes_per_sec t = Some c" and "sent < 2 ^ 64"
    and "pacer_wait env p = Inr r" and "wait_over env r T"
  shows "of_nat sent \<le> (1 + 1 / 2 ^ 50) *
     (of_nat (unat (target_burst_bytes (Some c) m)) + c * (of_nat (T - now) + 1 / 2) / 1000000000)"
proof -
  have "pacer_inv p" "ep_current_bytes_per_sec p = Some c" "unat (ep_burst_bytes p) = unat (target_burst_bytes (Some c) m)"
    "unat (ep_epoch_bytes p) = sent" "ep_epoch_started p = now"
    using assms(1-3) by (auto simp: pacer_counts_def pacer_run_inv_def)
  from pacer_wait_bound [OF this(1,2) assms(4,5) this(3,4)] this(5) show ?thesis by simp
qed

section \<open>A sample run\<close>

definition sample_env :: pacer_env where
  "sample_env = \<lparr>pe_adjust_check = 250000000, pe_adjust_set = 250000000, pe_reset = 250000000,
     pe_wait_elapsed = 0, pe_wait_now = 20, pe_lost_packets = 1, pe_congestion_events = 0\<rparr>"

definition sample_pacer :: "bool \<Rightarrow> EgressPacer" where
  "sample_pacer adaptive =
     \<lparr>ep_max_bytes_per_sec = Some 1000000, ep_current_bytes_per_sec = Some 1000000,
      ep_min_bytes_per_sec = Some 500000, ep_burst_bytes = 5000, ep_epoch_started = 0,
      ep_epoch_bytes = 0, ep_adaptive = adaptive, ep_last_adjust = 0, ep_last_lost_packets = None,
      ep_last_congestion_events = None\<rparr>"

lemma sample_target: "target_bytes_per_sec 8 = Some 1000000"
  by (simp add: target_bytes_per_sec_def fmul_def fdiv_def f64_of_nat_def f64_eval)

lemma sample_burst: "target_burst_bytes (Some 1000000) 1400 = 5000"
proof -
  have w: "PACER_BURST_WINDOW_SECS = 5764607523034235 / 1152921504606846976"
    by (simp add: PACER_BURST_WINDOW_SECS_def f64_eval)
  have m: "fmul 1000000 (5764607523034235 / 1152921504606846976) = 5000" by (simp add: fmul_def f64_eval)
  show ?thesis by (simp add: target_burst_bytes_def f64_of_nat_exact w m)
qed

lemma sample_new: "pacer_new 8 1400 adaptive 0 = sample_pacer adaptive"
  by (simp add: pacer_new_def sample_target sample_burst sample_pacer_def fmul_def f64_eval Let_def)

lemma sample_reach: "reach (pacer_init 8 1400 adaptive) pacer_step (sample_pacer adaptive)"
  by (rule reach_init) (auto simp: pacer_init_def simp flip: sample_new)

lemma sample_sleep:
  "record_and_wait 20625 False sample_env (sample_pacer adaptive)
    = ((sample_pacer adaptive)\<lparr>ep_epoch_bytes := 20625\<rparr>, Inr (Some 15625000))"
proof -
  have d: "fdiv 15625 1000000 = 1 / 64" "fadd 0 5000 = 5000" "fmul 0 1000000 = 0" "as_secs_f64 0 = 0"
    by (simp_all add: fdiv_def fadd_def fmul_def f64_eval as_secs_f64_def f64_of_nat_def)
  have t: "from_secs_f64 (1 / 64) = Inr 15625000"
    by (simp add: from_secs_f64_def round_even_def nanos_def)
  show ?thesis
    by (simp add: record_and_wait_def pacer_wait_def sample_env_def sample_pacer_def saturating_add_def
        f64_of_nat_exact Let_def nanos_def d t)
qed

lemma sample_sampled:
  "fst (record_and_wait 1400 True (sample_env\<lparr>pe_lost_packets := 0\<rparr>) (sample_pacer True)) =
     (sample_pacer True)\<lparr>ep_epoch_bytes := 1400, ep_last_adjust := 250000000, ep_last_lost_packets := Some 0,
       ep_last_congestion_events := Some 0\<rparr>"
  by (simp add: record_and_wait_def pacer_wait_def sample_env_def sample_pacer_def saturating_add_def pacer_adjust_def)

lemma sample_adjust:
  "fst (record_and_wait 1400 True (sample_env\<lparr>pe_adjust_check := 500000000\<rparr>)
     ((sample_pacer True)\<lparr>ep_epoch_bytes := 1400, ep_last_adjust := 250000000, ep_last_lost_packets := Some 0,
       ep_last_congestion_events := Some 0\<rparr>)) = (sample_pacer True)\<lparr>ep_current_bytes_per_sec := Some 850000,
       ep_epoch_started := 250000000,
       ep_last_adjust := 250000000, ep_last_lost_packets := Some 1,
       ep_last_congestion_events := Some 0\<rparr>"
proof -
  have f: "f64_round (17 / 20) = 7656119366529843/9007199254740992" by (simp add: f64_eval)
  have g: "fmul 1000000 (7656119366529843/9007199254740992) = 850000" by (simp add: fmul_def f64_eval)
  have h: "fsub 850000 1000000 = - 150000" by (simp add: fsub_def f64_eval)
  show ?thesis by (simp add: record_and_wait_def sample_env_def sample_pacer_def saturating_add_def
   pacer_adjust_def pacer_next_rate_def pacer_reset_epoch_def Let_def f g h)
qed

section \<open>Properties\<close>

text \<open>
  C30: In every state a pacer can reach, whatever the clock and the connection statistics do, its
  rate lies between half the configured target and the target. A pacer without a target (0) has no
  rate and never sleeps.
\<close>

theorem pacer_rate_range:
  assumes "reach (pacer_init target_mbps n a) pacer_step p"
  shows "case target_bytes_per_sec target_mbps of
           None \<Rightarrow> target_mbps = 0 \<and> ep_current_bytes_per_sec p = None \<and> pacer_wait env p = Inr None
         | Some mx \<Rightarrow> \<exists>c. ep_current_bytes_per_sec p = Some c \<and> 0 < c \<and> mx / 2 \<le> c \<and> c \<le> mx"
  using pacer.reach_inv [OF assms]
  by (auto simp: pacer_run_inv_def pacer_inv_def target_bytes_per_sec_def pacer_wait_def split: if_splits)

theorem pacer_rate_range_witness:
  "\<exists>mx c. target_bytes_per_sec 100 = Some mx \<and> ep_current_bytes_per_sec (pacer_new 100 1400 True 7) = Some c
     \<and> mx / 2 \<le> c \<and> c \<le> mx"
proof -
  have "reach (pacer_init 100 1400 True) pacer_step (pacer_new 100 1400 True 7)"
    by (intro reach_init) (auto simp: pacer_init_def)
  from pacer_rate_range [OF this] show ?thesis by (auto simp: target_bytes_per_sec_def)
qed

text \<open>
  C12: The pacer does its job: when \<open>record_and_wait\<close> has returned at the instant \<open>t\<close>, the bytes
  counted in the epoch do not exceed the burst allowance plus the rate times the time since the epoch
  began, up to a relative error of \<open>2\<^sup>-\<^sup>5\<^sup>0\<close> and half a nanosecond. As long as the rate stays the same, the
  epoch goes on and the count is the one before plus the bytes of the packet just recorded (held at
  the largest 64-bit number); when the rate changes, a new and empty epoch begins.
\<close>

theorem pacer_pacing_bound:
  assumes "reach (pacer_init target_mbps n a) pacer_step p" and "packet_bytes < 2 ^ 64"
    and "record_and_wait packet_bytes has_connection env p = (p', Inr r)"
    and "ep_current_bytes_per_sec p' = Some c" and "wait_over env r t"
  shows "of_nat (unat (ep_epoch_bytes p')) \<le> (1 + 1 / 2 ^ 50) *
     (of_nat (unat (ep_burst_bytes p')) + c * (of_nat (t - ep_epoch_started p') + 1 / 2) / 1000000000)
   \<and> (if ep_current_bytes_per_sec p' = ep_current_bytes_per_sec p
      then ep_epoch_started p' = ep_epoch_started p
        \<and> unat (ep_epoch_bytes p') = min (unat (ep_epoch_bytes p) + packet_bytes) (2 ^ 64 - 1)
      else ep_epoch_started p' = pe_reset env \<and> ep_epoch_bytes p' = 0)"
proof -
  note p' = reach_record_and_wait [OF assms(1,3)]
  have "of_nat (unat (ep_epoch_bytes p')) \<le> (1 + 1 / 2 ^ 50) *
     (of_nat (unat (ep_burst_bytes p')) + c * (of_nat (t - ep_epoch_started p') + 1 / 2) / 1000000000)"
    using p' assms(4,5) by (intro pacer_wait_bound) (auto simp: pacer_run_inv_def)
  with record_and_wait_epoch [OF assms(3)] show ?thesis by (simp add: unat_saturating_count [OF assms(2)] split: if_splits)
qed

theorem pacer_pacing_bound_witness:
  "\<exists>p'. record_and_wait 20625 False sample_env (pacer_new 8 1400 True 0) = (p', Inr (Some 15625000))
     \<and> unat (ep_epoch_bytes p') = 20625 \<and> of_nat (unat (ep_epoch_bytes p'))
       \<le> (1 + 1 / 2 ^ 50) * (of_nat (unat (ep_burst_bytes p')) + 1000000 * (of_nat (15625000 - ep_epoch_started p') + 1 / 2) / (1000000000 :: rat))"
proof -
  have "unat (ep_epoch_bytes ((sample_pacer True)\<lparr>ep_epoch_bytes := 20625\<rparr>)) = 20625" by simp
  moreover note pacer_pacing_bound [OF sample_reach _ sample_sleep, of True 1000000 15625000]
  ultimately show ?thesis
    unfolding sample_new using sample_sleep [of True]
    by (intro exI [of _ "(sample_pacer True)\<lparr>ep_epoch_bytes := 20625\<rparr>"])
      (simp add: sample_pacer_def sample_env_def wait_over_def)
qed

text \<open>
  C31: \<open>record_and_wait\<close> does not panic while the monotonic clock is within \<open>2\<^sup>6\<^sup>2\<close> seconds of its origin: the
  conversion of the waiting time to a \<^verbatim>\<open>Duration\<close> succeeds and adding it to the start of the epoch does not
  overflow the \<^verbatim>\<open>Instant\<close>, for every target, every packet size and even for a saturated byte count. The
  clock readings that matter are the start of the epoch and the one a new epoch takes.
\<close>

theorem pacer_never_panics:
  assumes "reach (pacer_init target_mbps n a) pacer_step p"
    and "ep_epoch_started p < clock_limit" and "pe_reset env < clock_limit"
  shows "\<exists>r. snd (record_and_wait packet_bytes has_connection env p) = Inr r"
proof (cases "record_and_wait packet_bytes has_connection env p")
  case (Pair p' w)
  have inv: "pacer_inv p" using pacer.reach_inv [OF assms(1)] by (simp add: pacer_run_inv_def)
  have "ep_epoch_started p' < clock_limit" using record_and_wait_started [OF Pair] assms(2,3) by auto
  then have "w \<noteq> Inl e" for e using record_and_wait_Inl [OF inv, of packet_bytes has_connection env p' e] Pair by auto
  with Pair show ?thesis by (cases w) auto
qed

theorem pacer_never_panics_witness:
  "\<exists>r. snd (record_and_wait 1400 True sample_env (pacer_new 18446744073709551615 1400 True 7)) = Inr r"
proof -
  have "reach (pacer_init 18446744073709551615 1400 True) pacer_step (pacer_new 18446744073709551615 1400 True 7)"
    by (intro reach_init) (auto simp: pacer_init_def)
  then show ?thesis
    by (rule pacer_never_panics) (simp_all add: pacer_new_def sample_env_def clock_limit_def nanos_def Let_def)
qed

text \<open>
  C32: The pacer does not oversleep: it sleeps only when the burst is used up, and the instant until
  which it sleeps is one at which the rate has just covered the bytes beyond the burst (again up to
  \<open>2\<^sup>-\<^sup>5\<^sup>0\<close> and half a nanosecond).
\<close>

theorem pacer_no_oversleep:
  assumes "reach (pacer_init target_mbps n a) pacer_step p"
    and "record_and_wait packet_bytes has_connection env p = (p', Inr (Some t))"
    and "ep_current_bytes_per_sec p' = Some c"
  shows "pe_wait_now env < t \<and> unat (ep_burst_bytes p') < unat (ep_epoch_bytes p')
     \<and> c * (of_nat (t - ep_epoch_started p') - 1 / 2) / 1000000000
         \<le> (1 + 1 / 2 ^ 50) * of_nat (unat (ep_epoch_bytes p') - unat (ep_burst_bytes p'))"
proof -
  have "pacer_inv p'" "pacer_wait env p' = Inr (Some t)"
    using reach_record_and_wait [OF assms(1,2)] by (auto simp: pacer_run_inv_def)
  from pacer_wait_sleep [OF this(1) assms(3) this(2) refl refl] show ?thesis by blast
qed

theorem pacer_no_oversleep_witness:
  "\<exists>p'. record_and_wait 20625 False sample_env (pacer_new 8 1400 True 0) = (p', Inr (Some 15625000))
     \<and> pe_wait_now sample_env < 15625000 \<and> ep_burst_bytes p' = 5000
     \<and> 1000000 * (of_nat (15625000 - ep_epoch_started p') - 1 / 2) / 1000000000 \<le> (1 + 1 / 2 ^ 50) * (15625 :: rat)"
  unfolding sample_new using sample_sleep [of True] pacer_no_oversleep [OF sample_reach sample_sleep, of True 1000000]
  by (intro exI [of _ "(sample_pacer True)\<lparr>ep_epoch_bytes := 20625\<rparr>"])
    (simp add: sample_pacer_def sample_env_def)

text \<open>
  C33: The adaptive rate reacts the right way. It changes only with adaptive pacing on a connection,
  at least 250 ms after the last adjustment, and then a new epoch begins; it falls only when the
  lost-packet or the congestion counter has grown since the last sample, and rises only when neither
  has.
\<close>

theorem pacer_rate_reaction:
  assumes "reach (pacer_init target_mbps n a) pacer_step p"
    and "record_and_wait packet_bytes has_connection env p = (p', r)"
    and "ep_current_bytes_per_sec p = Some c" and "ep_current_bytes_per_sec p' = Some c'"
    and "grew \<longleftrightarrow> (\<exists>l. ep_last_lost_packets p = Some l \<and> l < pe_lost_packets env)
                \<or> (\<exists>g. ep_last_congestion_events p = Some g \<and> g < pe_congestion_events env)"
  shows "(c' < c \<longrightarrow> grew) \<and> (c < c' \<longrightarrow> \<not> grew)
     \<and> (c' \<noteq> c \<longrightarrow> ep_adaptive p \<and> has_connection \<and> 250000000 \<le> pe_adjust_check env - ep_last_adjust p
          \<and> ep_epoch_bytes p' = 0 \<and> ep_epoch_started p' = pe_reset env)"
proof -
  let ?p = "p\<lparr>ep_epoch_bytes := saturating_add (ep_epoch_bytes p) (of_nat packet_bytes)\<rparr>"
  have inv: "pacer_inv p" using pacer.reach_inv [OF assms(1)] by (simp add: pacer_run_inv_def)
  then obtain mx where mx: "ep_max_bytes_per_sec p = Some mx"
    using assms(3) by (auto simp: pacer_inv_def split: option.splits)
  show ?thesis
  proof (cases "c' = c")
    case False
    with assms(2-4) have a: "ep_adaptive p" "has_connection" "p' = pacer_adjust env ?p"
      by (auto simp: record_and_wait_def Let_def split: if_splits)
    with False assms(3-5) obtain w where "c' = pacer_next_rate ?p c w" "w \<longleftrightarrow> grew"
      "ep_epoch_bytes p' = 0" "ep_epoch_started p' = pe_reset env"
      "250000000 \<le> pe_adjust_check env - ep_last_adjust p"
      by (auto simp: pacer_adjust_def pacer_reset_epoch_def Let_def split: if_splits option.splits)
    moreover have "pacer_next_rate ?p c w = pacer_next_rate p c w" for w by (simp add: pacer_next_rate_def)
    ultimately show ?thesis using next_rate_range(4,5) [OF inv assms(3) mx] a by (auto simp: not_less)
  qed simp
qed

theorem pacer_rate_reaction_witness:
  "\<exists>p p'. reach (pacer_init 8 1400 True) pacer_step p \<and> ep_current_bytes_per_sec p = Some 1000000
     \<and> p' = fst (record_and_wait 1400 True (sample_env\<lparr>pe_adjust_check := 500000000\<rparr>) p)
     \<and> ep_current_bytes_per_sec p' = Some 850000 \<and> ep_epoch_bytes p' = 0"
proof -
  let ?p = "fst (record_and_wait 1400 True (sample_env\<lparr>pe_lost_packets := 0\<rparr>) (sample_pacer True))"
  let ?e = "sample_env\<lparr>pe_adjust_check := 500000000\<rparr>"
  have r: "reach (pacer_init 8 1400 True) pacer_step ?p"
    using sample_reach pacer_step.intros by (rule reach_step)
  have c: "ep_current_bytes_per_sec ?p = Some 1000000" by (simp add: sample_sampled) (simp add: sample_pacer_def)
  have c': "ep_current_bytes_per_sec (fst (record_and_wait 1400 True ?e ?p)) = Some 850000"
    by (simp add: sample_sampled sample_adjust)
  from pacer_rate_reaction [OF r prod.collapse [symmetric] c c' refl]
  have "ep_epoch_bytes (fst (record_and_wait 1400 True ?e ?p)) = 0" by simp
  with r c c' show ?thesis by blast
qed

end
