(* ===== verification/Backlog.thy ===== *)
theory Backlog
  imports Prelude
begin

text \<open>
  \<^verbatim>\<open>DatagramBacklog\<close> of \<^verbatim>\<open>crates/litevpn-core/src/quic.rs\<close>: the window that keeps a sender from queueing
  more than \<^verbatim>\<open>max_backlog_packets\<close> datagrams ahead of the connection. One round of the polling loop
  reads the datagram counter of the connection and the clock and then waits for whichever of the
  timers and the connection's end comes first; \<open>polls i\<close> is what round \<open>i\<close> sees. The lemmas: the
  result of a wait tells whether the window is open, a wait whose window opens, whose deadline passes
  or whose connection ends returns, and along every run of successful calls the datagrams that the
  connection has not sent yet are at most the window.
\<close>

datatype backlog_wake = WTick | WDeadline | WClosed

record backlog_poll =
  bp_tx_datagrams :: u64
  bp_now :: nat
  bp_wake :: backlog_wake

record DatagramBacklog =
  db_baseline_tx_datagrams :: u64
  db_queued_datagrams :: u64
  db_transmitted_datagrams :: u64
  db_max_backlog_packets :: u64

definition backlog_new :: "u64 \<Rightarrow> u64 \<Rightarrow> DatagramBacklog" where
  "backlog_new tx_datagrams max_backlog_packets =
     \<lparr>db_baseline_tx_datagrams = tx_datagrams, db_queued_datagrams = 0, db_transmitted_datagrams = 0,
      db_max_backlog_packets = max_backlog_packets\<rparr>"

definition estimated_backlog :: "DatagramBacklog \<Rightarrow> u64" where
  "estimated_backlog b = saturating_sub (db_queued_datagrams b) (db_transmitted_datagrams b)"

definition backlog_closed :: error where
  "backlog_closed = Bail ''connection closed while waiting for datagram backlog: {reason}''"

text \<open>The loop; without a deadline there is no deadline timer to wait for.\<close>

partial_function (option) backlog_loop ::
    "nat option \<Rightarrow> (nat \<Rightarrow> backlog_poll) \<Rightarrow> nat \<Rightarrow> DatagramBacklog \<Rightarrow> (DatagramBacklog \<times> bool result) option" where
  "backlog_loop deadline polls i b =
     (let b1 = b\<lparr>db_transmitted_datagrams :=
                  saturating_sub (bp_tx_datagrams (polls i)) (db_baseline_tx_datagrams b)\<rparr>
      in if estimated_backlog b1 \<le> db_max_backlog_packets b1 then Some (b1, Inr True)
         else
           case deadline of
             Some d \<Rightarrow>
               if d \<le> bp_now (polls i) then Some (b1, Inr False)
               else (case bp_wake (polls i) of
                       WTick \<Rightarrow> backlog_loop deadline polls (i + 1) b1
                     | WDeadline \<Rightarrow> Some (b1, Inr False)
                     | WClosed \<Rightarrow> Some (b1, Inl backlog_closed))
           | None \<Rightarrow>
               (case bp_wake (polls i) of
                  WClosed \<Rightarrow> Some (b1, Inl backlog_closed)
                | _ \<Rightarrow> backlog_loop deadline polls (i + 1) b1))"

definition wait_until ::
    "nat option \<Rightarrow> (nat \<Rightarrow> backlog_poll) \<Rightarrow> DatagramBacklog \<Rightarrow> (DatagramBacklog \<times> bool result) option" where
  "wait_until deadline polls b =
     (if db_max_backlog_packets b = 0 then Some (b, Inr True)
      else if estimated_backlog b \<le> db_max_backlog_packets b then Some (b, Inr True)
      else backlog_loop deadline polls 0 b)"

definition queued_until ::
    "nat \<Rightarrow> (nat \<Rightarrow> backlog_poll) \<Rightarrow> DatagramBacklog \<Rightarrow> (DatagramBacklog \<times> bool result) option" where
  "queued_until deadline polls b =
     wait_until (Some deadline) polls
       (b\<lparr>db_queued_datagrams := saturating_add (db_queued_datagrams b) 1\<rparr>)"

definition queued ::
    "(nat \<Rightarrow> backlog_poll) \<Rightarrow> DatagramBacklog \<Rightarrow> (DatagramBacklog \<times> unit result) option" where
  "queued polls b =
     map_option (\<lambda>(b1, r). (b1, bind_res r (\<lambda>_. Inr ())))
       (wait_until None polls (b\<lparr>db_queued_datagrams := saturating_add (db_queued_datagrams b) 1\<rparr>))"

section \<open>One wait\<close>

text \<open>The state after reading the counter in round \<open>i\<close>.\<close>

definition polled :: "(nat \<Rightarrow> backlog_poll) \<Rightarrow> nat \<Rightarrow> DatagramBacklog \<Rightarrow> DatagramBacklog" where
  "polled polls i b = b\<lparr>db_transmitted_datagrams :=
     saturating_sub (bp_tx_datagrams (polls i)) (db_baseline_tx_datagrams b)\<rparr>"

lemma polled_simps [simp]:
  "db_baseline_tx_datagrams (polled polls i b) = db_baseline_tx_datagrams b"
  "db_queued_datagrams (polled polls i b) = db_queued_datagrams b"
  "db_max_backlog_packets (polled polls i b) = db_max_backlog_packets b"
  "polled polls j (polled polls i b) = polled polls j b"
  by (simp_all add: polled_def)

definition window_open :: "(nat \<Rightarrow> backlog_poll) \<Rightarrow> nat \<Rightarrow> DatagramBacklog \<Rightarrow> bool" where
  "window_open polls i b \<longleftrightarrow> estimated_backlog (polled polls i b) \<le> db_max_backlog_packets b"

definition deadline_over :: "nat option \<Rightarrow> backlog_poll \<Rightarrow> bool" where
  "deadline_over deadline p \<longleftrightarrow> (\<exists>d. deadline = Some d \<and> (d \<le> bp_now p \<or> bp_wake p = WDeadline))"

text \<open>One round of the loop, with the three reasons to stop.\<close>

lemma backlog_round:
  "(let b1 = b\<lparr>db_transmitted_datagrams :=
                  saturating_sub (bp_tx_datagrams (polls i)) (db_baseline_tx_datagrams b)\<rparr>
      in if estimated_backlog b1 \<le> db_max_backlog_packets b1 then Some (b1, Inr True)
         else
           case deadline of
             Some d \<Rightarrow>
               if d \<le> bp_now (polls i) then Some (b1, Inr False)
               else (case bp_wake (polls i) of
                       WTick \<Rightarrow> loop deadline polls (i + 1) b1
                     | WDeadline \<Rightarrow> Some (b1, Inr False)
                     | WClosed \<Rightarrow> Some (b1, Inl backlog_closed))
           | None \<Rightarrow>
               (case bp_wake (polls i) of
                  WClosed \<Rightarrow> Some (b1, Inl backlog_closed)
                | _ \<Rightarrow> loop deadline polls (i + 1) b1)) =
     (if window_open polls i b then Some (polled polls i b, Inr True)
      else if deadline_over deadline (polls i) then Some (polled polls i b, Inr False)
      else (case bp_wake (polls i) of
              WClosed \<Rightarrow> Some (polled polls i b, Inl backlog_closed)
            | _ \<Rightarrow> loop deadline polls (Suc i) (polled polls i b)))"
  by (auto simp: Let_def window_open_def polled_def [symmetric] deadline_over_def
      split: option.split backlog_wake.split)

lemmas backlog_loop_unfold = backlog_loop.simps [unfolded backlog_round]

text \<open>What a result says, by induction on the computation.\<close>

definition wait_outcome ::
    "nat option \<Rightarrow> (nat \<Rightarrow> backlog_poll) \<Rightarrow> DatagramBacklog \<Rightarrow> DatagramBacklog \<Rightarrow> bool result \<Rightarrow> bool" where
  "wait_outcome deadline polls b b' r \<longleftrightarrow>
     (\<exists>i. b' = polled polls i b
        \<and> (case r of
             Inr True \<Rightarrow> window_open polls i b
           | Inr False \<Rightarrow> \<not> window_open polls i b \<and> deadline_over deadline (polls i)
           | Inl e \<Rightarrow> bp_wake (polls i) = WClosed \<and> e = backlog_closed))"

lemma window_open_polled [simp]: "window_open polls j (polled polls i b) = window_open polls j b"
  by (simp add: window_open_def)

lemma backlog_loop_outcome:
  "backlog_loop deadline polls i b = Some y \<Longrightarrow> wait_outcome deadline polls b (fst y) (snd y)"
proof (induction rule: backlog_loop.raw_induct [rotated, consumes 1, case_names step])
  case (step loop deadline polls i b y)
  let ?b = "polled polls i b"
  have ih: "wait_outcome deadline polls b (fst y) (snd y)" if "loop deadline polls (Suc i) ?b = Some y"
    using step(1) [OF that] by (auto simp: wait_outcome_def split: sum.splits bool.splits)
  from step(2) have "(if window_open polls i b then Some (?b, Inr True)
      else if deadline_over deadline (polls i) then Some (?b, Inr False)
      else case bp_wake (polls i) of WClosed \<Rightarrow> Some (?b, Inl backlog_closed)
           | _ \<Rightarrow> loop deadline polls (Suc i) ?b) = Some y"
    unfolding backlog_round [symmetric] by simp
  then show ?case
    using ih by (auto simp: wait_outcome_def split: if_splits backlog_wake.splits)
qed

lemma wait_until_outcome:
  assumes "wait_until deadline polls b = Some (b', r)"
  shows "b' = b \<and> r = Inr True \<and> (db_max_backlog_packets b = 0 \<or> estimated_backlog b \<le> db_max_backlog_packets b)
    \<or> wait_outcome deadline polls b b' r"
  using assms backlog_loop_outcome [of deadline polls 0 b "(b', r)"]
  by (auto simp: wait_until_def split: if_splits)

lemma backlog_loop_returns:
  assumes "i \<le> j"
    and "window_open polls j b \<or> deadline_over deadline (polls j) \<or> bp_wake (polls j) = WClosed"
  shows "\<exists>y. backlog_loop deadline polls i b = Some y"
  using assms
proof (induction "j - i" arbitrary: i b)
  case 0
  then show ?case by (subst backlog_loop_unfold) auto
next
  case (Suc k)
  have "\<exists>y. backlog_loop deadline polls (Suc i) (polled polls i b) = Some y"
    using Suc.hyps(2) Suc.prems by (intro Suc.hyps(1)) auto
  then show ?case by (subst backlog_loop_unfold) (auto split: backlog_wake.split)
qed

section \<open>Runs\<close>

text \<open>
  A run carries along the datagram counter of the connection, which never falls, and the number of
  datagrams the sender has handed over. Counter values seen during a call lie between those before
  and after it.
\<close>

type_synonym backlog_run = "DatagramBacklog \<times> u64 \<times> nat"

definition backlog_init :: "u64 \<Rightarrow> u64 \<Rightarrow> backlog_run \<Rightarrow> bool" where
  "backlog_init base m s \<longleftrightarrow> s = (backlog_new base m, base, 0)"

definition counter_between :: "u64 \<Rightarrow> (nat \<Rightarrow> backlog_poll) \<Rightarrow> u64 \<Rightarrow> bool" where
  "counter_between tx polls tx' \<longleftrightarrow>
     tx \<le> tx' \<and> (\<forall>i. tx \<le> bp_tx_datagrams (polls i) \<and> bp_tx_datagrams (polls i) \<le> tx')"

inductive backlog_step :: "backlog_run \<Rightarrow> backlog_run \<Rightarrow> bool" where
  step_queued: "queued polls b = Some (b', Inr ()) \<Longrightarrow> counter_between tx polls tx'
    \<Longrightarrow> backlog_step (b, tx, n) (b', tx', n + 1)"
| step_queued_until: "queued_until deadline polls b = Some (b', Inr True) \<Longrightarrow> counter_between tx polls tx'
    \<Longrightarrow> backlog_step (b, tx, n) (b', tx', n + 1)"
| step_progress: "tx \<le> tx' \<Longrightarrow> backlog_step (b, tx, n) (b, tx', n)"

inductive_cases backlog_stepE: "backlog_step s t"

definition backlog_inv :: "u64 \<Rightarrow> u64 \<Rightarrow> backlog_run \<Rightarrow> bool" where
  "backlog_inv base m s \<longleftrightarrow>
     (case s of (b, tx, n) \<Rightarrow>
        db_baseline_tx_datagrams b = base \<and> db_max_backlog_packets b = m \<and> base \<le> tx
        \<and> unat (db_queued_datagrams b) = min n (2 ^ 64 - 1)
        \<and> unat (db_transmitted_datagrams b) \<le> unat tx - unat base
        \<and> (m = 0 \<or> estimated_backlog b \<le> m))"

lemma wait_until_inv:
  assumes w: "wait_until deadline polls b1 = Some (b', Inr True)" and c: "counter_between tx polls tx'"
    and b1: "b1 = b\<lparr>db_queued_datagrams := saturating_add (db_queued_datagrams b) 1\<rparr>"
    and inv: "backlog_inv base m (b, tx, n)"
  shows "backlog_inv base m (b', tx', n + 1)"
proof -
  have q: "unat (db_queued_datagrams b1) = min (n + 1) (2 ^ 64 - 1)"
    using inv by (simp add: b1 backlog_inv_def unat_saturating_add)
  have le: "unat tx \<le> unat tx'" "unat base \<le> unat tx" "unat (bp_tx_datagrams (polls i)) \<le> unat tx'" for i
    using c inv by (auto simp: counter_between_def backlog_inv_def word_le_nat_alt)
  from wait_until_outcome [OF w] show ?thesis
  proof
    assume "wait_outcome deadline polls b1 b' (Inr True)"
    then obtain i where "b' = polled polls i b1" "estimated_backlog b' \<le> db_max_backlog_packets b1"
      by (auto simp: wait_outcome_def window_open_def)
    with q le le(3) [of i] inv b1 show ?thesis
      by (auto simp: backlog_inv_def polled_def unat_saturating_sub word_le_nat_alt diff_le_mono)
  qed (use q le inv in \<open>auto simp: backlog_inv_def b1 word_le_nat_alt\<close>)
qed

interpretation backlog: inv_system "backlog_init base m" backlog_step "backlog_inv base m" for base m
proof unfold_locales
  show "backlog_inv base m s" if "backlog_init base m s" for s
    using that by (simp add: backlog_init_def backlog_inv_def backlog_new_def estimated_backlog_def saturating_sub_def)
  show "backlog_inv base m t" if "backlog_inv base m s" "backlog_step s t" for s t
    using that(2,1)
  proof (cases rule: backlog_step.cases)
    case (step_queued polls b b' tx tx' n)
    then obtain w where "wait_until None polls (b\<lparr>db_queued_datagrams := saturating_add (db_queued_datagrams b) 1\<rparr>) = Some (b', Inr w)"
      by (auto simp: queued_def)
    moreover from this have w by (auto dest!: wait_until_outcome simp: wait_outcome_def deadline_over_def split: bool.splits)
    ultimately show ?thesis
      using that(1) step_queued wait_until_inv [of None polls _ b' tx tx' b base m n] by simp
  next
    case (step_queued_until deadline polls b b' tx tx' n)
    then show ?thesis using that(1) wait_until_inv [of "Some deadline" polls _ b' tx tx' b base m n]
      by (simp add: queued_until_def)
  next
    case (step_progress tx tx' b n)
    then show ?thesis using that(1) by (auto simp: backlog_inv_def word_le_nat_alt)
  qed
qed

lemma backlog_inv_window:
  assumes inv: "backlog_inv base m (b, tx, n)" and "m \<noteq> 0" and "n < 2 ^ 64"
  shows "n - (unat tx - unat base) \<le> unat m"
proof -
  have "unat (db_queued_datagrams b) = n" using assms by (auto simp: backlog_inv_def)
  with assms show ?thesis
    by (auto simp: backlog_inv_def estimated_backlog_def word_le_nat_alt unat_saturating_sub)
qed

section \<open>Properties\<close>

text \<open>
  C14: The window holds: along every run in which each \<open>queued\<close> and \<open>queued_until\<close> succeeded, of the
  \<open>n\<close> datagrams handed over at most \<open>max_backlog_packets\<close> have not been sent by the connection, given
  that its counter counts only these. The bound 0 switches the window off.
\<close>

theorem backlog_window:
  assumes "reach (backlog_init base m) backlog_step (b, tx, n)" and "m \<noteq> 0" and "n < 2 ^ 64"
  shows "n - (unat tx - unat base) \<le> unat m"
  using backlog.reach_inv [OF assms(1)] assms(2,3) by (rule backlog_inv_window)

theorem backlog_window_witness:
  "\<exists>b. reach (backlog_init 40 1) backlog_step (b, 41, 1) \<and> 1 - (unat (41::u64) - unat (40::u64)) \<le> unat (1::u64)"
proof -
  let ?polls = "\<lambda>i. \<lparr>bp_tx_datagrams = 40, bp_now = i, bp_wake = WTick\<rparr>"
  have "queued ?polls (backlog_new 40 1) = Some ((backlog_new 40 1)\<lparr>db_queued_datagrams := 1\<rparr>, Inr ())"
    by (simp add: queued_def wait_until_def backlog_new_def estimated_backlog_def saturating_sub_def saturating_add_def)
  moreover have "counter_between 40 ?polls 41" by (simp add: counter_between_def)
  ultimately have "backlog_step (backlog_new 40 1, 40, 0) ((backlog_new 40 1)\<lparr>db_queued_datagrams := 1\<rparr>, 41, 0 + 1)"
    by (rule step_queued)
  then have "reach (backlog_init 40 1) backlog_step ((backlog_new 40 1)\<lparr>db_queued_datagrams := 1\<rparr>, 41, 1)"
    by (auto simp: backlog_init_def intro: reach_step [OF reach_init])
  with backlog_window [OF this] show ?thesis by auto
qed

text \<open>A backlog of three with a window of one, and a connection that sends a datagram every round.\<close>

definition sample_backlog :: DatagramBacklog where
  "sample_backlog = (backlog_new 40 1)\<lparr>db_queued_datagrams := 3\<rparr>"

definition sample_polls :: "nat \<Rightarrow> backlog_poll" where
  "sample_polls i = \<lparr>bp_tx_datagrams = 40 + of_nat i, bp_now = i, bp_wake = WTick\<rparr>"

lemma sample_wait:
  "wait_until (Some 9) sample_polls sample_backlog = Some (sample_backlog\<lparr>db_transmitted_datagrams := 2\<rparr>, Inr True)"
proof -
  let ?b = "\<lambda>k. sample_backlog\<lparr>db_transmitted_datagrams := k\<rparr>"
  have "backlog_loop (Some 9) sample_polls (Suc (Suc 0)) (?b 1) = Some (?b 2, Inr True)"
    by (subst backlog_loop.simps)
      (simp add: sample_backlog_def sample_polls_def backlog_new_def estimated_backlog_def saturating_sub_def Let_def word_le_nat_alt)
  then have "backlog_loop (Some 9) sample_polls (Suc 0) (?b 0) = Some (?b 2, Inr True)"
    by (subst backlog_loop.simps)
      (simp add: sample_backlog_def sample_polls_def backlog_new_def estimated_backlog_def saturating_sub_def Let_def word_le_nat_alt)
  then have "backlog_loop (Some 9) sample_polls 0 sample_backlog = Some (?b 2, Inr True)"
    by (subst backlog_loop.simps)
      (simp add: sample_backlog_def sample_polls_def backlog_new_def estimated_backlog_def saturating_sub_def Let_def word_le_nat_alt)
  then show ?thesis
    by (simp add: wait_until_def sample_backlog_def backlog_new_def estimated_backlog_def saturating_sub_def
        word_le_nat_alt)
qed

text \<open>
  C24: A wait comes to an end as soon as one round finds the window open, the deadline over or the
  connection closed, and its result is right: \<open>Ok(true)\<close> means that the window is open or switched
  off, \<open>Ok(false)\<close> that it is still closed and a deadline was given and is over, and an error that the
  connection was closed.
\<close>

theorem backlog_wait_correct:
  assumes "window_open polls i b \<or> deadline_over deadline (polls i) \<or> bp_wake (polls i) = WClosed"
  shows "\<exists>b' r. wait_until deadline polls b = Some (b', r)
     \<and> (case r of
          Inr True \<Rightarrow> db_max_backlog_packets b = 0 \<or> estimated_backlog b' \<le> db_max_backlog_packets b
        | Inr False \<Rightarrow> db_max_backlog_packets b < estimated_backlog b' \<and> (\<exists>i. deadline_over deadline (polls i))
        | Inl e \<Rightarrow> \<exists>i. bp_wake (polls i) = WClosed)"
proof -
  have "\<exists>b' r. wait_until deadline polls b = Some (b', r)"
    using backlog_loop_returns [of 0 i polls b deadline] assms by (simp add: wait_until_def)
  then obtain b' r where w: "wait_until deadline polls b = Some (b', r)" by blast
  from wait_until_outcome [OF w] show ?thesis
    by (intro exI [of _ b'] exI [of _ r] conjI w, cases r)
      (auto simp: wait_outcome_def window_open_def not_le split: bool.splits)
qed

theorem backlog_wait_correct_witness:
  "\<exists>b'. wait_until (Some 9) sample_polls sample_backlog = Some (b', Inr True)
     \<and> (db_max_backlog_packets sample_backlog = 0 \<or> estimated_backlog b' \<le> db_max_backlog_packets sample_backlog)"
proof -
  have "window_open sample_polls 2 sample_backlog"
    by (simp add: window_open_def polled_def sample_backlog_def sample_polls_def backlog_new_def
        estimated_backlog_def saturating_sub_def)
  then show ?thesis
    using backlog_wait_correct [of sample_polls 2 sample_backlog "Some 9"] sample_wait by simp
qed

end
