(* ===== verification/Pump.thy ===== *)
theory Pump
  imports Stream_Frame Pacer Backlog
begin

text \<open>
  The packet pumps of \<^verbatim>\<open>crates/litevpn-core/src/quic.rs\<close>. A pump is an endless \<^verbatim>\<open>loop\<close>; \<open>run_rounds\<close> runs its
  body over a list of rounds, each of which says what the calls into the TUN device, the connection
  and the clock return in that round. After the last round the pump is still running. The locale
  \<open>forwarder\<close> is what the three loop bodies have in common: a round hands on its packets or ends the
  loop. The lemmas: each pump hands on exactly the packets it must, in order and unchanged; a pump
  ends only with an error; pacing and the datagram window are obeyed; the two halves of a tunnel
  compose.
\<close>

section \<open>Loops over rounds\<close>

lemma concat_map_nested: "concat (map (\<lambda>r. concat (map f (g r))) xs) = concat (map f (concat (map g xs)))"
  by (induction xs) simp_all

text \<open>A loop body goes on to the next round, waits for the window, or leaves the pump with its result.\<close>

datatype pump_status = PRunning | PBlocked | PReturned "unit result"

fun run_rounds :: "('s \<Rightarrow> 'r \<Rightarrow> 's \<times> pump_status) \<Rightarrow> 's \<Rightarrow> 'r list \<Rightarrow> 's \<times> pump_status" where
  "run_rounds body s [] = (s, PRunning)"
| "run_rounds body s (r # rs) =
     (case body s r of
        (s', PRunning) \<Rightarrow> run_rounds body s' rs
      | (s', st) \<Rightarrow> (s', st))"

locale forwarder =
  fixes body :: "'s \<Rightarrow> 'r \<Rightarrow> 's \<times> pump_status"
    and out :: "'s \<Rightarrow> 'o list"
    and item :: "'r \<Rightarrow> 'o list"
  assumes body_running: "body s r = (s', PRunning) \<Longrightarrow> out s' = out s @ item r"
    and body_ended: "body s r = (s', st) \<Longrightarrow> out s' = out s \<or> out s' = out s @ item r"
begin

lemma run_running: "run_rounds body s rs = (s', PRunning) \<Longrightarrow> out s' = out s @ concat (map item rs)"
proof (induction rs arbitrary: s)
  case (Cons r rs)
  then show ?case by (auto dest!: body_running split: prod.splits pump_status.splits)
qed simp

lemma run_prefix:
  "run_rounds body s rs = (s', st) \<Longrightarrow> \<exists>k \<le> length rs. out s' = out s @ concat (map item (take k rs))"
proof (induction rs arbitrary: s)
  case (Cons r rs)
  obtain s1 st1 where b: "body s r = (s1, st1)" by force
  show ?case
  proof (cases "st1 = PRunning")
    case True
    with b Cons.prems have "run_rounds body s1 rs = (s', st)" by simp
    from Cons.IH [OF this] obtain k where "k \<le> length rs" "out s' = out s1 @ concat (map item (take k rs))"
      by auto
    with b True body_running [of s r s1] show ?thesis by (intro exI [of _ "Suc k"]) auto
  next
    case False
    with b Cons.prems have "s' = s1" by (auto split: pump_status.splits)
    with body_ended [OF b] show ?thesis by (auto intro: exI [of _ 0] exI [of _ 1])
  qed
qed auto

end

text \<open>A predicate kept by the body is kept by the loop.\<close>

lemma run_rounds_inv:
  assumes "\<And>s r s' st. I s \<Longrightarrow> body s r = (s', st) \<Longrightarrow> I s'" and "I s" and "run_rounds body s rs = (s', st)"
  shows "I s'"
  using assms(2,3)
proof (induction rs arbitrary: s)
  case (Cons r rs)
  then show ?case
    using assms(1) [OF Cons.prems(1)] by (cases "body s r") (auto split: pump_status.splits)
qed simp

section \<open>Datagrams\<close>

datatype tun_recv = TunPacket "u8 list" | TunError error | ConnClosed

record quic_round =
  qr_recv :: tun_recv
  qr_max_datagram :: "nat option"
  qr_send :: "unit result"
  qr_polls :: "nat \<Rightarrow> backlog_poll"
  qr_env :: pacer_env

record quic_pump =
  qp_sent :: "u8 list list"
  qp_backlog :: DatagramBacklog
  qp_pacer :: EgressPacer

definition closed_waiting :: error where
  "closed_waiting = Bail ''{label}: connection closed while waiting for tun packet: {reason}''"

definition pump_tun_to_quic_body :: "quic_pump \<Rightarrow> quic_round \<Rightarrow> quic_pump \<times> pump_status" where
  "pump_tun_to_quic_body s r =
     (case qr_recv r of
        TunError e \<Rightarrow> (s, PReturned (Inl e))
      | ConnClosed \<Rightarrow> (s, PReturned (Inl closed_waiting))
      | TunPacket packet \<Rightarrow>
          if packet = [] then (s, PRunning)
          else if (case qr_max_datagram r of None \<Rightarrow> False | Some m \<Rightarrow> length packet > m) then (s, PRunning)
          else
            (case qr_send r of
               Inl e \<Rightarrow> (s, PReturned (Inl e))
             | Inr _ \<Rightarrow>
                 let s1 = s\<lparr>qp_sent := qp_sent s @ [packet]\<rparr> in
                 case queued (qr_polls r) (qp_backlog s1) of
                   None \<Rightarrow> (s1, PBlocked)
                 | Some (b, Inl e) \<Rightarrow> (s1\<lparr>qp_backlog := b\<rparr>, PReturned (Inl e))
                 | Some (b, Inr _) \<Rightarrow>
                     (case record_and_wait (length packet) True (qr_env r) (qp_pacer s1) of
                        (p, w) \<Rightarrow> (s1\<lparr>qp_backlog := b, qp_pacer := p\<rparr>,
                           case w of Inl e \<Rightarrow> PReturned (Inl e) | Inr _ \<Rightarrow> PRunning))))"

definition pump_tun_to_quic ::
    "nat \<Rightarrow> u64 \<Rightarrow> u64 \<Rightarrow> bool \<Rightarrow> nat \<Rightarrow> u64 \<Rightarrow> quic_round list \<Rightarrow> quic_pump \<times> pump_status" where
  "pump_tun_to_quic mtu egress_target_mbps datagram_backlog_packets adaptive_egress now tx_datagrams rounds =
     run_rounds pump_tun_to_quic_body
       \<lparr>qp_sent = [], qp_backlog = backlog_new tx_datagrams datagram_backlog_packets,
        qp_pacer = pacer_new egress_target_mbps mtu adaptive_egress now\<rparr> rounds"

text \<open>The datagram that the connection yields, and the number of bytes the device takes of it.\<close>

type_synonym tun_round = "u8 list result \<times> nat result"

definition pump_quic_to_tun_body :: "u8 list list \<Rightarrow> tun_round \<Rightarrow> u8 list list \<times> pump_status" where
  "pump_quic_to_tun_body s r =
     (case fst r of
        Inl e \<Rightarrow> (s, PReturned (Inl e))
      | Inr packet \<Rightarrow>
          (case snd r of
             Inl e \<Rightarrow> (s, PReturned (Inl e))
           | Inr written \<Rightarrow>
               if written \<noteq> length packet
               then (s, PReturned (Inl (Bail ''{label}: partial tun write: wrote {written} of {} bytes'')))
               else (s @ [packet], PRunning)))"

definition pump_quic_to_tun :: "tun_round list \<Rightarrow> u8 list list \<times> pump_status" where
  "pump_quic_to_tun = run_rounds pump_quic_to_tun_body []"

section \<open>Streams\<close>

record stream_round =
  sr_recv :: tun_recv
  sr_write :: "unit result"
  sr_env :: pacer_env

record stream_pump =
  sp_wire :: "u8 list"
  sp_header :: "u8 list"
  sp_pacer :: EgressPacer

text \<open>
  \<open>sp_wire\<close> holds the frames whose write completed. A write that fails ends the pump; whatever part of
  the frame the connection has sent by then is not counted.
\<close>

definition pump_tun_to_stream_body :: "stream_pump \<Rightarrow> stream_round \<Rightarrow> stream_pump \<times> pump_status" where
  "pump_tun_to_stream_body s r =
     (case sr_recv r of
        TunError e \<Rightarrow> (s, PReturned (Inl e))
      | ConnClosed \<Rightarrow> (s, PReturned (Inl closed_waiting))
      | TunPacket packet \<Rightarrow>
          if packet = [] then (s, PRunning)
          else
            (case write_stream_packet (sr_write r) (sp_header s) packet of
               (header, chunks, Inl e) \<Rightarrow> (s\<lparr>sp_header := header\<rparr>, PReturned (Inl e))
             | (header, chunks, Inr _) \<Rightarrow>
                 let s1 = s\<lparr>sp_header := header, sp_wire := sp_wire s @ concat chunks\<rparr> in
                 (case record_and_wait (length packet) True (sr_env r) (sp_pacer s1) of
                    (p, w) \<Rightarrow> (s1\<lparr>sp_pacer := p\<rparr>, case w of Inl e \<Rightarrow> PReturned (Inl e) | Inr _ \<Rightarrow> PRunning))))"

definition pump_tun_to_stream ::
    "nat \<Rightarrow> u64 \<Rightarrow> bool \<Rightarrow> nat \<Rightarrow> stream_round list \<Rightarrow> stream_pump \<times> pump_status" where
  "pump_tun_to_stream mtu egress_target_mbps adaptive_egress now rounds =
     run_rounds pump_tun_to_stream_body
       \<lparr>sp_wire = [], sp_header = [0, 0], sp_pacer = pacer_new egress_target_mbps mtu adaptive_egress now\<rparr> rounds"

section \<open>Small helpers of the data path\<close>

definition ensure_datagram_capacity :: "nat option \<Rightarrow> nat \<Rightarrow> unit result" where
  "ensure_datagram_capacity max_datagram_size mtu =
     (case max_datagram_size of
        None \<Rightarrow> Inr ()
      | Some m \<Rightarrow>
          bail_if (m < mtu) ''{label}: QUIC datagram capacity {max} is below configured tunnel MTU {mtu}'')"

text \<open>
  \<^verbatim>\<open>create_udp_socket\<close>: the calls on the socket, in order, with the outcome of each as an argument. A
  failing \<^verbatim>\<open>set_only_v6\<close> is only logged.
\<close>

datatype 'a sock_op = SetOnlyV6 bool | SetRecvBufferSize nat | SetSendBufferSize nat | SockBind 'a

record sock_env =
  se_new :: "unit result"
  se_only_v6 :: "unit result"
  se_recv :: "unit result"
  se_send :: "unit result"
  se_bind :: "unit result"

definition create_udp_socket ::
    "sock_env \<Rightarrow> bool \<Rightarrow> 'a \<Rightarrow> nat \<Rightarrow> nat \<Rightarrow> 'a sock_op list \<times> unit result" where
  "create_udp_socket env is_ipv6 addr recv_buffer_bytes send_buffer_bytes =
     (let v6 = (if is_ipv6 then [SetOnlyV6 False] else []);
          rcv = (if recv_buffer_bytes > 0 then [SetRecvBufferSize recv_buffer_bytes] else []);
          snd = (if send_buffer_bytes > 0 then [SetSendBufferSize send_buffer_bytes] else [])
      in case context_res ''failed to create UDP socket'' (se_new env) of
           Inl e \<Rightarrow> ([], Inl e)
         | Inr _ \<Rightarrow>
             (case (if recv_buffer_bytes > 0
                    then context_res ''failed to set UDP receive buffer size'' (se_recv env) else Inr ()) of
                Inl e \<Rightarrow> (v6 @ rcv, Inl e)
              | Inr _ \<Rightarrow>
                  (case (if send_buffer_bytes > 0
                         then context_res ''failed to set UDP send buffer size'' (se_send env) else Inr ()) of
                     Inl e \<Rightarrow> (v6 @ rcv @ snd, Inl e)
                   | Inr _ \<Rightarrow>
                       (v6 @ rcv @ snd @ [SockBind addr],
                        context_res ''failed to bind UDP socket to {addr}'' (se_bind env)))))"

section \<open>What each round hands on\<close>

definition datagram_fits :: "nat option \<Rightarrow> u8 list \<Rightarrow> bool" where
  "datagram_fits max_datagram p \<longleftrightarrow> (case max_datagram of None \<Rightarrow> True | Some m \<Rightarrow> length p \<le> m)"

definition quic_item :: "quic_round \<Rightarrow> u8 list list" where
  "quic_item r =
     (case qr_recv r of
        TunPacket p \<Rightarrow> if p \<noteq> [] \<and> datagram_fits (qr_max_datagram r) p then [p] else []
      | _ \<Rightarrow> [])"

definition tun_item :: "tun_round \<Rightarrow> u8 list list" where
  "tun_item r = (case r of (Inr p, Inr n) \<Rightarrow> if n = length p then [p] else [] | _ \<Rightarrow> [])"

definition stream_item :: "stream_round \<Rightarrow> u8 list list" where
  "stream_item r = (case sr_recv r of TunPacket p \<Rightarrow> if p = [] then [] else [p] | _ \<Rightarrow> [])"

lemma write_stream_packet_Inr:
  "write_stream_packet w h p = (h', chunks, Inr ()) \<Longrightarrow> framable p \<and> concat chunks = frame p"
  by (auto simp: write_stream_packet_def framable_def frame_def Let_def split: if_splits)

interpretation quic_up: forwarder pump_tun_to_quic_body qp_sent quic_item
  by unfold_locales
    (auto simp: pump_tun_to_quic_body_def quic_item_def datagram_fits_def Let_def
      split: tun_recv.splits if_splits sum.splits option.splits prod.splits)

interpretation quic_down: forwarder pump_quic_to_tun_body "\<lambda>s. s" tun_item
  by unfold_locales
    (auto simp: pump_quic_to_tun_body_def tun_item_def split: sum.splits if_splits prod.splits)

interpretation stream_up: forwarder pump_tun_to_stream_body sp_wire "\<lambda>r. concat (map frame (stream_item r))"
  by unfold_locales
    (auto simp: pump_tun_to_stream_body_def stream_item_def Let_def write_stream_packet_Inr
      split: tun_recv.splits if_splits sum.splits prod.splits dest!: write_stream_packet_Inr)

section \<open>Pacing, window and the end of a pump\<close>

lemma pump_quic_pacer_inv:
  assumes "pacer_inv (qp_pacer s)" and "pump_tun_to_quic_body s r = (s', st)"
  shows "pacer_inv (qp_pacer s')"
  using assms record_and_wait_inv [of "qp_pacer s" _ True "qr_env r"]
  by (auto simp: pump_tun_to_quic_body_def Let_def
      split: tun_recv.splits if_splits sum.splits option.splits prod.splits)
    (metis fst_conv)+

text \<open>Why a round ends the pump.\<close>

definition quic_round_fails :: "quic_round \<Rightarrow> error \<Rightarrow> bool" where
  "quic_round_fails r e \<longleftrightarrow>
     qr_recv r = TunError e \<or> qr_recv r = ConnClosed \<and> e = closed_waiting \<or> qr_send r = Inl e
     \<or> e = backlog_closed \<and> (\<exists>i. bp_wake (qr_polls r i) = WClosed)"

lemma queued_Inl:
  assumes "queued polls b = Some (b', Inl e)"
  shows "e = backlog_closed \<and> (\<exists>i. bp_wake (polls i) = WClosed)"
proof -
  from assms have "wait_until None polls (b\<lparr>db_queued_datagrams := saturating_add (db_queued_datagrams b) 1\<rparr>)
      = Some (b', Inl e)"
    by (auto simp: queued_def elim: bind_res.elims)
  from wait_until_outcome [OF this] show ?thesis by (auto simp: wait_outcome_def)
qed

text \<open>An overflow of the clock needs one of the instants \<open>S\<close> at which an epoch began to be very late.\<close>

definition clock_overflows :: "nat set \<Rightarrow> error \<Rightarrow> bool" where
  "clock_overflows S e \<longleftrightarrow> e = instant_overflow \<and> (\<exists>i \<in> S. clock_limit \<le> i)"

lemma pump_quic_epoch:
  assumes "pump_tun_to_quic_body s r = (s', st)"
  shows "ep_epoch_started (qp_pacer s') \<in> {ep_epoch_started (qp_pacer s), pe_reset (qr_env r)}"
  using assms
  by (auto simp: pump_tun_to_quic_body_def Let_def dest!: record_and_wait_started
      split: tun_recv.splits if_splits sum.splits option.splits prod.splits)

lemma pump_tun_to_quic_body_not_Ok: "pump_tun_to_quic_body s r \<noteq> (s', PReturned (Inr u))"
  by (auto simp: pump_tun_to_quic_body_def Let_def split: tun_recv.splits sum.splits option.splits prod.splits)

lemma pump_quic_body_returned:
  assumes "pacer_inv (qp_pacer s)" and "pump_tun_to_quic_body s r = (s', PReturned res)"
  shows "\<exists>e. res = Inl e \<and> (quic_round_fails r e \<or> clock_overflows {ep_epoch_started (qp_pacer s')} e)"
  using assms pump_tun_to_quic_body_not_Ok [of s r s']
  by (cases res)
    (auto simp: pump_tun_to_quic_body_def quic_round_fails_def clock_overflows_def Let_def
      split: tun_recv.splits if_splits sum.splits option.splits prod.splits
      dest!: queued_Inl dest: record_and_wait_Inl)

text \<open>The round in which a loop returns.\<close>

lemma run_rounds_returned:
  assumes "\<And>s r s' st. r \<in> set rs \<Longrightarrow> I s \<Longrightarrow> body s r = (s', st) \<Longrightarrow> I s'"
    and "\<And>s r s'. r \<in> set rs \<Longrightarrow> I s \<Longrightarrow> I s' \<Longrightarrow> body s r = (s', PReturned res) \<Longrightarrow> Q r"
    and "I s" and "run_rounds body s rs = (s', PReturned res)"
  shows "\<exists>r \<in> set rs. Q r"
  using assms
proof (induction rs arbitrary: s)
  case (Cons r rs)
  obtain s1 st where b: "body s r = (s1, st)" by force
  have I: "I s1" using Cons.prems(1,3) b by (meson list.set_intros(1))
  show ?case
  proof (cases st)
    case PRunning
    then have "run_rounds body s1 rs = (s', PReturned res)" using Cons.prems(4) b by simp
    from Cons.IH [OF Cons.prems(1) [OF list.set_intros(2)] Cons.prems(2) [OF list.set_intros(2)] I this]
    show ?thesis by auto
  next
    case (PReturned res1)
    with Cons.prems(4) b have "res1 = res" by simp
    with Cons.prems(2) [OF _ Cons.prems(3) I] b PReturned show ?thesis by auto
  qed (use b Cons.prems(4) in auto)
qed simp

lemma pump_quic_to_tun_body_not_Ok: "pump_quic_to_tun_body s r \<noteq> (s', PReturned (Inr u))"
  by (auto simp: pump_quic_to_tun_body_def split: sum.splits)

lemma pump_tun_to_stream_body_not_Ok: "pump_tun_to_stream_body s r \<noteq> (s', PReturned (Inr u))"
  by (auto simp: pump_tun_to_stream_body_def Let_def split: tun_recv.splits sum.splits prod.splits)

text \<open>Leaving a loop with \<^verbatim>\<open>Ok\<close> takes a body that does.\<close>

lemma run_rounds_not_Ok:
  "(\<And>s r s'. body s r \<noteq> (s', PReturned (Inr u))) \<Longrightarrow> run_rounds body s rs \<noteq> (s', PReturned (Inr u))"
  by (induction rs arbitrary: s) (auto split: prod.splits pump_status.splits)

lemmas pumps_not_Ok =
  run_rounds_not_Ok [OF pump_quic_to_tun_body_not_Ok] run_rounds_not_Ok [OF pump_tun_to_stream_body_not_Ok]
  run_rounds_not_Ok [OF pump_tun_to_quic_body_not_Ok]

text \<open>The counter values that the rounds see rise from \<open>tx\<close> to \<open>tx'\<close>.\<close>

fun counters_rise :: "u64 \<Rightarrow> quic_round list \<Rightarrow> u64 \<Rightarrow> bool" where
  "counters_rise tx [] tx' \<longleftrightarrow> tx \<le> tx'"
| "counters_rise tx (r # rs) tx' \<longleftrightarrow>
     (\<exists>tx1. counter_between tx (qr_polls r) tx1 \<and> counters_rise tx1 rs tx')"

lemma pump_quic_body_backlog:
  assumes "pump_tun_to_quic_body s r = (s', PRunning)" and c: "counter_between tx (qr_polls r) tx'"
  shows "backlog_step\<^sup>*\<^sup>* (qp_backlog s, tx, length (qp_sent s)) (qp_backlog s', tx', length (qp_sent s'))"
proof -
  have "tx \<le> tx'" using c by (simp add: counter_between_def)
  then have skip: "backlog_step (b, tx, n) (b, tx', n)" for b n by (rule step_progress)
  have queue: "backlog_step (b, tx, n) (b', tx', Suc n)" if "queued (qr_polls r) b = Some (b', Inr ())" for b b' n
    using step_queued [OF that c, of n] by simp
  from assms(1) skip queue show ?thesis
    by (auto simp: pump_tun_to_quic_body_def Let_def intro!: r_into_rtranclp
        split: tun_recv.splits if_splits sum.splits option.splits prod.splits)
qed

lemma run_quic_backlog:
  assumes "run_rounds pump_tun_to_quic_body s rs = (s', PRunning)" and "counters_rise tx rs tx'"
  shows "backlog_step\<^sup>*\<^sup>* (qp_backlog s, tx, length (qp_sent s)) (qp_backlog s', tx', length (qp_sent s'))"
  using assms
proof (induction rs arbitrary: s tx)
  case Nil
  then show ?case by (auto intro: step_progress)
next
  case (Cons r rs)
  then obtain tx1 s1 where "counter_between tx (qr_polls r) tx1" "counters_rise tx1 rs tx'"
    "pump_tun_to_quic_body s r = (s1, PRunning)" "run_rounds pump_tun_to_quic_body s1 rs = (s', PRunning)"
    by (auto split: prod.splits pump_status.splits)
  with Cons.IH pump_quic_body_backlog show ?case by (meson rtranclp_trans)
qed

text \<open>What a pacer that does not adapt has counted is what the pump has sent.\<close>

lemma pump_quic_body_counts:
  assumes "pump_tun_to_quic_body s r = (s', PRunning)"
    and "pacer_counts target mtu now (sum_list (map length (qp_sent s))) (qp_pacer s)"
  shows "pacer_counts target mtu now (sum_list (map length (qp_sent s'))) (qp_pacer s')"
  using assms
  by (auto simp: pump_tun_to_quic_body_def Let_def dest: pacer_counts_record
      split: tun_recv.splits if_splits sum.splits option.splits prod.splits)

lemma run_quic_counts:
  assumes "run_rounds pump_tun_to_quic_body s rs = (s', PRunning)"
    and "pacer_counts target mtu now (sum_list (map length (qp_sent s))) (qp_pacer s)"
  shows "pacer_counts target mtu now (sum_list (map length (qp_sent s'))) (qp_pacer s')"
  using assms
  by (induction rs arbitrary: s) (auto split: prod.splits pump_status.splits dest: pump_quic_body_counts)

lemmas pump_quic_backlog_steps = backlog.steps_inv [OF run_quic_backlog]

text \<open>A running downlink has written every datagram.\<close>

lemma pump_quic_to_tun_all:
  "run_rounds pump_quic_to_tun_body s rs = (s', PRunning) \<Longrightarrow> map Inr s' = map Inr s @ map fst rs"
  by (induction rs arbitrary: s)
    (auto simp: pump_quic_to_tun_body_def split: sum.splits if_splits)

section \<open>Sample rounds\<close>

definition sample_quic_round :: "u8 list \<Rightarrow> quic_round" where
  "sample_quic_round p = \<lparr>qr_recv = TunPacket p, qr_max_datagram = Some 3, qr_send = Inr (),
     qr_polls = (\<lambda>i. \<lparr>bp_tx_datagrams = 0, bp_now = i, bp_wake = WTick\<rparr>), qr_env = sample_env\<rparr>"

definition sample_stream_round :: "u8 list \<Rightarrow> stream_round" where
  "sample_stream_round p = \<lparr>sr_recv = TunPacket p, sr_write = Inr (), sr_env = sample_env\<rparr>"

lemma pacer_unlimited [simp]:
  "record_and_wait n c env (pacer_new 0 k False now) =
     ((pacer_new 0 k False now)\<lparr>ep_epoch_bytes := saturating_add 0 (of_nat n)\<rparr>, Inr None)"
  "record_and_wait n c env ((pacer_new 0 k False now)\<lparr>ep_epoch_bytes := b\<rparr>) =
     ((pacer_new 0 k False now)\<lparr>ep_epoch_bytes := saturating_add b (of_nat n)\<rparr>, Inr None)"
  by (simp_all add: record_and_wait_def pacer_new_def target_bytes_per_sec_def pacer_wait_def Let_def)

definition sample_quic_rounds :: "quic_round list" where
  "sample_quic_rounds = map sample_quic_round [[1, 2, 3], [], [4, 5, 6, 7], [8]]"

lemma sample_quic_run:
  "\<exists>s. pump_tun_to_quic 3 0 2 False 0 0 sample_quic_rounds = (s, PRunning) \<and> length (qp_sent s) = 2"
  by (simp add: sample_quic_rounds_def pump_tun_to_quic_def pump_tun_to_quic_body_def sample_quic_round_def queued_def wait_until_def
      backlog_new_def estimated_backlog_def saturating_add_def saturating_sub_def word_le_nat_alt Let_def)

lemma sample_stream_run:
  "\<exists>s. pump_tun_to_stream 3 0 False 0 (map sample_stream_round [[1, 2, 3], [], [8]]) = (s, PRunning)"
  by (simp add: pump_tun_to_stream_def pump_tun_to_stream_body_def sample_stream_round_def
      write_stream_packet_def to_be_bytes_def Let_def)

section \<open>Properties\<close>

text \<open>
  C25: The uplink sends exactly the packets read from the TUN device that are not empty and fit into a
  datagram, in order and unchanged: all of them while it runs, and those of a prefix of the rounds
  when it has stopped.
\<close>

theorem pump_tun_to_quic_forwards:
  assumes "pump_tun_to_quic mtu target backlog adaptive now tx rounds = (s, st)"
  shows "(st = PRunning \<longrightarrow> qp_sent s = concat (map quic_item rounds))
     \<and> (\<exists>k \<le> length rounds. qp_sent s = concat (map quic_item (take k rounds)))"
  using assms quic_up.run_running quic_up.run_prefix by (fastforce simp: pump_tun_to_quic_def)

theorem pump_tun_to_quic_forwards_witness:
  "\<exists>s. pump_tun_to_quic 3 0 2 False 0 0 sample_quic_rounds = (s, PRunning)
     \<and> qp_sent s = [[1, 2, 3], [8]]"
proof -
  obtain s where s: "pump_tun_to_quic 3 0 2 False 0 0 sample_quic_rounds = (s, PRunning)"
    using sample_quic_run by blast
  have "concat (map quic_item sample_quic_rounds) = [[1, 2, 3], [8]]"
    by (simp add: sample_quic_rounds_def quic_item_def sample_quic_round_def datagram_fits_def)
  with s pump_tun_to_quic_forwards [OF s] show ?thesis by auto
qed

text \<open>
  C26: A running uplink keeps the datagram window: at most \<open>datagram_backlog_packets\<close> of the datagrams
  it sent are still waiting in the connection, whose counter went from \<open>tx\<close> to \<open>tx'\<close>.
\<close>

theorem pump_tun_to_quic_window:
  assumes "pump_tun_to_quic mtu target backlog adaptive now tx rounds = (s, PRunning)"
    and "counters_rise tx rounds tx'" and "backlog \<noteq> 0" and "length (qp_sent s) < 2 ^ 64"
  shows "length (qp_sent s) - (unat tx' - unat tx) \<le> unat backlog"
proof -
  have "backlog_inv tx backlog (backlog_new tx backlog, tx, 0)"
    by (rule backlog.inv_init) (simp add: backlog_init_def)
  with pump_quic_backlog_steps [OF assms(1) [unfolded pump_tun_to_quic_def] assms(2)]
  have "backlog_inv tx backlog (qp_backlog s, tx', length (qp_sent s))" by simp
  then show ?thesis using assms(3,4) by (rule backlog_inv_window)
qed

theorem pump_tun_to_quic_window_witness:
  "\<exists>s. pump_tun_to_quic 3 0 2 False 0 0 sample_quic_rounds = (s, PRunning)
     \<and> length (qp_sent s) - (unat (0::u64) - unat (0::u64)) \<le> unat (2::u64)"
proof -
  obtain s where s: "pump_tun_to_quic 3 0 2 False 0 0 sample_quic_rounds = (s, PRunning)"
    and n: "length (qp_sent s) < 2 ^ 64"
    using sample_quic_run by auto
  have "counters_rise 0 sample_quic_rounds 0"
    by (auto simp: counter_between_def sample_quic_rounds_def sample_quic_round_def intro!: exI [of _ 0])
  with pump_tun_to_quic_window [OF s _ _ n, of 0] s show ?thesis by auto
qed



text \<open>
  C28: An uplink never returns \<^verbatim>\<open>Ok\<close>, and it returns an error only because a call it makes failed or the
  connection was closed. In particular neither the pacer nor the window ever ends it on their own (a
  panic of the pacer takes a clock that is \<open>2\<^sup>6\<^sup>2\<close> seconds from its origin).
\<close>

theorem pump_tun_to_quic_ends:
  assumes "pump_tun_to_quic mtu target backlog adaptive now tx rounds = (s, PReturned res)"
  shows "\<exists>e. res = Inl e \<and> ((\<exists>r \<in> set rounds. quic_round_fails r e)
           \<or> clock_overflows (insert now ((\<lambda>r. pe_reset (qr_env r)) ` set rounds)) e)"
proof -
  let ?S = "insert now ((\<lambda>r. pe_reset (qr_env r)) ` set rounds)"
  let ?I = "\<lambda>s. pacer_inv (qp_pacer s) \<and> ep_epoch_started (qp_pacer s) \<in> ?S"
  have "\<exists>r \<in> set rounds. \<exists>e. res = Inl e \<and> (quic_round_fails r e \<or> clock_overflows ?S e)"
  proof (rule run_rounds_returned [where I = ?I, OF _ _ _ assms [unfolded pump_tun_to_quic_def]])
    show "?I s'" if "r \<in> set rounds" and "?I s" and "pump_tun_to_quic_body s r = (s', st)" for s r s' st
      using that pump_quic_pacer_inv [OF _ that(3)] pump_quic_epoch [OF that(3)] by auto
    show "\<exists>e. res = Inl e \<and> (quic_round_fails r e \<or> clock_overflows ?S e)"
      if "?I s" and "?I s'" and "pump_tun_to_quic_body s r = (s', PReturned res)" for s r s'
      using that pump_quic_body_returned [OF _ that(3)] by (auto simp: clock_overflows_def)
  qed (simp add: pacer_new_inv, simp add: pacer_new_def Let_def)
  then show ?thesis by blast
qed

theorem pump_tun_to_quic_ends_witness:
  "\<exists>s. pump_tun_to_quic 3 0 2 False 0 0 [sample_quic_round [1], (sample_quic_round [])\<lparr>qr_recv := ConnClosed\<rparr>] =
       (s, PReturned (Inl closed_waiting))
     \<and> (\<exists>r \<in> set [sample_quic_round [1], (sample_quic_round [])\<lparr>qr_recv := ConnClosed\<rparr>]. quic_round_fails r closed_waiting)"
proof -
  have "\<exists>s. pump_tun_to_quic 3 0 2 False 0 0 [sample_quic_round [1], (sample_quic_round [])\<lparr>qr_recv := ConnClosed\<rparr>] =
      (s, PReturned (Inl closed_waiting))"
    by (simp add: pump_tun_to_quic_def pump_tun_to_quic_body_def sample_quic_round_def queued_def wait_until_def
      backlog_new_def estimated_backlog_def saturating_add_def saturating_sub_def word_le_nat_alt Let_def)
  moreover have "\<not> clock_overflows S closed_waiting" for S
    by (simp add: clock_overflows_def closed_waiting_def instant_overflow_def)
  ultimately show ?thesis using pump_tun_to_quic_ends by fastforce
qed

text \<open>
  C29: With the capacity check passed and packets no longer than the MTU, the uplink drops nothing:
  while it runs it has sent every non-empty packet that the device yielded, as long as the datagram
  limit stays what it was.
\<close>

theorem datagram_capacity_no_drop:
  assumes "ensure_datagram_capacity max_datagram_size mtu = Inr ()"
    and "\<forall>r \<in> set rounds. qr_max_datagram r = max_datagram_size"
    and "\<forall>r \<in> set rounds. \<forall>p. qr_recv r = TunPacket p \<longrightarrow> length p \<le> mtu"
    and "pump_tun_to_quic mtu target backlog adaptive now tx rounds = (s, PRunning)"
  shows "qp_sent s = [p. r \<leftarrow> rounds, p \<leftarrow> (case qr_recv r of TunPacket p \<Rightarrow> [p] | _ \<Rightarrow> []), p \<noteq> []]"
proof -
  have "quic_item r = [p. p \<leftarrow> (case qr_recv r of TunPacket p \<Rightarrow> [p] | _ \<Rightarrow> []), p \<noteq> []]" if "r \<in> set rounds" for r
    using assms(1-3) that
    by (auto simp: quic_item_def datagram_fits_def ensure_datagram_capacity_def bail_if_def not_less
        split: tun_recv.splits option.splits if_splits dest: order_trans)
  then have "concat (map quic_item rounds) = [p. r \<leftarrow> rounds, p \<leftarrow> (case qr_recv r of TunPacket p \<Rightarrow> [p] | _ \<Rightarrow> []), p \<noteq> []]"
    by (intro arg_cong [where f = concat] map_cong) simp_all
  then show ?thesis
    using quic_up.run_running [OF assms(4) [unfolded pump_tun_to_quic_def]] by simp
qed

theorem datagram_capacity_no_drop_witness:
  "\<exists>s. pump_tun_to_quic 3 0 2 False 0 0 (map sample_quic_round [[1, 2, 3], [], [8]]) = (s, PRunning)
     \<and> qp_sent s = [[1, 2, 3], [8]]"
proof -
  obtain s where s: "pump_tun_to_quic 3 0 2 False 0 0 (map sample_quic_round [[1, 2, 3], [], [8]]) = (s, PRunning)"
    by (simp add: pump_tun_to_quic_def pump_tun_to_quic_body_def sample_quic_round_def queued_def wait_until_def
        backlog_new_def estimated_backlog_def saturating_add_def saturating_sub_def word_le_nat_alt Let_def)
  have "qp_sent s = [[1, 2, 3], [8]]"
    by (subst datagram_capacity_no_drop [OF _ _ _ s, of "Some 3"])
      (simp_all add: sample_quic_round_def ensure_datagram_capacity_def bail_if_def)
  with s show ?thesis by blast
qed

text \<open>
  C9: Nothing is made up in the datagram tunnel: if every datagram that one side reads was sent by
  the other, each packet written to the TUN device was read from the other side's device, unchanged.
  A running downlink has written every datagram it read.
\<close>

theorem datagram_tunnel_safe:
  assumes "pump_tun_to_quic mtu target backlog adaptive now tx rounds = (s, st)"
    and "pump_quic_to_tun rounds' = (delivered, st')"
    and "\<forall>r \<in> set rounds'. \<forall>p. fst r = Inr p \<longrightarrow> p \<in> set (qp_sent s)"
  shows "(\<forall>p \<in> set delivered. p \<noteq> [] \<and> (\<exists>r \<in> set rounds. qr_recv r = TunPacket p))
     \<and> (st' = PRunning \<longrightarrow> map Inr delivered = map fst rounds')"
proof -
  obtain k where sent: "qp_sent s = concat (map quic_item (take k rounds))"
    using assms(1) quic_up.run_prefix by (fastforce simp: pump_tun_to_quic_def)
  obtain j where del: "delivered = concat (map tun_item (take j rounds'))"
    using assms(2) quic_down.run_prefix by (fastforce simp: pump_quic_to_tun_def)
  have "p \<noteq> [] \<and> (\<exists>r \<in> set rounds. qr_recv r = TunPacket p)" if "p \<in> set delivered" for p
  proof -
    from that obtain r where "r \<in> set rounds'" "fst r = Inr p"
      by (auto simp: del tun_item_def split: sum.splits if_splits dest: in_set_takeD)
    with assms(3) have "p \<in> set (qp_sent s)" by blast
    then show ?thesis
      by (auto simp: sent quic_item_def split: tun_recv.splits if_splits dest: in_set_takeD)
  qed
  moreover have "map Inr delivered = map fst rounds'" if "st' = PRunning"
    using assms(2) that unfolding pump_quic_to_tun_def by (auto dest!: pump_quic_to_tun_all)
  ultimately show ?thesis by blast
qed

theorem datagram_tunnel_safe_witness:
  "\<exists>s. pump_tun_to_quic 3 0 2 False 0 0 sample_quic_rounds = (s, PRunning)
     \<and> pump_quic_to_tun [(Inr [8], Inr 1), (Inr [1, 2, 3], Inr 3)] = ([[8], [1, 2, 3]], PRunning)
     \<and> (\<forall>p \<in> set [[8], [1, 2, 3]]. p \<noteq> [] \<and> (\<exists>r \<in> set sample_quic_rounds. qr_recv r = TunPacket p))"
proof -
  obtain s where s: "pump_tun_to_quic 3 0 2 False 0 0 sample_quic_rounds = (s, PRunning)"
    using sample_quic_run by blast
  have sent: "qp_sent s = [[1, 2, 3], [8]]"
    using quic_up.run_running [OF s [unfolded pump_tun_to_quic_def]]
    by (simp add: sample_quic_rounds_def quic_item_def sample_quic_round_def datagram_fits_def)
  have d: "pump_quic_to_tun [(Inr [8], Inr 1), (Inr [1, 2, 3], Inr 3)] = ([[8], [1, 2, 3]], PRunning)"
    by (simp add: pump_quic_to_tun_def pump_quic_to_tun_body_def)
  have "\<forall>p \<in> set [[8], [1, 2, 3]]. p \<noteq> [] \<and> (\<exists>r \<in> set sample_quic_rounds. qr_recv r = TunPacket p)"
    using datagram_tunnel_safe [OF s d] sent by simp
  with s d show ?thesis by blast
qed

text \<open>
  C3: The stream tunnel is lossless: the bytes one side's uplink has put on the wire, cut into reads
  in any way, make the other side's downlink with the same MTU write exactly the non-empty packets
  the first side read, in order and unchanged (all of them while the uplink runs, those of a prefix
  of its rounds when it has stopped).
\<close>

theorem stream_tunnel_lossless:
  assumes "pump_tun_to_stream mtu target adaptive now rounds = (s, st)"
    and "recv_stream rd content lag" and "tun_device device_send logged"
    and "\<forall>r \<in> set rounds. \<forall>p. sr_recv r = TunPacket p \<longrightarrow> length p \<le> mtu + 64" and "mtu + 64 \<le> 65535"
    and "content r = sp_wire s"
  shows "\<exists>k r' d'. pump_stream_to_tun rd device_send (mtu + 64) r d = Some (Inr (), r', d')
     \<and> logged d' = logged d @ concat (map stream_item (take k rounds)) \<and> (st = PRunning \<longrightarrow> length rounds \<le> k)"
proof -
  have ex: "\<exists>k. sp_wire s = concat (map (\<lambda>r. concat (map frame (stream_item r))) (take k rounds))
      \<and> (st = PRunning \<longrightarrow> length rounds \<le> k)"
  proof (cases "st = PRunning")
    case True
    with assms(1) stream_up.run_running show ?thesis
      by (intro exI [of _ "length rounds"]) (fastforce simp: pump_tun_to_stream_def)
  next
    case False
    with assms(1) stream_up.run_prefix show ?thesis by (fastforce simp: pump_tun_to_stream_def)
  qed
  then obtain k where k: "sp_wire s = concat (map (\<lambda>r. concat (map frame (stream_item r))) (take k rounds))"
    "st = PRunning \<longrightarrow> length rounds \<le> k" by blast
  let ?ps = "concat (map stream_item (take k rounds))"
  have w: "content r = concat (map frame ?ps)"
    using k(1) assms(6) by (simp add: concat_map_nested)
  have "length p \<le> mtu + 64" if "p \<in> set ?ps" for p
    using that assms(4) by (auto simp: stream_item_def dest!: in_set_takeD split: tun_recv.splits if_splits)
  then have "list_all (\<lambda>p. framable p \<and> length p \<le> mtu + 64) ?ps"
    using order_trans [OF _ assms(5)] unfolding list_all_iff framable_def by blast
  moreover have "filter (\<lambda>p. p \<noteq> []) ?ps = ?ps"
    by (auto simp: filter_id_conv stream_item_def split: tun_recv.splits if_splits)
  ultimately show ?thesis
    using stream_tunnel.pump_delivers [OF stream_tunnel.intro [OF assms(2,3)] _ w, of "mtu + 64" d] k(2) by auto
qed

theorem stream_tunnel_lossless_witness:
  "\<exists>s k r' d'. pump_tun_to_stream 3 0 False 0 (map sample_stream_round [[1, 2, 3], [], [8]]) = (s, PRunning)
     \<and> pump_stream_to_tun seg_read log_send 67 [sp_wire s] [] = Some (Inr (), r', d') \<and> d' = [[1, 2, 3], [8]]"
proof -
  obtain s where s: "pump_tun_to_stream 3 0 False 0 (map sample_stream_round [[1, 2, 3], [], [8]]) = (s, PRunning)"
    using sample_stream_run by blast
  have "\<exists>k r' d'. pump_stream_to_tun seg_read log_send (3 + 64) [sp_wire s] [] = Some (Inr (), r', d')
     \<and> d' = [] @ concat (map stream_item (take k (map sample_stream_round [[1, 2, 3], [], [8]])))
     \<and> (PRunning = PRunning \<longrightarrow> length (map sample_stream_round [[1, 2, 3], [], [8]]) \<le> k)"
    by (rule stream_tunnel_lossless [OF s segments.recv_stream_axioms log_device.tun_device_axioms])
      (simp_all add: sample_stream_round_def)
  with s show ?thesis by (auto simp: stream_item_def sample_stream_round_def)
qed

end
