(* ===== verification/Server.thy ===== *)
theory Server
  imports Auth Config Pump
begin

text \<open>
  The connection handling of \<^verbatim>\<open>crates/litevpn-server/src/main.rs\<close>: \<^verbatim>\<open>main\<close> spawns a task for every incoming
  connection, and the tasks share the counter \<^verbatim>\<open>next_client_id\<close> and the slot \<^verbatim>\<open>active\<close>. A step of
  \<open>server_step\<close> is one atomic action of one task (a call that may wait, the atomic \<^verbatim>\<open>fetch_add\<close>, one
  critical section of the mutex), so its runs are all interleavings. The slot, the counter and the
  position of every task are the state, with two ghosts: the number of identifiers issued and the
  authentication streams that were read. The lemmas: only clients with the token get the tunnel, at
  most one connection is served that the server has not closed or is about to close, no task clears
  another client's slot, and the slot never dangles.
\<close>

type_synonym conn = nat

record ActiveClient =
  ac_id :: u64
  ac_connection :: conn

datatype phase =
    Fresh
  | Connected
  | Benching BenchDirection u64 usize "u64 option"
  | Admitted
  | HasId u64
  | Replacing u64 "ActiveClient option"
  | Serving u64
  | Returned "u64 option"
  | Gone

record server =
  sv_next_client_id :: u64
  sv_active :: "ActiveClient option"
  sv_closed :: "conn set"
  sv_task :: "conn \<Rightarrow> phase"
  sv_issued :: nat
  sv_auth :: "conn \<Rightarrow> server_auth_io option"

definition server_start :: server where
  "server_start = \<lparr>sv_next_client_id = 1, sv_active = None, sv_closed = {}, sv_task = (\<lambda>_. Fresh),
     sv_issued = 0, sv_auth = (\<lambda>_. None)\<rparr>"

text \<open>
  \<^verbatim>\<open>handle_connection\<close> from the authentication to the point where it asks for an identifier; no
  authentication streams within ten seconds is a timeout.
\<close>

definition admit ::
    "VpnTransportMode \<Rightarrow> nat \<Rightarrow> rstr \<Rightarrow> server_auth_io option \<Rightarrow> nat option \<Rightarrow> phase" where
  "admit vpn_transport mtu token auth max_datagram_size =
     (case auth of
        None \<Rightarrow> Returned None
      | Some io \<Rightarrow>
          (case snd (server_authenticate io token) of
             Inl _ \<Rightarrow> Returned None
           | Inr (Bench direction duration_secs payload_bytes target_mbps) \<Rightarrow>
               Benching direction duration_secs payload_bytes target_mbps
           | Inr Vpn \<Rightarrow>
               if vpn_transport = Datagram \<and> \<not> is_ok (ensure_datagram_capacity max_datagram_size mtu)
               then Returned None
               else Admitted))"

text \<open>The two critical sections.\<close>

definition replace_active :: "u64 \<Rightarrow> conn \<Rightarrow> server \<Rightarrow> ActiveClient option \<times> server" where
  "replace_active i c s = (sv_active s, s\<lparr>sv_active := Some \<lparr>ac_id = i, ac_connection = c\<rparr>\<rparr>)"

definition clear_active :: "u64 option \<Rightarrow> server \<Rightarrow> server" where
  "clear_active client_id s =
     (case client_id of
        None \<Rightarrow> s
      | Some i \<Rightarrow>
          if (case sv_active s of None \<Rightarrow> False | Some client \<Rightarrow> ac_id client = i)
          then s\<lparr>sv_active := None\<rparr> else s)"

definition goto :: "conn \<Rightarrow> phase \<Rightarrow> server \<Rightarrow> server" where
  "goto c p s = s\<lparr>sv_task := (sv_task s)(c := p)\<rparr>"

definition close_previous :: "ActiveClient option \<Rightarrow> server \<Rightarrow> server" where
  "close_previous previous s =
     (case previous of None \<Rightarrow> s | Some a \<Rightarrow> s\<lparr>sv_closed := insert (ac_connection a) (sv_closed s)\<rparr>)"

inductive server_step :: "VpnTransportMode \<Rightarrow> nat \<Rightarrow> rstr \<Rightarrow> server \<Rightarrow> server \<Rightarrow> bool"
  for vpn_transport :: VpnTransportMode and mtu :: nat and token :: rstr
where
  step_accept: "sv_task s c = Fresh \<Longrightarrow> p \<in> {Connected, Returned None}
    \<Longrightarrow> server_step vpn_transport mtu token s (goto c p s)"
| step_auth: "sv_task s c = Connected
    \<Longrightarrow> server_step vpn_transport mtu token s
          (goto c (admit vpn_transport mtu token auth max_datagram_size) (s\<lparr>sv_auth := (sv_auth s)(c := auth)\<rparr>))"
| step_bench: "sv_task s c = Benching direction duration_secs payload_bytes target_mbps
    \<Longrightarrow> server_step vpn_transport mtu token s (goto c (Returned None) s)"
| step_fetch_add: "sv_task s c = Admitted
    \<Longrightarrow> server_step vpn_transport mtu token s
          (goto c (HasId (sv_next_client_id s))
            (s\<lparr>sv_next_client_id := sv_next_client_id s + 1, sv_issued := sv_issued s + 1\<rparr>))"
| step_replace: "sv_task s c = HasId i \<Longrightarrow> replace_active i c s = (previous, s')
    \<Longrightarrow> server_step vpn_transport mtu token s (goto c (Replacing i previous) s')"
| step_close_previous: "sv_task s c = Replacing i previous
    \<Longrightarrow> server_step vpn_transport mtu token s (goto c (Serving i) (close_previous previous s))"
| step_return: "sv_task s c = Serving i
    \<Longrightarrow> server_step vpn_transport mtu token s (goto c (Returned (Some i)) s)"
| step_clear: "sv_task s c = Returned client_id
    \<Longrightarrow> server_step vpn_transport mtu token s (goto c Gone (clear_active client_id s))"

inductive_cases server_stepE: "server_step vpn_transport mtu token s t"

section \<open>The invariant\<close>

fun id_of :: "phase \<Rightarrow> u64 option" where
  "id_of (HasId i) = Some i"
| "id_of (Replacing i _) = Some i"
| "id_of (Serving i) = Some i"
| "id_of (Returned client_id) = client_id"
| "id_of _ = None"

fun registered :: "phase \<Rightarrow> u64 option" where
  "registered (HasId _) = None"
| "registered p = id_of p"

text \<open>Past the point at which the task takes the slot.\<close>

fun past_replace :: "phase \<Rightarrow> bool" where
  "past_replace (Replacing _ _) = True"
| "past_replace (Serving _) = True"
| "past_replace (Returned _) = True"
| "past_replace Gone = True"
| "past_replace _ = False"

definition ids_ok :: "server \<Rightarrow> bool" where
  "ids_ok s \<longleftrightarrow>
     sv_next_client_id s = of_nat (Suc (sv_issued s))
     \<and> (\<forall>c i. id_of (sv_task s c) = Some i \<longrightarrow> unat i \<le> sv_issued s)
     \<and> (\<forall>c c' i. id_of (sv_task s c) = Some i \<and> id_of (sv_task s c') = Some i \<longrightarrow> c = c')"

definition slot_ok :: "server \<Rightarrow> bool" where
  "slot_ok s \<longleftrightarrow>
     (\<forall>a. sv_active s = Some a \<longrightarrow>
        registered (sv_task s (ac_connection a)) = Some (ac_id a) \<and> ac_connection a \<notin> sv_closed s)
     \<and> (\<forall>c \<in> sv_closed s. past_replace (sv_task s c))
     \<and> (\<forall>c i a. sv_task s c = Replacing i (Some a) \<longrightarrow>
          past_replace (sv_task s (ac_connection a))
          \<and> (\<forall>b. sv_active s = Some b \<longrightarrow> ac_connection b \<noteq> ac_connection a))"

text \<open>Whoever has taken the slot holds it, has been closed or is about to be closed.\<close>

definition superseded :: "server \<Rightarrow> conn \<Rightarrow> bool" where
  "superseded s c \<longleftrightarrow>
     c \<in> sv_closed s \<or> (\<exists>c' i' a. sv_task s c' = Replacing i' (Some a) \<and> ac_connection a = c)"

definition served_ok :: "server \<Rightarrow> bool" where
  "served_ok s \<longleftrightarrow>
     (\<forall>c i. registered (sv_task s c) = Some i \<longrightarrow>
        sv_active s = Some \<lparr>ac_id = i, ac_connection = c\<rparr> \<or> superseded s c)"

fun needs_auth :: "phase \<Rightarrow> bool" where
  "needs_auth Admitted = True"
| "needs_auth p = (id_of p \<noteq> None)"

definition auth_ok :: "rstr \<Rightarrow> server \<Rightarrow> bool" where
  "auth_ok token s \<longleftrightarrow>
     (\<forall>c. needs_auth (sv_task s c) \<longrightarrow>
        (\<exists>io. sv_auth s c = Some io \<and> snd (server_authenticate io token) = Inr Vpn))"

lemma goto_simps [simp]:
  "sv_task (goto c p s) = (sv_task s)(c := p)" "sv_active (goto c p s) = sv_active s"
  "sv_closed (goto c p s) = sv_closed s" "sv_issued (goto c p s) = sv_issued s"
  "sv_next_client_id (goto c p s) = sv_next_client_id s" "sv_auth (goto c p s) = sv_auth s"
  by (simp_all add: goto_def)

lemma clear_active_simps [simp]:
  "sv_task (clear_active i s) = sv_task s" "sv_closed (clear_active i s) = sv_closed s"
  "sv_issued (clear_active i s) = sv_issued s" "sv_next_client_id (clear_active i s) = sv_next_client_id s"
  "sv_auth (clear_active i s) = sv_auth s"
  by (simp_all add: clear_active_def split: option.split)

lemma close_previous_simps [simp]:
  "sv_task (close_previous p s) = sv_task s" "sv_active (close_previous p s) = sv_active s"
  "sv_issued (close_previous p s) = sv_issued s" "sv_next_client_id (close_previous p s) = sv_next_client_id s"
  "sv_auth (close_previous p s) = sv_auth s"
  by (simp_all add: close_previous_def split: option.split)

lemma sv_closed_close_previous:
  "c \<in> sv_closed (close_previous p s) \<longleftrightarrow> c \<in> sv_closed s \<or> (\<exists>a. p = Some a \<and> ac_connection a = c)"
  by (auto simp: close_previous_def split: option.split)

lemma replace_active_simps [simp]:
  "replace_active i c s = (previous, s') \<longleftrightarrow>
     previous = sv_active s \<and> s' = s\<lparr>sv_active := Some \<lparr>ac_id = i, ac_connection = c\<rparr>\<rparr>"
  by (auto simp: replace_active_def)

lemma admit_cases:
  "admit v m tok auth mx = Returned None
   \<or> (\<exists>d ds pb tm. admit v m tok auth mx = Benching d ds pb tm)
   \<or> admit v m tok auth mx = Admitted \<and> (\<exists>io. auth = Some io \<and> snd (server_authenticate io tok) = Inr Vpn)"
  by (simp add: admit_def split: option.split sum.split AuthMode.split)

lemma admit_phase [simp]:
  "id_of (admit v m tok auth mx) = None" "registered (admit v m tok auth mx) = None"
  "admit v m tok auth mx \<noteq> Replacing i a"
  using admit_cases [of v m tok auth mx] by auto

lemma step_auth_ok:
  assumes "server_step v m tok s t" and "auth_ok tok s"
  shows "auth_ok tok t"
  using assms
proof (cases rule: server_step.cases)
  case (step_auth c auth mx)
  then show ?thesis
    using assms(2) admit_cases [of v m tok auth mx] by (auto simp: auth_ok_def)
qed (auto simp: auth_ok_def split: if_splits)

lemma sv_issued_mono: "server_step v m tok s t \<Longrightarrow> sv_issued s \<le> sv_issued t"
  by (auto elim!: server_stepE)

lemma ids_ok_fewer:
  assumes "ids_ok s" and "sv_next_client_id t = sv_next_client_id s" and "sv_issued t = sv_issued s"
    and "\<And>c i. id_of (sv_task t c) = Some i \<Longrightarrow> id_of (sv_task s c) = Some i"
  shows "ids_ok t"
  using assms unfolding ids_ok_def by metis

lemma step_ids_ok:
  assumes "server_step v m tok s t" and "ids_ok s" and "sv_issued t < 2 ^ 64"
  shows "ids_ok t"
  using assms(1)
proof (cases rule: server_step.cases)
  case (step_fetch_add c)
  let ?n = "Suc (sv_issued s)"
  have n: "?n < 2 ^ 64" using assms(3) step_fetch_add by simp
  have next_id: "sv_next_client_id s = of_nat ?n" using assms(2) by (simp add: ids_ok_def)
  have u: "unat (sv_next_client_id s) = ?n"
    unfolding next_id using n by (simp add: unat_of_nat take_bit_nat_eq_self del: of_nat_Suc)
  have le: "unat i \<le> sv_issued s" if "id_of (sv_task s c') = Some i" for c' i
    using assms(2) that by (auto simp: ids_ok_def)
  have new: "id_of (sv_task s c') \<noteq> Some (sv_next_client_id s)" for c' using le [of c'] u by fastforce
  have "sv_next_client_id t = of_nat (Suc (sv_issued t))" using step_fetch_add next_id by simp
  moreover have "unat i \<le> sv_issued t" if "id_of (sv_task t c') = Some i" for c' i
    using that step_fetch_add le [of c' i] u by (auto split: if_splits)
  moreover have "c1 = c2" if "id_of (sv_task t c1) = Some i" "id_of (sv_task t c2) = Some i" for c1 c2 i
    using that step_fetch_add new assms(2) by (auto simp: ids_ok_def split: if_splits)
  ultimately show ?thesis by (simp add: ids_ok_def)
qed (rule ids_ok_fewer [OF assms(2)]; auto split: if_splits)+

lemma step_past_replace: "server_step v m tok s t \<Longrightarrow> past_replace (sv_task s d) \<Longrightarrow> past_replace (sv_task t d)"
  by (auto elim!: server_stepE)

lemma slot_okI:
  assumes "\<And>a. sv_active s = Some a \<Longrightarrow> registered (sv_task s (ac_connection a)) = Some (ac_id a)"
    and "\<And>a. sv_active s = Some a \<Longrightarrow> ac_connection a \<notin> sv_closed s"
    and "\<And>c. c \<in> sv_closed s \<Longrightarrow> past_replace (sv_task s c)"
    and "\<And>c i a. sv_task s c = Replacing i (Some a) \<Longrightarrow> past_replace (sv_task s (ac_connection a))"
    and "\<And>c i a b. sv_task s c = Replacing i (Some a) \<Longrightarrow> sv_active s = Some b \<Longrightarrow> ac_connection b \<noteq> ac_connection a"
  shows "slot_ok s"
  using assms unfolding slot_ok_def by blast

lemma slot_ok_frame:
  assumes "slot_ok s" and "sv_active t = sv_active s" and "sv_closed t = sv_closed s"
    and "\<And>d i. registered (sv_task s d) = Some i \<Longrightarrow> registered (sv_task t d) = Some i"
    and "\<And>d. past_replace (sv_task s d) \<Longrightarrow> past_replace (sv_task t d)"
    and "\<And>d i a. sv_task t d = Replacing i (Some a) \<Longrightarrow> sv_task s d = Replacing i (Some a)"
  shows "slot_ok t"
  using assms unfolding slot_ok_def by metis

text \<open>The connection in the slot is not the one whose slot is being taken away or cleared.\<close>

lemma step_slot_ok:
  assumes "server_step v m tok s t" and "slot_ok s"
  shows "slot_ok t"
proof -
  note past = step_past_replace [OF assms(1)]
  have act: "registered (sv_task s (ac_connection a)) = Some (ac_id a)" "ac_connection a \<notin> sv_closed s"
    if "sv_active s = Some a" for a
    using assms(2) that by (simp_all add: slot_ok_def)
  have clo: "past_replace (sv_task s d)" if "d \<in> sv_closed s" for d
    using assms(2) that by (simp add: slot_ok_def)
  have rep: "past_replace (sv_task s (ac_connection a))" "sv_active s = Some b \<Longrightarrow> ac_connection b \<noteq> ac_connection a"
    if "sv_task s d = Replacing i (Some a)" for d i a b
    using assms(2) that unfolding slot_ok_def by blast+
  have reg: "past_replace p" if "registered p = Some i" for p i using that by (cases p) auto
  from assms(1) show ?thesis
  proof (cases rule: server_step.cases)
    case (step_replace c i previous s')
    then have c: "\<not> past_replace (sv_task s c)" by simp
    have "ac_connection a \<noteq> c" if "sv_active s = Some a" for a using act(1) [OF that] reg c by metis
    moreover have "past_replace (sv_task s (ac_connection a))" if "sv_active s = Some a" for a
      using act(1) [OF that] reg by blast
    moreover have "c \<notin> sv_closed s" using clo c by blast
    moreover have "ac_connection a \<noteq> c" if "sv_task s d = Replacing j (Some a)" for d j a
      using rep(1) [OF that] c by metis
    ultimately show ?thesis
      using step_replace clo rep(1) past by (intro slot_okI; auto split: if_splits; blast)
  next
    case (step_close_previous c i previous)
    have "ac_connection b \<noteq> ac_connection a" if "previous = Some a" "sv_active s = Some b" for a b
      using rep(2) step_close_previous(2) that by blast
    moreover have "past_replace (sv_task s (ac_connection a))" if "previous = Some a" for a
      using rep(1) step_close_previous(2) that by blast
    ultimately show ?thesis
      using step_close_previous act clo rep past
      by (intro slot_okI; auto simp: sv_closed_close_previous split: if_splits; metis)
  next
    case (step_clear c client_id)
    have "sv_active s = Some a \<and> ac_connection a \<noteq> c" if "sv_active t = Some a" for a
      using that act step_clear by (auto simp: clear_active_def split: option.splits if_splits)
    then show ?thesis
      using step_clear act clo rep past unfolding slot_ok_def by (auto split: if_splits)
  qed (rule slot_ok_frame [OF assms(2)]; use past in \<open>auto split: if_splits\<close>)+
qed

lemma registered_id_of: "registered p = Some i \<Longrightarrow> id_of p = Some i"
  by (cases p) auto

text \<open>A superseded connection stays so while no other task moves on from closing it.\<close>

lemma superseded_goto:
  assumes "superseded s d" and "\<And>i a. sv_task s c = Replacing i (Some a) \<Longrightarrow> ac_connection a \<noteq> d \<or> d \<in> sv_closed t"
    and "sv_closed s \<subseteq> sv_closed t" and "\<And>c'. c' \<noteq> c \<Longrightarrow> sv_task t c' = sv_task s c'"
  shows "superseded t d"
  using assms unfolding superseded_def by (metis subsetD)

lemma step_served_ok:
  assumes "server_step v m tok s t" and "ids_ok s" and "served_ok s"
  shows "served_ok t"
  unfolding served_ok_def
proof (intro allI impI)
  fix d i
  assume reg: "registered (sv_task t d) = Some i"
  have held: "sv_active s = Some \<lparr>ac_id = i, ac_connection = d\<rparr> \<or> superseded s d"
    if "registered (sv_task s d) = Some i"
    using assms(3) that by (simp add: served_ok_def)
  have held_frame: "sv_active t = Some \<lparr>ac_id = i, ac_connection = d\<rparr> \<or> superseded t d"
    if "registered (sv_task s d) = Some i" "sv_active t = sv_active s" "sv_closed t = sv_closed s"
      "\<And>c j a. sv_task s c = Replacing j (Some a) \<Longrightarrow> sv_task t c = Replacing j (Some a)"
    using held that unfolding superseded_def by metis
  from assms(1) show "sv_active t = Some \<lparr>ac_id = i, ac_connection = d\<rparr> \<or> superseded t d"
  proof (cases rule: server_step.cases)
    case (step_replace c j previous s')
    show ?thesis
    proof (cases "d = c")
      case False
      then have "superseded t d" if "superseded s d"
        using that step_replace by (intro superseded_goto [of s d c t]) auto
      moreover have "superseded t d" if "sv_active s = Some \<lparr>ac_id = i, ac_connection = d\<rparr>"
        using that step_replace by (auto simp: superseded_def intro!: exI [of _ c])
      ultimately show ?thesis using False held reg step_replace by auto
    qed (use reg step_replace in auto)
  next
    case (step_close_previous c j previous)
    then have "registered (sv_task s d) = Some i" using reg by (auto split: if_splits)
    moreover have "superseded t d" if "superseded s d"
      using that step_close_previous
      by (intro superseded_goto [of s d c t]) (auto simp: sv_closed_close_previous)
    ultimately show ?thesis using held step_close_previous by auto
  next
    case (step_clear c client_id)
    then have d: "d \<noteq> c" "registered (sv_task s d) = Some i" using reg by (auto split: if_splits)
    then have "client_id \<noteq> Some i"
      using assms(2) step_clear(2) registered_id_of [OF d(2)] by (auto simp: ids_ok_def)
    then have "sv_active t = sv_active s" if "sv_active s = Some \<lparr>ac_id = i, ac_connection = d\<rparr>"
      using step_clear that by (auto simp: clear_active_def split: option.splits)
    moreover have "superseded t d" if "superseded s d"
      using that step_clear by (intro superseded_goto [of s d c t]) auto
    ultimately show ?thesis using held d by auto
  qed (rule held_frame; use reg in \<open>auto split: if_splits\<close>)+
qed

definition server_init :: "server \<Rightarrow> bool" where
  "server_init s \<longleftrightarrow> s = server_start"

definition server_inv :: "rstr \<Rightarrow> server \<Rightarrow> bool" where
  "server_inv token s \<longleftrightarrow>
     auth_ok token s \<and> (sv_issued s < 2 ^ 64 \<longrightarrow> ids_ok s \<and> slot_ok s \<and> served_ok s)"

interpretation server: inv_system server_init "server_step v m tok" "server_inv tok" for v m tok
proof unfold_locales
  show "server_inv tok s" if "server_init s" for s
    using that
    by (auto simp: server_init_def server_start_def server_inv_def auth_ok_def ids_ok_def slot_ok_def served_ok_def)
  show "server_inv tok t" if "server_inv tok s" "server_step v m tok s t" for s t
    using that sv_issued_mono [OF that(2)] step_auth_ok step_ids_ok step_slot_ok step_served_ok
    unfolding server_inv_def by (meson le_less_trans)
qed

section \<open>What the slot promises\<close>

text \<open>
  The specification of the slot: one connection holds it or none; a connection that takes it evicts the
  one before, and no evicted connection gets it again.
\<close>

record slot =
  sl_holder :: "conn option"
  sl_evicted :: "conn set"

definition slot_init :: "slot \<Rightarrow> bool" where
  "slot_init a \<longleftrightarrow> a = \<lparr>sl_holder = None, sl_evicted = {}\<rparr>"

inductive slot_step :: "slot \<Rightarrow> slot \<Rightarrow> bool" where
  slot_take: "c \<notin> sl_evicted a \<Longrightarrow> sl_holder a \<noteq> Some c
    \<Longrightarrow> slot_step a \<lparr>sl_holder = Some c, sl_evicted = sl_evicted a \<union> set_option (sl_holder a)\<rparr>"
| slot_leave: "sl_holder a = Some c \<Longrightarrow> slot_step a (a\<lparr>sl_holder := None\<rparr>)"

inductive_cases slot_stepE: "slot_step a b"

definition slot_abs :: "server \<Rightarrow> slot" where
  "slot_abs s = \<lparr>sl_holder = map_option ac_connection (sv_active s), sl_evicted = {c. superseded s c}\<rparr>"

text \<open>Steps before the identifiers wrap.\<close>

definition fresh_step :: "VpnTransportMode \<Rightarrow> nat \<Rightarrow> rstr \<Rightarrow> server \<Rightarrow> server \<Rightarrow> bool" where
  "fresh_step v m tok s t \<longleftrightarrow> server_step v m tok s t \<and> sv_issued t < 2 ^ 64"

definition fresh_inv :: "rstr \<Rightarrow> server \<Rightarrow> bool" where
  "fresh_inv tok s \<longleftrightarrow> server_inv tok s \<and> sv_issued s < 2 ^ 64"

lemma reach_fresh:
  "reach server_init (server_step v m tok) s \<Longrightarrow> sv_issued s < 2 ^ 64 \<Longrightarrow> reach server_init (fresh_step v m tok) s"
proof (induction rule: reach.induct)
  case (reach_init s)
  then show ?case by (intro reach.reach_init)
next
  case (reach_step s t)
  then have "sv_issued s < 2 ^ 64" using sv_issued_mono [OF reach_step.hyps(2)] by simp
  with reach_step show ?case by (auto simp: fresh_step_def intro: reach.reach_step)
qed

lemma superseded_not_past: "slot_ok s \<Longrightarrow> superseded s c \<Longrightarrow> past_replace (sv_task s c)"
  unfolding slot_ok_def superseded_def by blast

text \<open>What a step does to the closed and about to be closed connections.\<close>

lemma superseded_step:
  assumes "sv_task t = (sv_task s)(c := p)" and "\<And>i a. sv_task s c \<noteq> Replacing i (Some a)" and "sv_closed t = sv_closed s"
  shows "superseded t d \<longleftrightarrow> superseded s d \<or> (\<exists>i a. p = Replacing i (Some a) \<and> ac_connection a = d)"
  using assms unfolding superseded_def by (metis fun_upd_apply)

lemma slot_abs_step:
  assumes "server_step v m tok s t" and "slot_ok s"
  shows "slot_abs t = slot_abs s \<or> slot_step (slot_abs s) (slot_abs t)"
  using assms(1)
proof (cases rule: server_step.cases)
  case (step_replace c i previous s')
  have "\<not> past_replace (sv_task s c)" using step_replace by simp
  then have "\<not> superseded s c" using superseded_not_past [OF assms(2)] by blast
  moreover have "map_option ac_connection (sv_active s) \<noteq> Some c"
    using assms(2) step_replace by (auto simp: slot_ok_def)
  moreover have "superseded t d \<longleftrightarrow> superseded s d \<or> map_option ac_connection (sv_active s) = Some d" for d
    using superseded_step [of t s c "Replacing i previous" d] step_replace by auto
  then have "{d. superseded t d} = {d. superseded s d} \<union> set_option (map_option ac_connection (sv_active s))" by auto
  ultimately have "slot_step (slot_abs s) (slot_abs t)"
    using slot_take [of c "slot_abs s"] step_replace by (simp add: slot_abs_def)
  then show ?thesis ..
next
  case (step_close_previous c i previous)
  have "superseded t d \<Longrightarrow> superseded s d" for d
    using step_close_previous unfolding superseded_def by (auto simp: sv_closed_close_previous split: if_splits)
  moreover have "superseded s d \<Longrightarrow> superseded t d" for d
    using step_close_previous by (intro superseded_goto [of s d c t]) (auto simp: sv_closed_close_previous)
  ultimately show ?thesis using step_close_previous by (auto simp: slot_abs_def)
next
  case (step_clear c client_id)
  then have "superseded t d \<longleftrightarrow> superseded s d" for d using superseded_step [of t s c Gone d] by simp
  moreover have "sv_active t = sv_active s \<or> sv_active t = None"
    using step_clear by (auto simp: clear_active_def split: option.splits)
  ultimately show ?thesis
    using slot_leave [of "slot_abs s"] by (cases "sv_active s") (auto simp: slot_abs_def)
next
  case (step_accept c p)
  then show ?thesis using superseded_step [of t s c p] by (auto simp: slot_abs_def)
next
  case (step_auth c auth mx)
  then show ?thesis using superseded_step [of t s c "admit v m tok auth mx"] by (auto simp: slot_abs_def)
next
  case (step_bench c d ds pb tm)
  then show ?thesis using superseded_step [of t s c "Returned None"] by (auto simp: slot_abs_def)
next
  case (step_fetch_add c)
  then show ?thesis using superseded_step [of t s c "HasId (sv_next_client_id s)"] by (auto simp: slot_abs_def)
next
  case (step_return c i)
  then show ?thesis using superseded_step [of t s c "Returned (Some i)"] by (auto simp: slot_abs_def)
qed

interpretation server_slot: refinement server_init "fresh_step v m tok" "fresh_inv tok" slot_abs slot_init slot_step for v m tok
proof unfold_locales
  show "fresh_inv tok s" if "server_init s" for s
    using server.inv_init [OF that] that by (simp add: fresh_inv_def server_init_def server_start_def)
  show "fresh_inv tok t" if "fresh_inv tok s" "fresh_step v m tok s t" for s t
    using that server.inv_step by (auto simp: fresh_inv_def fresh_step_def)
  show "slot_init (slot_abs s)" if "server_init s" for s
    using that by (simp add: server_init_def slot_init_def slot_abs_def server_start_def superseded_def)
  show "slot_abs t = slot_abs s \<or> slot_step (slot_abs s) (slot_abs t)" if "fresh_inv tok s" "fresh_step v m tok s t" for s t
    using that by (intro slot_abs_step [of v m tok]) (auto simp: fresh_inv_def fresh_step_def server_inv_def)
qed

text \<open>In the specification the holder is not an evicted connection; so it is in the server.\<close>

definition slot_inv :: "slot \<Rightarrow> bool" where
  "slot_inv a \<longleftrightarrow> (\<forall>c. sl_holder a = Some c \<longrightarrow> c \<notin> sl_evicted a)"

interpretation slots: inv_system slot_init slot_step slot_inv
  by unfold_locales (auto simp: slot_init_def slot_inv_def elim!: slot_stepE)

lemma holder_not_evicted:
  assumes "reach server_init (server_step v m tok) s" and "sv_issued s < 2 ^ 64" and "sv_active s = Some a"
  shows "\<not> superseded s (ac_connection a)"
  using server_slot.lift_inv [where P = slot_inv, OF slots.reach_inv reach_fresh [OF assms(1,2)]] assms(3)
  by (simp add: slot_inv_def slot_abs_def)

section \<open>A run with two clients\<close>

text \<open>Two clients with the token; both get an identifier before either takes the slot.\<close>

definition sample_token :: rstr where
  "sample_token = lit ''abcdef''"

definition sample_auth :: server_auth_io where
  "sample_auth = \<lparr>sa_accept_bi = Inr (), sa_request = Inr (auth_request sample_token Vpn),
     sa_write_all = Inr (), sa_finish = Inr ()\<rparr>"

lemma sample_auth_ok: "snd (server_authenticate sample_auth sample_token) = Inr Vpn"
proof -
  have "parse_request (auth_request sample_token Vpn) = Inr (sample_token, Vpn)"
    unfolding sample_token_def by (rule auth_request_parsed) (simp_all add: wire_token_def is_scalar_def)
  then show ?thesis by (simp add: server_authenticate_Inr_iff sample_auth_def)
qed

lemma sample_admit: "admit v m sample_token (Some sample_auth) None = Admitted"
  by (simp add: admit_def sample_auth_ok ensure_datagram_capacity_def is_ok_def)

definition sample_after :: "(conn \<Rightarrow> phase) \<Rightarrow> server \<Rightarrow> server" where
  "sample_after task s = s\<lparr>sv_task := task, sv_auth := (\<lambda>_. None)(0 := Some sample_auth, 1 := Some sample_auth)\<rparr>"

lemma sample_ids:
  "reach server_init (server_step v m sample_token)
     (sample_after ((\<lambda>_. Fresh)(0 := HasId 1, 1 := HasId 2)) (server_start\<lparr>sv_next_client_id := 3, sv_issued := 2\<rparr>))"
proof -
  let ?R = "reach server_init (server_step v m sample_token)"
  let ?s = "\<lambda>f. server_start\<lparr>sv_task := f\<rparr>"
  have r0: "?R server_start" by (rule reach_init) (simp add: server_init_def)
  have r1: "?R (?s ((\<lambda>_. Fresh)(0 := Connected)))"
    using reach_step [OF r0 step_accept, of 0 Connected] by (simp add: goto_def server_start_def)
  have r2: "?R (?s ((\<lambda>_. Fresh)(0 := Connected, 1 := Connected)))"
    using reach_step [OF r1 step_accept, of 1 Connected] by (simp add: goto_def server_start_def)
  have r3: "?R ((?s ((\<lambda>_. Fresh)(0 := Admitted, 1 := Connected)))\<lparr>sv_auth := (\<lambda>_. None)(0 := Some sample_auth)\<rparr>)"
    using reach_step [OF r2 step_auth, of 0 "Some sample_auth" None]
    by (simp add: goto_def server_start_def sample_admit fun_upd_twist)
  have r4: "?R (sample_after ((\<lambda>_. Fresh)(0 := Admitted, 1 := Admitted)) server_start)"
    using reach_step [OF r3 step_auth, of 1 "Some sample_auth" None]
    by (simp add: goto_def server_start_def sample_admit sample_after_def)
  have r5: "?R (sample_after ((\<lambda>_. Fresh)(0 := HasId 1, 1 := Admitted)) (server_start\<lparr>sv_next_client_id := 2, sv_issued := 1\<rparr>))"
    using reach_step [OF r4 step_fetch_add, of 0]
    by (simp add: goto_def server_start_def sample_after_def fun_upd_twist)
  show ?thesis
    using reach_step [OF r5 step_fetch_add, of 1]
    by (simp add: goto_def server_start_def sample_after_def numeral_2_eq_2)
qed

text \<open>The second client takes the slot first.\<close>

lemma sample_second:
  "reach server_init (server_step v m sample_token)
     (sample_after ((\<lambda>_. Fresh)(0 := HasId 1, 1 := Serving 2))
        (server_start\<lparr>sv_next_client_id := 3, sv_issued := 2, sv_active := Some \<lparr>ac_id = 2, ac_connection = 1\<rparr>\<rparr>))"
proof -
  let ?R = "reach server_init (server_step v m sample_token)"
  have "?R (sample_after ((\<lambda>_. Fresh)(0 := HasId 1, 1 := Replacing 2 None))
      (server_start\<lparr>sv_next_client_id := 3, sv_issued := 2, sv_active := Some \<lparr>ac_id = 2, ac_connection = 1\<rparr>\<rparr>))"
    using reach_step [OF sample_ids step_replace, of 1 2 None]
    by (simp add: goto_def server_start_def sample_after_def)
  from reach_step [OF this step_close_previous, of 1 2 None] show ?thesis
    by (simp add: goto_def server_start_def sample_after_def close_previous_def)
qed

lemma sample_first_last:
  "reach server_init (server_step v m sample_token)
     (sample_after ((\<lambda>_. Fresh)(0 := Serving 1, 1 := Serving 2))
        (server_start\<lparr>sv_next_client_id := 3, sv_issued := 2, sv_active := Some \<lparr>ac_id = 1, ac_connection = 0\<rparr>, sv_closed := {1}\<rparr>))"
proof -
  let ?R = "reach server_init (server_step v m sample_token)" and ?a = "Some \<lparr>ac_id = 2, ac_connection = 1\<rparr>"
  have "?R (sample_after ((\<lambda>_. Fresh)(0 := Replacing 1 ?a, 1 := Serving 2))
      (server_start\<lparr>sv_next_client_id := 3, sv_issued := 2, sv_active := Some \<lparr>ac_id = 1, ac_connection = 0\<rparr>\<rparr>))"
    using reach_step [OF sample_second step_replace, of 0 1 ?a]
    by (simp add: goto_def server_start_def sample_after_def fun_upd_twist)
  from reach_step [OF this step_close_previous, of 0 1 ?a] show ?thesis
    by (simp add: goto_def server_start_def sample_after_def close_previous_def fun_upd_twist)
qed

lemma sample_two_served:
  "\<exists>s. reach server_init (server_step v m sample_token) s \<and> sv_issued s < 2 ^ 64
     \<and> sv_active s = Some \<lparr>ac_id = 1, ac_connection = 0\<rparr> \<and> sv_closed s = {1}
     \<and> sv_task s 0 = Serving 1 \<and> sv_task s 1 = Serving 2"
  by (rule exI, rule conjI, rule sample_first_last) (simp add: sample_after_def)

section \<open>Properties\<close>

text \<open>
  C2: Whatever the interleaving, a connection gets a client identifier, and so the tunnel, only after
  its authentication stream carried a request that parses to the server's token and the VPN mode.
\<close>

theorem server_only_authenticated:
  assumes "reach server_init (server_step vpn_transport mtu token) s" and "id_of (sv_task s c) = Some i"
  shows "\<exists>io req. sv_auth s c = Some io \<and> sa_request io = Inr req \<and> parse_request req = Inr (token, Vpn)"
proof -
  have "server_inv token s" using assms(1) by (rule server.reach_inv)
  moreover have "needs_auth (sv_task s c)" using assms(2) by (cases "sv_task s c") auto
  ultimately show ?thesis
    by (force simp: server_inv_def auth_ok_def server_authenticate_Inr_iff)
qed

theorem server_only_authenticated_witness:
  "\<exists>s io req. reach server_init (server_step Datagram 1300 sample_token) s \<and> sv_task s 0 = Serving 1
     \<and> sv_auth s 0 = Some io \<and> sa_request io = Inr req \<and> parse_request req = Inr (sample_token, Vpn)"
proof -
  obtain s where s: "reach server_init (server_step Datagram 1300 sample_token) s" "sv_task s 0 = Serving 1"
    using sample_two_served by blast
  with server_only_authenticated [OF s(1), of 0 1] show ?thesis by auto
qed

text \<open>
  C6: At most one client is served: of all connections whose task is pumping packets, at most one
  has neither been closed by the server nor is about to be closed by the task that took its slot.
  (Identifiers must not have wrapped: fewer than \<open>2\<^sup>6\<^sup>4\<close> have been issued.)
\<close>

theorem server_single_client:
  assumes "reach server_init (server_step vpn_transport mtu token) s" and "sv_issued s < 2 ^ 64"
    and "sv_task s c = Serving i" and "sv_task s c' = Serving i'"
    and "\<not> superseded s c" and "\<not> superseded s c'"
  shows "c = c' \<and> sv_active s = Some \<lparr>ac_id = i, ac_connection = c\<rparr>"
proof -
  have "served_ok s" using server.reach_inv [OF assms(1)] assms(2) by (simp add: server_inv_def)
  then have served: "registered (sv_task s d) = Some j \<longrightarrow>
      sv_active s = Some \<lparr>ac_id = j, ac_connection = d\<rparr> \<or> superseded s d" for d j
    unfolding served_ok_def by blast
  have "sv_active s = Some \<lparr>ac_id = j, ac_connection = d\<rparr>"
    if "sv_task s d = Serving j" "\<not> superseded s d" for d j
    using that served [of d j] by simp
  from this [OF assms(3,5)] this [OF assms(4,6)] show ?thesis by simp
qed

theorem server_single_client_witness:
  "\<exists>s. reach server_init (server_step Stream 1300 sample_token) s \<and> sv_task s 0 = Serving 1
     \<and> \<not> superseded s 0 \<and> sv_active s = Some \<lparr>ac_id = 1, ac_connection = 0\<rparr>"
proof -
  let ?s = "sample_after ((\<lambda>_. Fresh)(0 := Serving 1, 1 := Serving 2))
    (server_start\<lparr>sv_next_client_id := 3, sv_issued := 2, sv_active := Some \<lparr>ac_id = 1, ac_connection = 0\<rparr>, sv_closed := {1}\<rparr>)"
  have "sv_task ?s 0 = Serving 1" "\<not> superseded ?s 0" "sv_issued ?s < 2 ^ 64"
    by (auto simp: superseded_def sample_after_def split: if_splits)
  with server_single_client [OF sample_first_last this(3,1,1,2,2)] sample_first_last show ?thesis by blast
qed

text \<open>
  The slot never dangles and is never stale: the connection in it belongs to a task that has not
  finished its clean-up, under that task's identifier, and the server has not closed it nor is about
  to.
\<close>

lemma server_slot_live:
  assumes "reach server_init (server_step vpn_transport mtu token) s" and "sv_issued s < 2 ^ 64"
    and "sv_active s = Some a"
  shows "registered (sv_task s (ac_connection a)) = Some (ac_id a) \<and> \<not> superseded s (ac_connection a)"
  using server.reach_inv [OF assms(1)] holder_not_evicted [OF assms] assms(2,3) by (simp add: server_inv_def slot_ok_def)

text \<open>
  C13: Cleaning up after a connection empties the slot when it is the connection's own, and leaves any
  other client in it.
\<close>

theorem server_cleanup_own_slot:
  assumes "reach server_init (server_step vpn_transport mtu token) s" and "sv_issued s < 2 ^ 64"
    and "sv_task s c = Returned client_id" and "sv_active s = Some a"
  shows "sv_active (clear_active client_id s) = (if ac_connection a = c then None else Some a)"
proof -
  have inv: "ids_ok s" "slot_ok s" using server.reach_inv [OF assms(1)] assms(2) by (simp_all add: server_inv_def)
  then have reg: "registered (sv_task s (ac_connection a)) = Some (ac_id a)" using assms(4) by (simp add: slot_ok_def)
  show ?thesis
  proof (cases "ac_connection a = c")
    case True
    with reg assms(3,4) show ?thesis by (simp add: clear_active_def)
  next
    case False
    then have "client_id \<noteq> Some (ac_id a)"
      using inv(1) assms(3) registered_id_of [OF reg] by (auto simp: ids_ok_def)
    with False assms(4) show ?thesis by (auto simp: clear_active_def split: option.split)
  qed
qed

theorem server_cleanup_own_slot_witness:
  "\<exists>s. reach server_init (server_step Stream 1300 sample_token) s \<and> sv_task s 1 = Returned (Some 2)
     \<and> sv_active (clear_active (Some 2) s) = Some \<lparr>ac_id = 1, ac_connection = 0\<rparr>"
proof -
  obtain s where s: "reach server_init (server_step Stream 1300 sample_token) s" "sv_issued s < 2 ^ 64"
    "sv_active s = Some \<lparr>ac_id = 1, ac_connection = 0\<rparr>" "sv_task s 1 = Serving 2"
    using sample_two_served by blast
  have r: "reach server_init (server_step Stream 1300 sample_token) (goto 1 (Returned (Some 2)) s)"
    using reach_step [OF s(1) step_return [OF s(4)]] .
  from server_cleanup_own_slot [OF r, of 1 "Some 2"] s r show ?thesis
    by (intro exI [of _ "goto 1 (Returned (Some 2)) s"]) simp
qed



text \<open>
  C40: The newest client does not always win. Taking an identifier and taking the slot are two steps,
  and a client that got its identifier first can take the slot last: it then closes the connection of
  the client that came after it.
\<close>

theorem server_older_can_replace_newer:
  "\<exists>s (newer :: ActiveClient) older. reach server_init (server_step vpn_transport mtu sample_token) s
     \<and> sv_active s = Some older \<and> sv_task s (ac_connection newer) = Serving (ac_id newer)
     \<and> ac_id older < ac_id newer \<and> ac_connection newer \<in> sv_closed s"
proof -
  obtain s where "reach server_init (server_step vpn_transport mtu sample_token) s"
    "sv_active s = Some \<lparr>ac_id = 1, ac_connection = 0\<rparr>" "sv_closed s = {1}" "sv_task s 1 = Serving 2"
    using sample_two_served by blast
  moreover from this have "sv_task s (ac_connection \<lparr>ac_id = 2, ac_connection = 1\<rparr>) = Serving (ac_id \<lparr>ac_id = 2, ac_connection = 1\<rparr>)"
    "ac_id \<lparr>ac_id = 1, ac_connection = 0\<rparr> < ac_id \<lparr>ac_id = 2, ac_connection = 1\<rparr>"
    "ac_connection \<lparr>ac_id = 2, ac_connection = 1\<rparr> \<in> sv_closed s"
    by (simp_all add: word_less_nat_alt)
  ultimately show ?thesis by blast
qed

end
