(* ===== verification/Transport.thy ===== *)
theory Transport
  imports Actions Pump Config
begin

text \<open>
  The packet transports that both programs run once a client is let in: the \<^verbatim>\<open>match\<close> on \<^verbatim>\<open>vpn_transport\<close> at
  the end of \<^verbatim>\<open>handle_connection\<close> in \<^verbatim>\<open>crates/litevpn-server/src/main.rs\<close> and of \<^verbatim>\<open>main\<close> in
  \<^verbatim>\<open>crates/litevpn-client/src/main.rs\<close>. An uplink and a downlink run side by side under \<^verbatim>\<open>select!\<close>; \<open>pump_arm\<close>
  says which of them completes first, and the result is the result of that pump on what its rounds
  meet. The lemmas: the datagram pumps and the uplink of a stream end only with errors.
\<close>

datatype pump_arm = UpArm | DownArm

text \<open>
  What the pumps meet: the clock and the connection's counter at the start, the rounds of the loops,
  the outcomes of opening and accepting the packet streams (\<open>None\<close>: no stream has come), the stream and
  the TUN device.
\<close>

record ('s, 'd) tunnel_env =
  te_now :: nat
  te_tx_datagrams :: u64
  te_up_datagrams :: "quic_round list"
  te_down_datagrams :: "tun_round list"
  te_open_uni :: "unit result"
  te_accept_uni :: "unit result option"
  te_up_stream :: "stream_round list"
  te_read :: "'s \<Rightarrow> nat \<Rightarrow> read_outcome \<times> 's"
  te_stream :: 's
  te_device_send :: "'d \<Rightarrow> u8 list \<Rightarrow> nat result \<times> 'd"
  te_device :: 'd

definition pump_result :: "pump_status \<Rightarrow> unit result option" where
  "pump_result st = (case st of PReturned r \<Rightarrow> Some r | _ \<Rightarrow> None)"

definition datagram_pumps ::
    "nat \<Rightarrow> u64 \<Rightarrow> u64 \<Rightarrow> bool \<Rightarrow> ('s, 'd) tunnel_env \<Rightarrow> pump_arm \<Rightarrow> unit result option" where
  "datagram_pumps mtu egress_target_mbps datagram_backlog_packets adaptive_egress te arm =
     (case arm of
        UpArm \<Rightarrow>
          pump_result (snd (pump_tun_to_quic mtu egress_target_mbps datagram_backlog_packets adaptive_egress
            (te_now te) (te_tx_datagrams te) (te_up_datagrams te)))
      | DownArm \<Rightarrow> pump_result (snd (pump_quic_to_tun (te_down_datagrams te))))"

definition stream_pumps ::
    "nat \<Rightarrow> u64 \<Rightarrow> bool \<Rightarrow> ('s, 'd) tunnel_env \<Rightarrow> pump_arm \<Rightarrow> unit result option" where
  "stream_pumps mtu egress_target_mbps adaptive_egress te arm =
     (case arm of
        UpArm \<Rightarrow>
          pump_result (snd (pump_tun_to_stream mtu egress_target_mbps adaptive_egress (te_now te) (te_up_stream te)))
      | DownArm \<Rightarrow>
          map_option fst (pump_stream_to_tun (te_read te) (te_device_send te) (mtu + 64) (te_stream te) (te_device te)))"

text \<open>Opening the own packet stream, then accepting the peer's.\<close>

definition open_streams :: "string \<Rightarrow> string \<Rightarrow> ('s, 'd) tunnel_env \<Rightarrow> unit result option" where
  "open_streams open_failed accept_failed te =
     bind_run (Some (context_res open_failed (te_open_uni te))) (\<lambda>_.
     map_option (context_res accept_failed) (te_accept_uni te))"

lemma pump_result_not_Ok: "(\<And>s'. p \<noteq> (s', PReturned (Inr u))) \<Longrightarrow> pump_result (snd p) \<noteq> Some (Inr u)"
  by (cases p) (auto simp: pump_result_def split: pump_status.splits)

lemma datagram_pumps_not_Ok [simp]: "datagram_pumps mtu target backlog adaptive te arm \<noteq> Some (Inr u)"
  by (cases arm)
    (simp_all add: datagram_pumps_def pump_tun_to_quic_def pump_quic_to_tun_def pump_result_not_Ok pumps_not_Ok)

lemma stream_uplink_not_Ok [simp]:
  "pump_result (snd (pump_tun_to_stream mtu target adaptive now rounds)) \<noteq> Some (Inr u)"
  by (simp add: pump_tun_to_stream_def pump_result_not_Ok pumps_not_Ok)

lemma stream_pumps_Ok_iff:
  "stream_pumps mtu target adaptive te arm = Some (Inr u) \<longleftrightarrow>
     arm = DownArm \<and> (\<exists>s d. pump_stream_to_tun (te_read te) (te_device_send te) (mtu + 64) (te_stream te) (te_device te) =
       Some (Inr (), s, d))"
  by (cases arm) (auto simp: stream_pumps_def)

end
