(* ===== verification/Summary.thy ===== *)
theory Summary
  imports Auth F64
begin

text \<open>
  The report a benchmark ends with: \<^verbatim>\<open>connection_stats_summary\<close> of \<^verbatim>\<open>crates/litevpn-core/src/quic.rs\<close>,
  \<^verbatim>\<open>send_bench_summary\<close> of \<^verbatim>\<open>crates/litevpn-server/src/main.rs\<close>, which prints it, and \<^verbatim>\<open>parse_bench_summary\<close>,
  \<^verbatim>\<open>parse_summary_u64\<close> and \<^verbatim>\<open>parse_server_bench_measurement\<close> of \<^verbatim>\<open>crates/litevpn-client/src/main.rs\<close>, which read
  it. The lemmas: the client reads back what the server measured, and every report fits into the
  client's limit of 1024 bytes.
\<close>

definition BENCH_SUMMARY_MAGIC :: rstr where
  "BENCH_SUMMARY_MAGIC = lit ''LVPNBENCH ''"

record conn_stats =
  cs_udp_tx_datagrams :: u64
  cs_udp_tx_bytes :: u64
  cs_udp_rx_datagrams :: u64
  cs_udp_rx_bytes :: u64
  cs_lost_packets :: u64
  cs_lost_bytes :: u64
  cs_congestion_events :: u64
  cs_cwnd :: u64
  cs_rtt_ms :: nat
  cs_current_mtu :: u16
  cs_frame_tx_datagram :: u64
  cs_frame_rx_datagram :: u64

text \<open>A text \<^verbatim>\<open>key=value\<close>.\<close>

definition field :: "rstr \<times> rstr \<Rightarrow> rstr" where
  "field kv = fst kv @ 61 # snd kv"

definition stats_fields :: "conn_stats \<Rightarrow> (rstr \<times> rstr) list" where
  "stats_fields stats =
     [(lit ''udp_tx_datagrams'', dec_u64 (cs_udp_tx_datagrams stats)),
      (lit ''udp_tx_bytes'', dec_u64 (cs_udp_tx_bytes stats)),
      (lit ''udp_rx_datagrams'', dec_u64 (cs_udp_rx_datagrams stats)),
      (lit ''udp_rx_bytes'', dec_u64 (cs_udp_rx_bytes stats)),
      (lit ''lost_packets'', dec_u64 (cs_lost_packets stats)),
      (lit ''lost_bytes'', dec_u64 (cs_lost_bytes stats)),
      (lit ''congestion_events'', dec_u64 (cs_congestion_events stats)),
      (lit ''cwnd'', dec_u64 (cs_cwnd stats)),
      (lit ''rtt_ms'', dec (cs_rtt_ms stats)),
      (lit ''current_mtu'', dec (unat (cs_current_mtu stats))),
      (lit ''frame_tx_datagram'', dec_u64 (cs_frame_tx_datagram stats)),
      (lit ''frame_rx_datagram'', dec_u64 (cs_frame_rx_datagram stats))]"

definition connection_stats_summary :: "conn_stats \<Rightarrow> rstr" where
  "connection_stats_summary stats = join_space (map field (stats_fields stats))"

record bench_report =
  br_direction :: rstr
  br_elapsed_ms :: nat
  br_measured_elapsed_ms :: nat
  br_bytes :: u64
  br_packets :: u64
  br_payload_bytes :: usize
  br_target_mbps :: "u64 option"

definition target_text :: "u64 option \<Rightarrow> rstr" where
  "target_text target_mbps = (case target_mbps of None \<Rightarrow> lit ''unlimited'' | Some value \<Rightarrow> dec_u64 value)"

definition report_fields :: "bench_report \<Rightarrow> (rstr \<times> rstr) list" where
  "report_fields r =
     [(lit ''direction'', br_direction r),
      (lit ''bytes'', dec_u64 (br_bytes r)),
      (lit ''packets'', dec_u64 (br_packets r)),
      (lit ''payload_bytes'', dec_u64 (br_payload_bytes r)),
      (lit ''target_mbps'', target_text (br_target_mbps r)),
      (lit ''elapsed_ms'', dec (br_elapsed_ms r)),
      (lit ''measured_elapsed_ms'', dec (br_measured_elapsed_ms r))]"

definition bench_summary :: "bench_report \<Rightarrow> conn_stats \<Rightarrow> rstr" where
  "bench_summary r stats =
     BENCH_SUMMARY_MAGIC @ join_space (map field (report_fields r)) @ 32 # connection_stats_summary stats @ [10]"

text \<open>\<^verbatim>\<open>send_bench_summary\<close>: the bytes handed to the stream, and the result.\<close>

record summary_io =
  si_open_bi :: "unit result"
  si_write_all :: "unit result"
  si_finish :: "unit result"

definition send_bench_summary ::
    "summary_io \<Rightarrow> bench_report \<Rightarrow> conn_stats \<Rightarrow> u8 list list \<times> unit result" where
  "send_bench_summary io r stats =
     (case context_res ''failed to open bench summary stream'' (si_open_bi io) of
        Inl e \<Rightarrow> ([], Inl e)
      | Inr _ \<Rightarrow>
          ([as_bytes (bench_summary r stats)],
           bind_res (context_res ''failed to write bench summary'' (si_write_all io)) (\<lambda>_.
           context_res ''failed to finish bench summary'' (si_finish io))))"

section \<open>The client's side\<close>

definition parse_bench_summary :: "u8 list \<Rightarrow> rstr option result" where
  "parse_bench_summary packet =
     (case strip_prefix (as_bytes BENCH_SUMMARY_MAGIC) packet of
        None \<Rightarrow> Inr None
      | Some summary \<Rightarrow>
          bind_res (context_opt ''bench summary is not utf-8'' (from_utf8 summary)) (\<lambda>summary.
          Inr (Some (trim summary))))"

text \<open>\<^verbatim>\<open>read_bench_summary_stream\<close>, with the outcomes of \<^verbatim>\<open>accept_bi\<close> and of \<^verbatim>\<open>read_to_end(1024)\<close>.\<close>

definition read_bench_summary_stream :: "unit result \<Rightarrow> u8 list result \<Rightarrow> rstr result" where
  "read_bench_summary_stream accept_bi packet =
     bind_res (context_res ''failed to accept bench summary stream'' accept_bi) (\<lambda>_.
     bind_res (context_res ''failed to read bench summary'' packet) (\<lambda>packet.
     bind_res (parse_bench_summary packet) (\<lambda>summary.
     case summary of
       None \<Rightarrow> Inl (Bail ''invalid bench summary stream'')
     | Some summary \<Rightarrow> Inr summary)))"

fun find_map :: "('a \<Rightarrow> 'b option) \<Rightarrow> 'a list \<Rightarrow> 'b option" where
  "find_map f [] = None"
| "find_map f (x # xs) = (case f x of Some y \<Rightarrow> Some y | None \<Rightarrow> find_map f xs)"

definition parse_summary_u64 :: "rstr \<Rightarrow> rstr \<Rightarrow> u64 option" where
  "parse_summary_u64 summary key =
     (case find_map (strip_prefix (key @ [61])) (split_whitespace summary) of
        None \<Rightarrow> None
      | Some value \<Rightarrow> parse_u64 value)"

record ServerBenchMeasurement =
  sm_mbps :: rat
  sm_bytes :: u64
  sm_packets :: u64
  sm_lost_packets :: u64
  sm_congestion_events :: u64
  sm_elapsed_ms :: u64

text \<open>\<open>f64_mbps\<close>: megabits per second, with at least a millisecond of time.\<close>

definition f64_mbps :: "u64 \<Rightarrow> rat \<Rightarrow> rat" where
  "f64_mbps bytes seconds =
     fdiv (fdiv (fmul (f64_of_nat (unat bytes)) 8) (max seconds (f64_round (1 / 1000)))) 1000000"

definition parse_server_bench_measurement :: "rstr \<Rightarrow> ServerBenchMeasurement option" where
  "parse_server_bench_measurement summary =
     (case parse_summary_u64 summary (lit ''bytes'') of
        None \<Rightarrow> None
      | Some bytes \<Rightarrow>
     (case parse_summary_u64 summary (lit ''packets'') of
        None \<Rightarrow> None
      | Some packets \<Rightarrow>
     (case (case parse_summary_u64 summary (lit ''measured_elapsed_ms'') of
              None \<Rightarrow> parse_summary_u64 summary (lit ''elapsed_ms'')
            | Some ms \<Rightarrow> Some ms) of
        None \<Rightarrow> None
      | Some elapsed_ms \<Rightarrow>
          Some \<lparr>sm_mbps = f64_mbps bytes (fdiv (f64_of_nat (unat elapsed_ms)) 1000),
                sm_bytes = bytes,
                sm_packets = packets,
                sm_lost_packets =
                  (case parse_summary_u64 summary (lit ''lost_packets'') of None \<Rightarrow> 0 | Some n \<Rightarrow> n),
                sm_congestion_events =
                  (case parse_summary_u64 summary (lit ''congestion_events'') of None \<Rightarrow> 0 | Some n \<Rightarrow> n),
                sm_elapsed_ms = elapsed_ms\<rparr>)))"

section \<open>Looking up a field\<close>

lemma strip_prefix_field:
  assumes "61 \<notin> set k" and "61 \<notin> set k'"
  shows "strip_prefix (k @ [61]) (field (k', v)) = (if k' = k then Some v else None)"
  using assms
proof (induction k k' rule: strip_prefix.induct)
  case (1 ys)
  then show ?case by (cases ys) (auto simp: field_def)
qed (auto simp: field_def)

lemma find_map_field:
  assumes "61 \<notin> set k" and "list_all (\<lambda>kv. 61 \<notin> set (fst kv)) kvs"
  shows "find_map (strip_prefix (k @ [61])) (map field kvs) = map_of kvs k"
  using assms(2)
proof (induction kvs)
  case (Cons kv kvs)
  then show ?case using strip_prefix_field [OF assms(1), of "fst kv" "snd kv"] by (cases kv) auto
qed simp

lemma parse_summary_u64_fields:
  assumes "61 \<notin> set k" and "list_all (\<lambda>kv. 61 \<notin> set (fst kv) \<and> is_word (field kv)) kvs"
  shows "parse_summary_u64 (join_space (map field kvs)) k =
     (case map_of kvs k of None \<Rightarrow> None | Some v \<Rightarrow> parse_u64 v)"
proof -
  have "list_all is_word (map field kvs)" "list_all (\<lambda>kv. 61 \<notin> set (fst kv)) kvs"
    using assms(2) by (auto simp: list_all_iff)
  with assms(1) show ?thesis
    by (simp add: parse_summary_u64_def split_whitespace_join_space find_map_field)
qed

section \<open>Joined words\<close>

lemma join_space_append:
  "xs \<noteq> [] \<Longrightarrow> ys \<noteq> [] \<Longrightarrow> join_space xs @ 32 # join_space ys = join_space (xs @ ys)"
proof (induction xs rule: join_space.induct)
  case (2 w)
  then show ?case by (cases ys) simp_all
qed simp_all

lemma join_space_ends:
  assumes "list_all is_word ws" and "ws \<noteq> []"
  shows "join_space ws \<noteq> [] \<and> \<not> is_whitespace (hd (join_space ws)) \<and> \<not> is_whitespace (last (join_space ws))"
  using assms
proof (induction ws rule: join_space.induct)
  case (2 w)
  then show ?case by (cases w) (auto simp: is_word_def list_all_iff)
next
  case (3 w v ws)
  then show ?case by (cases w) (auto simp: is_word_def list_all_iff)
qed simp

lemma trim_join_space: "list_all is_word ws \<Longrightarrow> ws \<noteq> [] \<Longrightarrow> trim (join_space ws) = join_space ws"
  using join_space_ends by (intro trim_id) auto

lemma join_space_ascii: "list_all (list_all is_ascii) ws \<Longrightarrow> list_all is_ascii (join_space ws)"
  by (induction ws rule: join_space.induct) (auto simp: is_ascii_def)

lemma length_join_space: "length (join_space ws) = sum_list (map length ws) + (length ws - 1)"
  by (induction ws rule: join_space.induct) simp_all

section \<open>The fields of a report\<close>

definition all_fields :: "bench_report \<Rightarrow> conn_stats \<Rightarrow> (rstr \<times> rstr) list" where
  "all_fields r stats = report_fields r @ stats_fields stats"

definition plain :: "rstr \<Rightarrow> bool" where
  "plain s \<longleftrightarrow> list_all (\<lambda>c. \<not> is_whitespace c \<and> is_ascii c) s"

text \<open>What the callers pass: one of the six direction names and times that are durations.\<close>

definition report_ok :: "bench_report \<Rightarrow> conn_stats \<Rightarrow> bool" where
  "report_ok r stats \<longleftrightarrow>
     br_direction r \<in> {lit ''upload'', lit ''download'', lit ''stream-upload'', lit ''stream-download'',
       lit ''stream-packet-upload'', lit ''stream-packet-download''}
     \<and> br_elapsed_ms r < 10 ^ 23 \<and> br_measured_elapsed_ms r < 10 ^ 23 \<and> cs_rtt_ms stats < 10 ^ 23"

lemma plain_dec: "plain (dec n)" "plain (dec_u64 w)"
  using dec_digits by (auto simp: plain_def list_all_iff digit_props dec_u64_def)

lemma plain_target: "plain (target_text t)"
  by (cases t) (simp_all add: target_text_def plain_dec, simp add: plain_def is_whitespace_def is_ascii_def)

lemma field_plain:
  "plain (fst kv) \<Longrightarrow> plain (snd kv) \<Longrightarrow> is_word (field kv) \<and> list_all is_ascii (field kv)"
  by (auto simp: plain_def is_word_def field_def list_all_iff is_whitespace_def is_ascii_def)

lemma all_fields_plain:
  assumes "report_ok r stats"
  shows "list_all (\<lambda>kv. 61 \<notin> set (fst kv) \<and> plain (fst kv) \<and> plain (snd kv)) (all_fields r stats)"
proof -
  have "plain (br_direction r)"
    using assms by (auto simp: report_ok_def plain_def is_whitespace_def is_ascii_def)
  moreover have "list_all (\<lambda>kv. 61 \<notin> set (fst kv) \<and> plain (fst kv)) (all_fields r stats)"
    by (simp add: all_fields_def report_fields_def stats_fields_def plain_def is_whitespace_def is_ascii_def)
  ultimately show ?thesis
    by (simp add: all_fields_def report_fields_def stats_fields_def plain_dec plain_target del: lit_simps)
qed

lemma all_fields_words:
  assumes "report_ok r stats"
  shows "list_all is_word (map field (all_fields r stats))" "list_all (list_all is_ascii) (map field (all_fields r stats))"
    "list_all (\<lambda>kv. 61 \<notin> set (fst kv) \<and> is_word (field kv)) (all_fields r stats)" "all_fields r stats \<noteq> []"
  using all_fields_plain [OF assms] field_plain
  by (auto simp: list_all_iff) (simp add: all_fields_def report_fields_def)

lemma bench_summary_join: "bench_summary r stats = BENCH_SUMMARY_MAGIC @ join_space (map field (all_fields r stats)) @ [10]"
  using join_space_append [of "map field (report_fields r)" "map field (stats_fields stats)"]
  by (simp add: bench_summary_def connection_stats_summary_def all_fields_def report_fields_def stats_fields_def
      del: lit_simps)

lemma parse_sent_summary:
  assumes "report_ok r stats"
  shows "parse_bench_summary (as_bytes (bench_summary r stats)) = Inr (Some (join_space (map field (all_fields r stats))))"
proof -
  let ?s = "join_space (map field (all_fields r stats))"
  have a: "list_all is_ascii ?s" using all_fields_words(2) [OF assms] by (rule join_space_ascii)
  then have "list_all is_ascii (?s @ [10])" by (simp add: is_ascii_def)
  then have "from_utf8 (as_bytes (?s @ [10])) = Some (?s @ [10])"
    by (intro from_utf8_as_bytes list_all_ascii_scalar)
  moreover have "trim (?s @ [10]) = ?s"
    using trim_append_ws [of "[10]" ?s] trim_join_space [OF all_fields_words(1) [OF assms]] all_fields_words(4) [OF assms]
    by simp
  moreover have "as_bytes (bench_summary r stats) = as_bytes BENCH_SUMMARY_MAGIC @ as_bytes (?s @ [10])"
    by (simp add: bench_summary_join)
  ultimately show ?thesis by (simp only: parse_bench_summary_def strip_prefix_append) simp
qed

lemma all_fields_lookup:
  "map_of (all_fields r stats) (lit ''bytes'') = Some (dec_u64 (br_bytes r))"
  "map_of (all_fields r stats) (lit ''packets'') = Some (dec_u64 (br_packets r))"
  "map_of (all_fields r stats) (lit ''measured_elapsed_ms'') = Some (dec (br_measured_elapsed_ms r))"
  "map_of (all_fields r stats) (lit ''lost_packets'') = Some (dec_u64 (cs_lost_packets stats))"
  "map_of (all_fields r stats) (lit ''congestion_events'') = Some (dec_u64 (cs_congestion_events stats))"
  by (simp_all add: all_fields_def report_fields_def stats_fields_def)

lemma length_field_values:
  assumes "report_ok r stats"
  shows "length (br_direction r) \<le> 22" "length (target_text (br_target_mbps r)) \<le> 20"
    "length (dec (br_elapsed_ms r)) \<le> 23" "length (dec (br_measured_elapsed_ms r)) \<le> 23"
    "length (dec (cs_rtt_ms stats)) \<le> 23" "length (dec (unat (cs_current_mtu stats))) \<le> 5"
proof -
  show "length (br_direction r) \<le> 22" using assms by (auto simp: report_ok_def)
  show "length (target_text (br_target_mbps r)) \<le> 20"
    by (cases "br_target_mbps r") (simp_all add: target_text_def length_dec_u64)
  show "length (dec (br_elapsed_ms r)) \<le> 23" "length (dec (br_measured_elapsed_ms r)) \<le> 23"
    "length (dec (cs_rtt_ms stats)) \<le> 23"
    using assms by (auto simp: report_ok_def intro!: length_dec)
  have "unat (cs_current_mtu stats) < 2 ^ 16" using unsigned_less [of "cs_current_mtu stats"] by simp
  then show "length (dec (unat (cs_current_mtu stats))) \<le> 5" by (intro length_dec) auto
qed

lemma length_bench_summary:
  assumes "report_ok r stats"
  shows "length (bench_summary r stats) \<le> 1024"
  using length_field_values [OF assms] length_dec_u64 [of "br_bytes r"] length_dec_u64 [of "br_packets r"]
    length_dec_u64 [of "br_payload_bytes r"] length_dec_u64 [of "cs_udp_tx_datagrams stats"]
    length_dec_u64 [of "cs_udp_tx_bytes stats"] length_dec_u64 [of "cs_udp_rx_datagrams stats"]
    length_dec_u64 [of "cs_udp_rx_bytes stats"] length_dec_u64 [of "cs_lost_packets stats"]
    length_dec_u64 [of "cs_lost_bytes stats"] length_dec_u64 [of "cs_congestion_events stats"]
    length_dec_u64 [of "cs_cwnd stats"] length_dec_u64 [of "cs_frame_tx_datagram stats"]
    length_dec_u64 [of "cs_frame_rx_datagram stats"]
  unfolding bench_summary_join
  by (simp add: length_join_space all_fields_def report_fields_def stats_fields_def field_def BENCH_SUMMARY_MAGIC_def)

lemma sent_summary_ascii: "report_ok r stats \<Longrightarrow> list_all is_ascii (bench_summary r stats)"
  using join_space_ascii [OF all_fields_words(2), of r stats]
  by (simp add: bench_summary_join BENCH_SUMMARY_MAGIC_def is_ascii_def)

lemma bench_summary_bytes: "report_ok r stats \<Longrightarrow> length (as_bytes (bench_summary r stats)) \<le> 1024"
  using length_bench_summary [of r stats] str_len_ascii [OF sent_summary_ascii, of r stats]
  by (simp add: str_len_def)

definition sample_report :: bench_report where
  "sample_report = \<lparr>br_direction = lit ''download'', br_elapsed_ms = 6001, br_measured_elapsed_ms = 6000,
     br_bytes = 28548000, br_packets = 21960, br_payload_bytes = 1300, br_target_mbps = Some 38\<rparr>"

definition sample_stats :: conn_stats where
  "sample_stats = \<lparr>cs_udp_tx_datagrams = 21963, cs_udp_tx_bytes = 29000000, cs_udp_rx_datagrams = 900,
     cs_udp_rx_bytes = 40000, cs_lost_packets = 54, cs_lost_bytes = 70200, cs_congestion_events = 3,
     cs_cwnd = 12000, cs_rtt_ms = 40, cs_current_mtu = 1452, cs_frame_tx_datagram = 21960, cs_frame_rx_datagram = 0\<rparr>"

lemma sample_report_ok: "report_ok sample_report sample_stats"
  by (simp add: report_ok_def sample_report_def sample_stats_def)

lemma sent_summary_read:
  assumes "report_ok r stats" and "br_measured_elapsed_ms r < 2 ^ 64"
    and "send_bench_summary io r stats = (writes, Inr ())" and "read_to_end_spec read_to_end"
  shows "\<exists>summary. read_bench_summary_stream (Inr ()) (read_to_end 1024 (concat writes)) = Inr summary
     \<and> parse_server_bench_measurement summary =
         Some \<lparr>sm_mbps = f64_mbps (br_bytes r) (fdiv (f64_of_nat (br_measured_elapsed_ms r)) 1000),
               sm_bytes = br_bytes r, sm_packets = br_packets r, sm_lost_packets = cs_lost_packets stats,
               sm_congestion_events = cs_congestion_events stats,
               sm_elapsed_ms = of_nat (br_measured_elapsed_ms r)\<rparr>"
proof -
  let ?s = "join_space (map field (all_fields r stats))"
  have w: "concat writes = as_bytes (bench_summary r stats)"
    using assms(3) by (auto simp: send_bench_summary_def split: sum.splits)
  have "read_to_end 1024 (concat writes) = Inr (concat writes)"
    using assms(4) bench_summary_bytes [OF assms(1)] by (simp add: w read_to_end_spec_def)
  then have read: "read_bench_summary_stream (Inr ()) (read_to_end 1024 (concat writes)) = Inr ?s"
    by (simp add: w read_bench_summary_stream_def parse_sent_summary [OF assms(1)])
  note lookup = parse_summary_u64_fields [OF _ all_fields_words(3) [OF assms(1)]]
  have ms: "parse_u64 (dec (br_measured_elapsed_ms r)) = Some (of_nat (br_measured_elapsed_ms r))"
    using assms(2) by (simp add: parse_u64_def parse_uint_dec)
  have "unat (of_nat (br_measured_elapsed_ms r) :: u64) = br_measured_elapsed_ms r"
    using assms(2) by (simp add: unat_of_nat take_bit_nat_eq_self)
  moreover have "61 \<notin> set (lit k)" if "k \<in> {''bytes'', ''packets'', ''measured_elapsed_ms'', ''lost_packets'', ''congestion_events''}" for k
    using that by auto
  ultimately have "parse_server_bench_measurement ?s =
         Some \<lparr>sm_mbps = f64_mbps (br_bytes r) (fdiv (f64_of_nat (br_measured_elapsed_ms r)) 1000),
               sm_bytes = br_bytes r, sm_packets = br_packets r, sm_lost_packets = cs_lost_packets stats,
               sm_congestion_events = cs_congestion_events stats,
               sm_elapsed_ms = of_nat (br_measured_elapsed_ms r)\<rparr>"
    by (simp add: parse_server_bench_measurement_def lookup all_fields_lookup ms parse_u64_dec_u64 del: lit_simps)
  with read show ?thesis by blast
qed

section \<open>Properties\<close>

text \<open>
  C35: Every report fits into the 1024 bytes that the client reads, and the client reads from it exactly the byte, packet, loss and congestion counts
  and the measured time that the server put in (times below \<open>2\<^sup>6\<^sup>4\<close> ms), and computes the rate from
  them.
\<close>

theorem bench_summary_roundtrip:
  assumes "report_ok r stats" and "br_measured_elapsed_ms r < 2 ^ 64"
    and "send_bench_summary io r stats = (writes, Inr ())" and "read_to_end_spec read_to_end"
  shows "\<exists>summary. read_bench_summary_stream (Inr ()) (read_to_end 1024 (concat writes)) = Inr summary
     \<and> parse_server_bench_measurement summary =
         Some \<lparr>sm_mbps = f64_mbps (br_bytes r) (fdiv (f64_of_nat (br_measured_elapsed_ms r)) 1000),
               sm_bytes = br_bytes r, sm_packets = br_packets r, sm_lost_packets = cs_lost_packets stats,
               sm_congestion_events = cs_congestion_events stats,
               sm_elapsed_ms = of_nat (br_measured_elapsed_ms r)\<rparr>"
  using assms by (rule sent_summary_read)

theorem bench_summary_roundtrip_witness:
  "\<exists>summary m. read_bench_summary_stream (Inr ())
       (if length (as_bytes (bench_summary sample_report sample_stats)) \<le> 1024
        then Inr (as_bytes (bench_summary sample_report sample_stats)) else Inl (External ''too long'')) = Inr summary
     \<and> parse_server_bench_measurement summary = Some m \<and> sm_bytes m = 28548000 \<and> sm_lost_packets m = 54"
proof -
  let ?rte = "\<lambda>limit bs. if length bs \<le> limit then Inr bs else Inl (External ''too long'')"
  have s: "send_bench_summary \<lparr>si_open_bi = Inr (), si_write_all = Inr (), si_finish = Inr ()\<rparr> sample_report sample_stats
      = ([as_bytes (bench_summary sample_report sample_stats)], Inr ())"
    by (simp add: send_bench_summary_def)
  have rte: "read_to_end_spec ?rte" by (simp add: read_to_end_spec_def)
  have ms: "br_measured_elapsed_ms sample_report < 2 ^ 64" by (simp add: sample_report_def)
  from bench_summary_roundtrip [OF sample_report_ok ms s rte] obtain summary m where
    "read_bench_summary_stream (Inr ()) (?rte 1024 (concat [as_bytes (bench_summary sample_report sample_stats)])) = Inr summary"
    "parse_server_bench_measurement summary = Some m"
    "sm_bytes m = br_bytes sample_report" "sm_lost_packets m = cs_lost_packets sample_stats"
    by fastforce
  moreover have "br_bytes sample_report = 28548000" "cs_lost_packets sample_stats = 54"
    by (simp_all add: sample_report_def sample_stats_def)
  ultimately show ?thesis
    by (intro exI [of _ summary], intro exI [of _ m]) (simp only: concat.simps append_Nil2 simp_thms)
qed

end
