(* ===== verification/Bench.thy ===== *)
theory Bench
  imports Summary Pump Auth
begin

text \<open>
  The benchmarks: \<^verbatim>\<open>run_bench\<close> and the functions it calls in \<^verbatim>\<open>crates/litevpn-server/src/main.rs\<close> and in
  \<^verbatim>\<open>crates/litevpn-client/src/main.rs\<close>. The loops of the two programs come in pairs that differ only in
  what they do when the connection closes or the time is up, so one definition models both, with the
  difference as an argument. A loop runs over the list of what its rounds meet; \<open>None\<close> means that it is
  still running after them. The lemmas: the counters are exact, the reader of a framed stream counts
  what the writer counted, and a long duration makes the server panic.
\<close>

section \<open>Time\<close>

text \<open>A future under \<^verbatim>\<open>timeout\<close> or \<^verbatim>\<open>timeout_at\<close>.\<close>

datatype 'a timed = Elapsed | Timely 'a

text \<open>\<^verbatim>\<open>Instant + Duration::from_secs(secs)\<close>.\<close>

definition instant_add_secs :: "nat \<Rightarrow> u64 \<Rightarrow> nat result" where
  "instant_add_secs started secs = instant_add started (unat secs * nanos)"

lemma instant_add_secs_eq:
  "instant_add_secs started secs =
     (if started div nanos + unat secs < 2 ^ 63 then Inr (started + unat secs * nanos) else Inl instant_overflow)"
  by (simp add: instant_add_secs_def instant_add_def nanos_def)

section \<open>Counting\<close>

record counts =
  ct_packets :: u64
  ct_bytes :: u64

definition no_counts :: counts where
  "no_counts = \<lparr>ct_packets = 0, ct_bytes = 0\<rparr>"

definition count :: "nat \<Rightarrow> counts \<Rightarrow> counts" where
  "count n c = \<lparr>ct_packets = ct_packets c + 1, ct_bytes = ct_bytes c + of_nat n\<rparr>"

text \<open>Datagrams read until the deadline.\<close>

fun count_datagrams :: "nat result timed list \<Rightarrow> counts \<Rightarrow> counts result option" where
  "count_datagrams [] c = None"
| "count_datagrams (Elapsed # rs) c = Some (Inr c)"
| "count_datagrams (Timely (Inl e) # rs) c = Some (Inl e)"
| "count_datagrams (Timely (Inr n) # rs) c = count_datagrams rs (count n c)"

text \<open>
  Reads of a stream until it ends; an empty packet of a framed stream is skipped. \<open>late\<close> is the result
  when the deadline passes: the server stops reading, the client gives up with an error.
\<close>

fun count_stream :: "error option \<Rightarrow> bool \<Rightarrow> nat option result timed list \<Rightarrow> counts \<Rightarrow> counts result option" where
  "count_stream late framed [] c = None"
| "count_stream late framed (Elapsed # rs) c =
     Some (case late of None \<Rightarrow> Inr c | Some e \<Rightarrow> Inl e)"
| "count_stream late framed (Timely (Inl e) # rs) c = Some (Inl e)"
| "count_stream late framed (Timely (Inr None) # rs) c = Some (Inr c)"
| "count_stream late framed (Timely (Inr (Some n)) # rs) c =
     count_stream late framed rs (if framed \<and> n = 0 then c else count n c)"

section \<open>Sending\<close>

datatype send_round =
    SendDeadline
  | SendClosed
  | SendDone "unit result" "nat \<Rightarrow> backlog_poll" pacer_env

record send_state =
  ss_sent :: nat
  ss_counts :: counts
  ss_backlog :: DatagramBacklog
  ss_pacer :: EgressPacer

text \<open>\<open>on_closed\<close> is the result when the connection closes: the server stops, the client has an error.\<close>

fun send_datagrams ::
    "error option \<Rightarrow> nat \<Rightarrow> nat \<Rightarrow> send_round list \<Rightarrow> send_state \<Rightarrow> (send_state \<times> unit result) option" where
  "send_datagrams on_closed deadline payload_bytes [] s = None"
| "send_datagrams on_closed deadline payload_bytes (SendDeadline # rs) s = Some (s, Inr ())"
| "send_datagrams on_closed deadline payload_bytes (SendClosed # rs) s =
     Some (s, case on_closed of None \<Rightarrow> Inr () | Some e \<Rightarrow> Inl e)"
| "send_datagrams on_closed deadline payload_bytes (SendDone (Inl e) polls env # rs) s = Some (s, Inl e)"
| "send_datagrams on_closed deadline payload_bytes (SendDone (Inr _) polls env # rs) s =
     (let s1 = s\<lparr>ss_sent := ss_sent s + 1\<rparr> in
      case queued_until deadline polls (ss_backlog s1) of
        None \<Rightarrow> None
      | Some (b, Inl e) \<Rightarrow> Some (s1\<lparr>ss_backlog := b\<rparr>, Inl e)
      | Some (b, Inr False) \<Rightarrow> Some (s1\<lparr>ss_backlog := b\<rparr>, Inr ())
      | Some (b, Inr True) \<Rightarrow>
          (case record_and_wait payload_bytes True env (ss_pacer s1) of
             (p, w) \<Rightarrow>
               let s2 = s1\<lparr>ss_backlog := b, ss_counts := count payload_bytes (ss_counts s1), ss_pacer := p\<rparr> in
               (case w of
                  Inl e \<Rightarrow> Some (s2, Inl e)
                | Inr _ \<Rightarrow> send_datagrams on_closed deadline payload_bytes rs s2)))"

record write_round =
  wr_now :: nat
  wr_closed :: bool
  wr_write :: "unit result"
  wr_raw :: "nat result timed"
  wr_env :: pacer_env

record write_state =
  ws_wire :: "u8 list"
  ws_header :: "u8 list"
  ws_counts :: counts
  ws_pacer :: EgressPacer

text \<open>Framed, every write is a whole packet; otherwise a write takes as many bytes as it can.\<close>

fun write_stream ::
    "error option \<Rightarrow> bool \<Rightarrow> nat \<Rightarrow> u8 list \<Rightarrow> write_round list \<Rightarrow> write_state \<Rightarrow> (write_state \<times> unit result) option" where
  "write_stream on_closed framed deadline payload [] s = None"
| "write_stream on_closed framed deadline payload (r # rs) s =
     (let counted = (\<lambda>n wire header.
            case record_and_wait n True (wr_env r) (ws_pacer s) of
              (p, w) \<Rightarrow>
                let s1 = \<lparr>ws_wire = ws_wire s @ wire, ws_header = header,
                          ws_counts = count n (ws_counts s), ws_pacer = p\<rparr> in
                (case w of
                   Inl e \<Rightarrow> Some (s1, Inl e)
                 | Inr _ \<Rightarrow> write_stream on_closed framed deadline payload rs s1))
      in if deadline \<le> wr_now r then Some (s, Inr ())
         else if framed then
           (if wr_closed r then Some (s, case on_closed of None \<Rightarrow> Inr () | Some e \<Rightarrow> Inl e)
            else
              (case write_stream_packet (wr_write r) (ws_header s) payload of
                 (header, chunks, Inl e) \<Rightarrow> Some (s\<lparr>ws_header := header\<rparr>, Inl e)
               | (header, chunks, Inr _) \<Rightarrow> counted (length payload) (concat chunks) header))
         else
           (case wr_raw r of
              Elapsed \<Rightarrow> Some (s, Inr ())
            | Timely (Inl e) \<Rightarrow> Some (s, Inl e)
            | Timely (Inr n) \<Rightarrow>
                if n = 0 then Some (s, Inr ()) else counted n (take n payload) (ws_header s)))"

section \<open>The server\<close>

record bench_env =
  be_open_stream :: "unit result"
  be_started :: nat
  be_max_datagram :: "nat option"
  be_tx_datagrams :: u64
  be_finish :: "unit result"
  be_stopped :: "u64 option result option"
  be_elapsed_ms :: nat
  be_measured_ms :: nat
  be_stats :: conn_stats
  be_summary_io :: summary_io

text \<open>
  The result of a server benchmark: what it wrote to the summary stream, and how it ended; \<open>None\<close> while
  its loop is running.
\<close>

type_synonym server_bench = "(u8 list list \<times> unit result) option"

definition bench_report_of :: "rstr \<Rightarrow> nat \<Rightarrow> usize \<Rightarrow> u64 option \<Rightarrow> bench_env \<Rightarrow> counts \<Rightarrow> bench_report" where
  "bench_report_of direction measured payload_bytes target_mbps env c =
     \<lparr>br_direction = direction, br_elapsed_ms = be_elapsed_ms env, br_measured_elapsed_ms = measured,
      br_bytes = ct_bytes c, br_packets = ct_packets c, br_payload_bytes = payload_bytes,
      br_target_mbps = target_mbps\<rparr>"

definition report ::
    "rstr \<Rightarrow> nat \<Rightarrow> usize \<Rightarrow> u64 option \<Rightarrow> bench_env \<Rightarrow> counts \<Rightarrow> u8 list list \<times> unit result" where
  "report direction measured payload_bytes target_mbps env c =
     send_bench_summary (be_summary_io env)
       (bench_report_of direction measured payload_bytes target_mbps env c) (be_stats env)"

definition server_run_upload_bench ::
    "u64 \<Rightarrow> usize \<Rightarrow> u64 option \<Rightarrow> bench_env \<Rightarrow> nat result timed list \<Rightarrow> server_bench" where
  "server_run_upload_bench duration_secs payload_bytes target_mbps env rounds =
     (case instant_add_secs (be_started env) (duration_secs + 1) of
        Inl e \<Rightarrow> Some ([], Inl e)
      | Inr deadline \<Rightarrow>
          (case count_datagrams rounds no_counts of
             None \<Rightarrow> None
           | Some (Inl e) \<Rightarrow> Some ([], Inl e)
           | Some (Inr c) \<Rightarrow>
               Some (report (lit ''upload'') (unat duration_secs * 1000) payload_bytes target_mbps env c)))"

definition server_run_download_bench ::
    "u64 \<Rightarrow> usize \<Rightarrow> u64 option \<Rightarrow> u64 \<Rightarrow> bool \<Rightarrow> bench_env \<Rightarrow> send_round list \<Rightarrow> server_bench" where
  "server_run_download_bench duration_secs requested_payload_bytes target_mbps datagram_backlog_packets
       adaptive_egress env rounds =
     (let payload_bytes =
            min (case be_max_datagram env of None \<Rightarrow> unat requested_payload_bytes | Some m \<Rightarrow> m)
              (unat requested_payload_bytes)
      in case instant_add_secs (be_started env) duration_secs of
           Inl e \<Rightarrow> Some ([], Inl e)
         | Inr deadline \<Rightarrow>
             (case send_datagrams None deadline payload_bytes rounds
                     \<lparr>ss_sent = 0, ss_counts = no_counts,
                      ss_backlog = backlog_new (be_tx_datagrams env) datagram_backlog_packets,
                      ss_pacer = pacer_from_optional target_mbps payload_bytes adaptive_egress (be_started env)\<rparr> of
                None \<Rightarrow> None
              | Some (s, Inl e) \<Rightarrow> Some ([], Inl e)
              | Some (s, Inr _) \<Rightarrow>
                  Some (report (lit ''download'') (be_measured_ms env) (of_nat payload_bytes) target_mbps env
                    (ss_counts s))))"

definition server_run_stream_upload_bench ::
    "u64 \<Rightarrow> usize \<Rightarrow> u64 option \<Rightarrow> bool \<Rightarrow> bench_env \<Rightarrow> nat option result timed list \<Rightarrow> server_bench" where
  "server_run_stream_upload_bench duration_secs payload_bytes target_mbps framed env rounds =
     (case context_res ''failed to accept stream upload'' (be_open_stream env) of
        Inl e \<Rightarrow> Some ([], Inl e)
      | Inr _ \<Rightarrow>
          (case instant_add_secs (be_started env) (duration_secs + 1) of
             Inl e \<Rightarrow> Some ([], Inl e)
           | Inr deadline \<Rightarrow>
               (case count_stream None framed rounds no_counts of
                  None \<Rightarrow> None
                | Some (Inl e) \<Rightarrow> Some ([], Inl e)
                | Some (Inr c) \<Rightarrow>
                    Some (report (if framed then lit ''stream-packet-upload'' else lit ''stream-upload'')
                      (unat duration_secs * 1000) payload_bytes target_mbps env c))))"

definition server_run_stream_download_bench ::
    "u64 \<Rightarrow> usize \<Rightarrow> u64 option \<Rightarrow> bool \<Rightarrow> bool \<Rightarrow> bench_env \<Rightarrow> write_round list \<Rightarrow> server_bench" where
  "server_run_stream_download_bench duration_secs payload_bytes target_mbps adaptive_egress framed env rounds =
     (case context_res ''failed to open stream download'' (be_open_stream env) of
        Inl e \<Rightarrow> Some ([], Inl e)
      | Inr _ \<Rightarrow>
          (case instant_add_secs (be_started env) duration_secs of
             Inl e \<Rightarrow> Some ([], Inl e)
           | Inr deadline \<Rightarrow>
               (case write_stream None framed deadline (replicate (unat payload_bytes) 0) rounds
                       \<lparr>ws_wire = [], ws_header = [0, 0], ws_counts = no_counts,
                        ws_pacer = pacer_from_optional target_mbps (unat payload_bytes) adaptive_egress (be_started env)\<rparr> of
                  None \<Rightarrow> None
                | Some (s, Inl e) \<Rightarrow> Some ([], Inl e)
                | Some (s, Inr _) \<Rightarrow>
                    (case finish_stream_with_ack (be_finish env) (be_stopped env) of
                       Inl e \<Rightarrow> Some ([], Inl e)
                     | Inr _ \<Rightarrow>
                         Some (report (if framed then lit ''stream-packet-download'' else lit ''stream-download'')
                           (be_measured_ms env) payload_bytes target_mbps env (ws_counts s))))))"

text \<open>\<^verbatim>\<open>run_bench\<close>, given the rounds of whichever loop it comes to.\<close>

record bench_rounds =
  rn_datagrams :: "nat result timed list"
  rn_sends :: "send_round list"
  rn_reads :: "nat option result timed list"
  rn_writes :: "write_round list"

definition server_run_bench ::
    "BenchDirection \<Rightarrow> u64 \<Rightarrow> usize \<Rightarrow> u64 option \<Rightarrow> u64 \<Rightarrow> bool \<Rightarrow> bench_env \<Rightarrow> bench_rounds \<Rightarrow> server_bench" where
  "server_run_bench direction duration_secs payload_bytes target_mbps datagram_backlog_packets adaptive_egress env rn =
     (case direction of
        Upload \<Rightarrow> server_run_upload_bench duration_secs payload_bytes target_mbps env (rn_datagrams rn)
      | Download \<Rightarrow> server_run_download_bench duration_secs payload_bytes target_mbps datagram_backlog_packets
          adaptive_egress env (rn_sends rn)
      | StreamUpload \<Rightarrow>
          server_run_stream_upload_bench duration_secs payload_bytes target_mbps False env (rn_reads rn)
      | StreamDownload \<Rightarrow>
          server_run_stream_download_bench duration_secs payload_bytes target_mbps adaptive_egress False env (rn_writes rn)
      | StreamPacketUpload \<Rightarrow>
          server_run_stream_upload_bench duration_secs payload_bytes target_mbps True env (rn_reads rn)
      | StreamPacketDownload \<Rightarrow>
          server_run_stream_download_bench duration_secs payload_bytes target_mbps adaptive_egress True env (rn_writes rn))"

section \<open>The client\<close>

record BenchMeasurement =
  bm_mbps :: rat
  bm_bytes :: u64
  bm_packets :: u64
  bm_elapsed :: nat
  bm_server :: "ServerBenchMeasurement option"

definition bench_measurement ::
    "nat \<Rightarrow> u64 \<Rightarrow> u64 \<Rightarrow> ServerBenchMeasurement option \<Rightarrow> BenchMeasurement" where
  "bench_measurement elapsed bytes packets server =
     \<lparr>bm_mbps = f64_mbps bytes (as_secs_f64 elapsed), bm_bytes = bytes, bm_packets = packets,
      bm_elapsed = elapsed, bm_server = server\<rparr>"

text \<open>\<open>ce_summary\<close>: the outcomes of \<^verbatim>\<open>accept_bi\<close> and \<^verbatim>\<open>read_to_end\<close> in \<^verbatim>\<open>read_bench_summary_stream\<close>, or a timeout.\<close>

record client_env =
  ce_open_stream :: "unit result"
  ce_started :: nat
  ce_tx_datagrams :: u64
  ce_finish :: "unit result"
  ce_stopped :: "u64 option result option"
  ce_elapsed :: nat
  ce_summary :: "(unit result \<times> u8 list result) timed"

definition timed_out :: "string \<Rightarrow> 'a result timed \<Rightarrow> 'a result" where
  "timed_out m r = (case r of Elapsed \<Rightarrow> Inl (Context m (External ''deadline has elapsed'')) | Timely x \<Rightarrow> x)"

definition measured :: "client_env \<Rightarrow> string \<Rightarrow> counts \<Rightarrow> BenchMeasurement result" where
  "measured env m c =
     bind_res (timed_out m (map_timed (\<lambda>(accept_bi, packet). read_bench_summary_stream accept_bi packet) (ce_summary env)))
       (\<lambda>summary.
     Inr (bench_measurement (ce_elapsed env) (ct_bytes c) (ct_packets c) (parse_server_bench_measurement summary)))"

definition client_run_upload_bench ::
    "u64 \<Rightarrow> usize \<Rightarrow> u64 option \<Rightarrow> u64 \<Rightarrow> bool \<Rightarrow> client_env \<Rightarrow> send_round list \<Rightarrow> BenchMeasurement result option" where
  "client_run_upload_bench duration_secs payload_bytes target_mbps datagram_backlog_packets adaptive_egress env rounds =
     (case instant_add_secs (ce_started env) duration_secs of
        Inl e \<Rightarrow> Some (Inl e)
      | Inr deadline \<Rightarrow>
          (case send_datagrams (Some (Bail ''connection closed during upload bench: {reason}'')) deadline
                  (unat payload_bytes) rounds
                  \<lparr>ss_sent = 0, ss_counts = no_counts,
                   ss_backlog = backlog_new (ce_tx_datagrams env) datagram_backlog_packets,
                   ss_pacer = pacer_from_optional target_mbps (unat payload_bytes) adaptive_egress (ce_started env)\<rparr> of
             None \<Rightarrow> None
           | Some (s, Inl e) \<Rightarrow> Some (Inl e)
           | Some (s, Inr _) \<Rightarrow> Some (measured env ''timed out waiting for bench summary'' (ss_counts s))))"

text \<open>The task that reads the summary runs beside the loop; it is joined while datagrams are still read.\<close>

datatype download_round =
    DownSummary "(unit result \<times> u8 list result) result"
  | DownPacket "nat result"
  | DownDeadline

fun client_download_loop :: "client_env \<Rightarrow> download_round list \<Rightarrow> counts \<Rightarrow> BenchMeasurement result option" where
  "client_download_loop env [] c = None"
| "client_download_loop env (DownSummary r # rs) c =
     Some (bind_res (context_res ''bench summary task failed'' r) (\<lambda>(accept_bi, packet).
           bind_res (read_bench_summary_stream accept_bi packet) (\<lambda>summary.
           Inr (bench_measurement (ce_elapsed env) (ct_bytes c) (ct_packets c)
             (parse_server_bench_measurement summary)))))"
| "client_download_loop env (DownPacket (Inl e) # rs) c = Some (Inl e)"
| "client_download_loop env (DownPacket (Inr n) # rs) c = client_download_loop env rs (count n c)"
| "client_download_loop env (DownDeadline # rs) c =
     Some (Inl (Bail ''timed out waiting for download bench summary''))"

definition client_run_download_bench ::
    "u64 \<Rightarrow> client_env \<Rightarrow> download_round list \<Rightarrow> BenchMeasurement result option" where
  "client_run_download_bench duration_secs env rounds =
     (case instant_add_secs (ce_started env) (duration_secs + 5) of
        Inl e \<Rightarrow> Some (Inl e)
      | Inr deadline \<Rightarrow> client_download_loop env rounds no_counts)"

definition client_run_stream_upload_bench ::
    "u64 \<Rightarrow> usize \<Rightarrow> u64 option \<Rightarrow> bool \<Rightarrow> bool \<Rightarrow> client_env \<Rightarrow> write_round list \<Rightarrow> BenchMeasurement result option" where
  "client_run_stream_upload_bench duration_secs payload_bytes target_mbps adaptive_egress framed env rounds =
     (case context_res ''failed to open stream upload'' (ce_open_stream env) of
        Inl e \<Rightarrow> Some (Inl e)
      | Inr _ \<Rightarrow>
          (case instant_add_secs (ce_started env) duration_secs of
             Inl e \<Rightarrow> Some (Inl e)
           | Inr deadline \<Rightarrow>
               (case write_stream (Some (Bail ''connection closed during stream packet upload bench: {reason}''))
                       framed deadline (replicate (unat payload_bytes) 0) rounds
                       \<lparr>ws_wire = [], ws_header = [0, 0], ws_counts = no_counts,
                        ws_pacer = pacer_from_optional target_mbps (unat payload_bytes) adaptive_egress (ce_started env)\<rparr> of
                  None \<Rightarrow> None
                | Some (s, Inl e) \<Rightarrow> Some (Inl e)
                | Some (s, Inr _) \<Rightarrow>
                    (case finish_stream_with_ack (ce_finish env) (ce_stopped env) of
                       Inl e \<Rightarrow> Some (Inl e)
                     | Inr _ \<Rightarrow> Some (measured env ''timed out waiting for stream bench summary'' (ws_counts s))))))"

definition client_run_stream_download_bench ::
    "u64 \<Rightarrow> bool \<Rightarrow> client_env \<Rightarrow> nat option result timed list \<Rightarrow> BenchMeasurement result option" where
  "client_run_stream_download_bench duration_secs framed env rounds =
     (case context_res ''failed to accept stream download'' (ce_open_stream env) of
        Inl e \<Rightarrow> Some (Inl e)
      | Inr _ \<Rightarrow>
          (case instant_add_secs (ce_started env) (duration_secs + 5) of
             Inl e \<Rightarrow> Some (Inl e)
           | Inr deadline \<Rightarrow>
               (case count_stream
                       (Some (Bail (if framed then ''timed out waiting for stream packet download''
                                    else ''timed out waiting for stream download'')))
                       framed rounds no_counts of
                  None \<Rightarrow> None
                | Some (Inl e) \<Rightarrow> Some (Inl e)
                | Some (Inr c) \<Rightarrow> Some (measured env ''timed out waiting for stream bench summary'' c))))"

record client_rounds =
  cn_sends :: "send_round list"
  cn_downs :: "download_round list"
  cn_writes :: "write_round list"
  cn_reads :: "nat option result timed list"

definition client_run_bench ::
    "BenchDirection \<Rightarrow> u64 \<Rightarrow> usize \<Rightarrow> u64 option \<Rightarrow> u64 \<Rightarrow> bool \<Rightarrow> client_env \<Rightarrow> client_rounds
     \<Rightarrow> BenchMeasurement result option" where
  "client_run_bench direction duration_secs payload_bytes target_mbps datagram_backlog_packets adaptive_egress env cn =
     (if duration_secs = 0 then Some (Inl (Bail ''bench duration must be greater than zero''))
      else
        (case direction of
           Upload \<Rightarrow> client_run_upload_bench duration_secs payload_bytes target_mbps datagram_backlog_packets
             adaptive_egress env (cn_sends cn)
         | Download \<Rightarrow> client_run_download_bench duration_secs env (cn_downs cn)
         | StreamUpload \<Rightarrow>
             client_run_stream_upload_bench duration_secs payload_bytes target_mbps adaptive_egress False env (cn_writes cn)
         | StreamDownload \<Rightarrow> client_run_stream_download_bench duration_secs False env (cn_reads cn)
         | StreamPacketUpload \<Rightarrow>
             client_run_stream_upload_bench duration_secs payload_bytes target_mbps adaptive_egress True env (cn_writes cn)
         | StreamPacketDownload \<Rightarrow> client_run_stream_download_bench duration_secs True env (cn_reads cn)))"

text \<open>
  \<^verbatim>\<open>print_bench_aggregate\<close>: the totals it prints, local and, when every run has a server measurement,
  of the server. The sums of \<^verbatim>\<open>u64\<close> values wrap; those of doubles are taken from the left, starting at
  zero.
\<close>

record aggregate =
  ag_runs :: nat
  ag_avg_mbps :: rat
  ag_min_mbps :: rat
  ag_max_mbps :: rat
  ag_bytes :: u64
  ag_packets :: u64
  ag_elapsed_ms :: nat

record server_aggregate = aggregate +
  ag_lost_packets :: u64
  ag_congestion_events :: u64

definition f64_sum :: "rat list \<Rightarrow> rat" where
  "f64_sum xs = foldl fadd 0 xs"

definition local_totals :: "BenchMeasurement list \<Rightarrow> aggregate" where
  "local_totals ms =
     \<lparr>ag_runs = length ms,
      ag_avg_mbps = fdiv (f64_sum (map bm_mbps ms)) (f64_of_nat (length ms)),
      ag_min_mbps = Min (set (map bm_mbps ms)), ag_max_mbps = Max (set (map bm_mbps ms)),
      ag_bytes = sum_list (map bm_bytes ms), ag_packets = sum_list (map bm_packets ms),
      ag_elapsed_ms = sum_list (map (\<lambda>m. bm_elapsed m div 1000000) ms)\<rparr>"

definition server_totals :: "ServerBenchMeasurement list \<Rightarrow> server_aggregate" where
  "server_totals ms =
     \<lparr>ag_runs = length ms,
      ag_avg_mbps = fdiv (f64_sum (map sm_mbps ms)) (f64_of_nat (length ms)),
      ag_min_mbps = Min (set (map sm_mbps ms)), ag_max_mbps = Max (set (map sm_mbps ms)),
      ag_bytes = sum_list (map sm_bytes ms), ag_packets = sum_list (map sm_packets ms),
      ag_elapsed_ms = unat (sum_list (map sm_elapsed_ms ms)),
      ag_lost_packets = sum_list (map sm_lost_packets ms),
      ag_congestion_events = sum_list (map sm_congestion_events ms)\<rparr>"

definition print_bench_aggregate :: "BenchMeasurement list \<Rightarrow> (aggregate \<times> server_aggregate option) option" where
  "print_bench_aggregate measurements =
     (if length measurements \<le> 1 then None
      else
        (let server_measurements = List.map_filter bm_server measurements
         in Some (local_totals measurements,
              if length server_measurements \<noteq> length measurements then None
              else Some (server_totals server_measurements))))"

section \<open>The counters are exact\<close>

definition counted :: "nat \<Rightarrow> nat \<Rightarrow> counts" where
  "counted k n = \<lparr>ct_packets = of_nat k, ct_bytes = of_nat (k * n)\<rparr>"

lemma count_counted [simp]: "count n (counted k n) = counted (Suc k) n"
  by (simp add: count_def counted_def algebra_simps)

lemma no_counts_counted: "no_counts = counted 0 n"
  by (simp add: counted_def no_counts_def)

text \<open>One successful round of the sending loop.\<close>

lemma send_datagrams_step:
  assumes "send_datagrams on_closed deadline n (r # rs) s = Some (s', res)"
  obtains (more) s1 where "send_datagrams on_closed deadline n rs s1 = Some (s', res)"
      "ss_counts s1 = count n (ss_counts s)" "ss_sent s1 = Suc (ss_sent s)"
  | (uncounted) "ss_counts s' = ss_counts s" "ss_sent s' = ss_sent s \<or> ss_sent s' = Suc (ss_sent s)"
  | (last) "ss_counts s' = count n (ss_counts s)" "ss_sent s' = Suc (ss_sent s)"
proof (cases r)
  case (SendDone res1 polls env)
  obtain p w where w: "record_and_wait n True env (ss_pacer s) = (p, w)" by force
  show ?thesis
    using assms w that
    by (cases res1) (fastforce simp: SendDone Let_def split: option.splits sum.splits bool.splits)+
qed (use assms that in auto)

lemma send_datagrams_counts:
  assumes "send_datagrams on_closed deadline n rounds s = Some (s', r)"
    and "ss_counts s = counted k n" and "ss_sent s = k"
  shows "\<exists>j. ss_counts s' = counted j n \<and> (ss_sent s' = j \<or> ss_sent s' = Suc j)"
  using assms
proof (induction rounds arbitrary: s k)
  case (Cons x xs)
  from Cons.prems(1) show ?case
  proof (cases rule: send_datagrams_step)
    case (more s1)
    with Cons.IH [of s1 "Suc k"] Cons.prems(2,3) show ?thesis by simp
  qed (use Cons.prems(2,3) in auto)
qed simp

lemma write_stream_step:
  assumes "write_stream on_closed True deadline payload (r # rs) s = Some (s', res)"
  obtains (more) s1 where "write_stream on_closed True deadline payload rs s1 = Some (s', res)" "framable payload"
      "ws_counts s1 = count (length payload) (ws_counts s)" "ws_wire s1 = ws_wire s @ frame payload"
  | (uncounted) "ws_counts s' = ws_counts s" "ws_wire s' = ws_wire s"
  | (last) "framable payload" "ws_counts s' = count (length payload) (ws_counts s)" "ws_wire s' = ws_wire s @ frame payload"
proof -
  obtain p w where w: "record_and_wait (length payload) True (wr_env r) (ws_pacer s) = (p, w)" by force
  show ?thesis
    using assms w that
    by (fastforce simp: Let_def dest!: write_stream_packet_Inr split: if_splits prod.splits sum.splits)
qed

lemma write_stream_framed:
  assumes "write_stream on_closed True deadline payload rounds s = Some (s', r)"
    and "ws_counts s = counted k (length payload)" and "ws_wire s = concat (replicate k (frame payload))"
    and "0 < k \<longrightarrow> framable payload"
  shows "\<exists>j \<le> k + length rounds. ws_counts s' = counted j (length payload)
     \<and> ws_wire s' = concat (replicate j (frame payload)) \<and> (0 < j \<longrightarrow> framable payload)"
  using assms
proof (induction rounds arbitrary: s k)
  case (Cons x xs)
  have snoc: "concat (replicate k (frame payload)) @ frame payload = concat (replicate (Suc k) (frame payload))"
    by (induction k) simp_all
  from Cons.prems(1) show ?case
  proof (cases rule: write_stream_step)
    case (more s1)
    with Cons.IH [of s1 "Suc k"] Cons.prems(2,3) snoc show ?thesis by auto
  next
    case last
    with Cons.prems(2,3) snoc show ?thesis by (intro exI [of _ "Suc k"]) simp
  next
    case uncounted
    with Cons.prems(2-4) show ?thesis by (intro exI [of _ k]) auto
  qed
qed simp

section \<open>The reader of a framed stream\<close>

text \<open>What up to \<open>k\<close> calls of \<open>read_stream_packet\<close> in a row return.\<close>

fun stream_reads :: "('s \<Rightarrow> nat \<Rightarrow> read_outcome \<times> 's) \<Rightarrow> nat \<Rightarrow> 's \<Rightarrow> nat \<Rightarrow> nat option result list" where
  "stream_reads rd cap s 0 = []"
| "stream_reads rd cap s (Suc k) =
     (case read_stream_packet rd cap s of
        None \<Rightarrow> []
      | Some (Inl e, s') \<Rightarrow> [Inl e]
      | Some (Inr None, s') \<Rightarrow> [Inr None]
      | Some (Inr (Some p), s') \<Rightarrow> Inr (Some (length p)) # stream_reads rd cap s' k)"

lemma stream_reads_count:
  assumes "recv_stream rd content lag" and "content s = concat (replicate j (frame p))"
    and "0 < j \<longrightarrow> framable p" and "length p \<le> cap" and "j < k" and "p \<noteq> []"
  shows "count_stream late True (map Timely (stream_reads rd cap s k)) (counted i (length p)) =
     Some (Inr (counted (i + j) (length p)))"
  using assms(2,3,5)
proof (induction j arbitrary: s k i)
  case 0
  then obtain s' where "read_stream_packet rd cap s = Some (Inr None, s')"
    using recv_stream.read_packet_eof [OF assms(1)] by fastforce
  with 0 show ?case by (cases k) simp_all
next
  case (Suc j)
  then obtain s' where "read_stream_packet rd cap s = Some (Inr (Some p), s')" "content s' = concat (replicate j (frame p))"
    using recv_stream.read_packet_frame [OF assms(1), of s p _ cap] assms(4) by fastforce
  with Suc.IH [of s' "k - 1" "Suc i"] Suc.prems assms(6) show ?case by (cases k) simp_all
qed

lemma framed_counts_agree:
  assumes "recv_stream rd content lag"
    and "write_stream on_closed True deadline payload rounds
           \<lparr>ws_wire = [], ws_header = [0, 0], ws_counts = no_counts, ws_pacer = p\<rparr> = Some (s, r)"
    and "content q = ws_wire s" and "payload \<noteq> []" and "length payload \<le> buf_len" and "length rounds < k"
  shows "count_stream late True (map Timely (stream_reads rd buf_len q k)) no_counts = Some (Inr (ws_counts s))"
proof -
  obtain j where j: "j \<le> length rounds" "ws_counts s = counted j (length payload)"
    "ws_wire s = concat (replicate j (frame payload))" "0 < j \<longrightarrow> framable payload"
    using write_stream_framed [OF assms(2), of 0] no_counts_counted [of "length payload"] by auto
  from stream_reads_count [OF assms(1), of q j payload buf_len k late 0] j assms(3-6) show ?thesis
    by (auto simp: no_counts_counted [of "length payload"] simp del: stream_reads.simps)
qed

section \<open>Properties\<close>

text \<open>
  C15: In the packet-stream upload benchmark client and server agree. When the client's loop has ended
  and the server has read the stream to its end, however it was cut into reads, the client's result
  carries a server measurement with the very packet and byte counts that the client counted itself,
  over the duration that was asked for.
\<close>

theorem stream_upload_bench_agrees:
  assumes stream: "recv_stream rd content lag" and rte: "read_to_end_spec read_to_end"
    and deadline: "instant_add_secs (ce_started cenv) duration_secs = Inr deadline"
    and written: "write_stream (Some (Bail ''connection closed during stream packet upload bench: {reason}''))
           True deadline (replicate (unat payload_bytes) 0) rounds
           \<lparr>ws_wire = [], ws_header = [0, 0], ws_counts = no_counts,
            ws_pacer = pacer_from_optional target_mbps (unat payload_bytes) adaptive (ce_started cenv)\<rparr> = Some (s, Inr ())"
    and wire: "content q = ws_wire s" and k: "length rounds < k"
    and served: "server_run_stream_upload_bench duration_secs payload_bytes target_mbps True benv
           (map Timely (stream_reads rd (unat payload_bytes) q k)) = Some (writes, Inr ())"
    and opened: "ce_open_stream cenv = Inr ()" and finished: "finish_stream_with_ack (ce_finish cenv) (ce_stopped cenv) = Inr ()"
    and summary: "ce_summary cenv = Timely (Inr (), read_to_end 1024 (concat writes))"
    and payload: "payload_bytes \<noteq> 0" and times: "unat duration_secs < 2 ^ 54" "be_elapsed_ms benv < 10 ^ 23" "cs_rtt_ms (be_stats benv) < 10 ^ 23"
  shows "\<exists>m sm. client_run_stream_upload_bench duration_secs payload_bytes target_mbps adaptive True cenv rounds = Some (Inr m)
     \<and> bm_server m = Some sm \<and> sm_packets sm = bm_packets m \<and> sm_bytes sm = bm_bytes m
     \<and> sm_elapsed_ms sm = of_nat (unat duration_secs * 1000)"
proof -
  have "count_stream None True (map Timely (stream_reads rd (unat payload_bytes) q k)) no_counts = Some (Inr (ws_counts s))"
    using framed_counts_agree [OF stream written wire _ _ k] payload by (simp add: unat_eq_0)
  moreover have "report_ok (bench_report_of (lit ''stream-packet-upload'') (unat duration_secs * 1000) payload_bytes target_mbps benv (ws_counts s)) (be_stats benv)"
    using times by (simp add: report_ok_def bench_report_of_def)
  ultimately obtain summary where
    "read_bench_summary_stream (Inr ()) (read_to_end 1024 (concat writes)) = Inr summary"
    "\<exists>sm. parse_server_bench_measurement summary = Some sm \<and> sm_packets sm = ct_packets (ws_counts s)
       \<and> sm_bytes sm = ct_bytes (ws_counts s) \<and> sm_elapsed_ms sm = of_nat (unat duration_secs * 1000)"
    using sent_summary_read [OF _ _ _ rte] served times(1)
    by (fastforce simp: server_run_stream_upload_bench_def report_def bench_report_of_def split: sum.splits)
  then show ?thesis
    by (auto simp: client_run_stream_upload_bench_def opened deadline written finished measured_def timed_out_def
        summary bench_measurement_def)
qed

text \<open>One packet of three bytes, then the deadline.\<close>

definition sample_writes :: "write_round list" where
  "sample_writes =
     [\<lparr>wr_now = 1, wr_closed = False, wr_write = Inr (), wr_raw = Elapsed, wr_env = sample_env\<rparr>,
      \<lparr>wr_now = 20 * nanos, wr_closed = False, wr_write = Inr (), wr_raw = Elapsed, wr_env = sample_env\<rparr>]"

definition sample_client :: "u8 list \<Rightarrow> client_env" where
  "sample_client summary = \<lparr>ce_open_stream = Inr (), ce_started = 0, ce_tx_datagrams = 0, ce_finish = Inr (),
     ce_stopped = None, ce_elapsed = 20 * nanos,
     ce_summary = Timely (Inr (), if length summary \<le> 1024 then Inr summary else Inl (External ''too long''))\<rparr>"

definition sample_bench :: bench_env where
  "sample_bench = \<lparr>be_open_stream = Inr (), be_started = 7, be_max_datagram = None, be_tx_datagrams = 0, be_finish = Inr (),
     be_stopped = None, be_elapsed_ms = 20, be_measured_ms = 20, be_stats = sample_stats,
     be_summary_io = \<lparr>si_open_bi = Inr (), si_write_all = Inr (), si_finish = Inr ()\<rparr>\<rparr>"

theorem stream_upload_bench_agrees_witness:
  "\<exists>summary m sm. client_run_stream_upload_bench 10 3 None False True (sample_client summary) sample_writes = Some (Inr m)
     \<and> bm_server m = Some sm \<and> sm_packets sm = bm_packets m \<and> sm_bytes sm = bm_bytes m"
proof -
  let ?rte = "\<lambda>limit bs. if length bs \<le> limit then Inr bs else Inl (External ''too long'')"
  let ?q = "\<lparr>ws_wire = [], ws_header = [0, 0], ws_counts = no_counts, ws_pacer = pacer_from_optional None (unat (3::usize)) False 0\<rparr>"
  let ?c = "Some (Bail ''connection closed during stream packet upload bench: {reason}'')"
  obtain s where s: "write_stream ?c True (10 * nanos) (replicate (unat (3::usize)) 0) sample_writes ?q = Some (s, Inr ())"
    by (simp add: sample_writes_def write_stream_packet_def pacer_from_optional_def nanos_def Let_def)
  let ?reads = "map Timely (stream_reads seg_read (unat (3::usize)) [ws_wire s] 3)"
  have "count_stream None True ?reads no_counts = Some (Inr (ws_counts s))"
    by (rule framed_counts_agree [OF segments.recv_stream_axioms s]) (simp_all add: sample_writes_def)
  then obtain summary where served: "server_run_stream_upload_bench 10 3 None True sample_bench ?reads = Some ([summary], Inr ())"
    by (auto simp: server_run_stream_upload_bench_def sample_bench_def instant_add_secs_eq nanos_def report_def
        send_bench_summary_def simp del: stream_reads.simps)
  have rte: "read_to_end_spec ?rte" by (simp add: read_to_end_spec_def)
  have env: "ce_started (sample_client summary) = 0" "ce_open_stream (sample_client summary) = Inr ()"
    "finish_stream_with_ack (ce_finish (sample_client summary)) (ce_stopped (sample_client summary)) = Inr ()"
    "ce_summary (sample_client summary) = Timely (Inr (), ?rte 1024 (concat [summary]))"
    by (simp_all add: sample_client_def finish_stream_with_ack_def)
  have start: "instant_add_secs 0 10 = Inr (10 * nanos)" by (simp add: instant_add_secs_eq)
  have "(3::usize) \<noteq> 0" "unat (10::u64) < 2 ^ 54" "be_elapsed_ms sample_bench < 10 ^ 23"
    "cs_rtt_ms (be_stats sample_bench) < 10 ^ 23" "concat [ws_wire s] = ws_wire s" "length sample_writes < 3"
    by (simp_all add: sample_bench_def sample_stats_def sample_writes_def)
  from stream_upload_bench_agrees [OF segments.recv_stream_axioms rte start [folded env(1)] s [folded env(1)] this(5,6)
      served env(2-4) this(1-4)]
  show ?thesis by blast
qed

text \<open>
  The datagram benchmarks count every datagram they sent with its payload, except that the last
  one is left out when the deadline passes while the sender waits for the window.
\<close>

lemma bench_datagram_counts:
  assumes "send_datagrams on_closed deadline payload_bytes rounds
       \<lparr>ss_sent = 0, ss_counts = no_counts, ss_backlog = b, ss_pacer = p\<rparr> = Some (s, r)"
  shows "\<exists>k. ct_packets (ss_counts s) = of_nat k \<and> ct_bytes (ss_counts s) = of_nat (k * payload_bytes)
     \<and> (ss_sent s = k \<or> ss_sent s = Suc k)"
  using send_datagrams_counts [OF assms, of 0] by (auto simp: counted_def no_counts_def)

text \<open>A benchmark ends well on the server only when its summary has been written.\<close>

lemma report_Ok:
  "report d ms n m env c = (writes, Inr ()) \<Longrightarrow>
     writes = [as_bytes (bench_summary (bench_report_of d ms n m env c) (be_stats env))]"
  by (auto simp: report_def send_bench_summary_def split: sum.splits)

lemma server_run_bench_Ok:
  assumes "server_run_bench direction secs n m backlog adaptive env rounds = Some (writes, Inr ())"
  shows "\<exists>ms n' c. writes = [as_bytes (bench_summary (bench_report_of (as_str direction) ms n' m env c) (be_stats env))]"
  using assms
  by (cases direction)
    (auto simp: server_run_bench_def server_run_upload_bench_def server_run_download_bench_def Let_def
      server_run_stream_upload_bench_def server_run_stream_download_bench_def simp del: lit_simps
      split: sum.splits option.splits prod.splits dest!: report_Ok)

text \<open>
  C36: A client with the token can bring the server down: a benchmark request for \<open>2\<^sup>6\<^sup>3\<close> seconds passes
  the server's checks, and the server then panics when it computes the deadline. The release profile
  aborts the process on a panic.
\<close>

theorem long_bench_panics_server:
  assumes "wire_token token" and "64 \<le> payload_bytes" and "payload_bytes \<le> 1452" and "target_mbps \<noteq> Some 0"
    and "be_open_stream env = Inr ()"
  shows "parse_request (auth_request token (Bench direction (2 ^ 63) payload_bytes target_mbps)) =
           Inr (token, Bench direction (2 ^ 63) payload_bytes target_mbps)
     \<and> server_run_bench direction (2 ^ 63) payload_bytes target_mbps backlog adaptive env rounds =
           Some ([], Inl (Panic ''overflow when adding duration to instant''))"
proof -
  have "valid_mode (Bench direction (2 ^ 63) payload_bytes target_mbps)" using assms(2-4) by simp
  moreover have "\<not> n + unat (2 ^ 63 :: u64) < 2 ^ 63" "\<not> n + unat (2 ^ 63 + 1 :: u64) < 2 ^ 63" for n by simp_all
  ultimately show ?thesis
    using auth_request_parsed [OF assms(1)] assms(5)
    by (cases direction)
      (simp_all add: server_run_bench_def server_run_upload_bench_def server_run_download_bench_def
        server_run_stream_upload_bench_def server_run_stream_download_bench_def instant_add_secs_eq instant_overflow_def Let_def)
qed

theorem long_bench_panics_server_witness:
  "parse_request (auth_request (lit ''abcdef'') (Bench Upload (2 ^ 63) 1300 None)) = Inr (lit ''abcdef'', Bench Upload (2 ^ 63) 1300 None)
   \<and> server_run_bench Upload (2 ^ 63) 1300 None 0 False
       \<lparr>be_open_stream = Inr (), be_started = 7, be_max_datagram = None, be_tx_datagrams = 0, be_finish = Inr (),
        be_stopped = None, be_elapsed_ms = 0, be_measured_ms = 0, be_stats = sample_stats,
        be_summary_io = \<lparr>si_open_bi = Inr (), si_write_all = Inr (), si_finish = Inr ()\<rparr>\<rparr>
       \<lparr>rn_datagrams = [], rn_sends = [], rn_reads = [], rn_writes = []\<rparr>
     = Some ([], Inl (Panic ''overflow when adding duration to instant''))"
  by (rule long_bench_panics_server) (simp_all add: wire_token_def is_scalar_def word_le_nat_alt)

end
