(* ===== verification/Crypto.thy ===== *)
theory Crypto
  imports Config
begin

text \<open>
  \<^verbatim>\<open>crates/litevpn-core/src/crypto.rs\<close>: reading the certificate and key files, and the TLS and transport
  settings of the two ends. Files, PEM parsing and the TLS library are outside the program; their
  results are arguments, and the transport settings start from the library's defaults. The lemmas:
  when a certificate list is accepted, the initial packet size, and that the two ends agree on the
  protocol.
\<close>

text \<open>The fields of the transport settings that the code sets.\<close>

record transport =
  tp_max_concurrent_bidi_streams :: nat
  tp_max_concurrent_uni_streams :: nat
  tp_keep_alive_secs :: "nat option"
  tp_max_idle_timeout_secs :: "nat option"
  tp_initial_mtu :: u16
  tp_receive_window :: nat
  tp_stream_receive_window :: nat
  tp_send_window :: nat
  tp_segmentation_offload :: bool
  tp_send_fairness :: bool
  tp_bbr :: bool
  tp_datagram_receive_buffer :: "usize option"
  tp_datagram_send_buffer :: usize

definition tune_transport :: "transport \<Rightarrow> u16 \<Rightarrow> CongestionController \<Rightarrow> transport" where
  "tune_transport transport tun_mtu congestion_controller =
     (let quic_initial_mtu = min (saturating_add tun_mtu 160) 1452;
          t = transport\<lparr>tp_max_concurrent_bidi_streams := 4, tp_max_concurrent_uni_streams := 4,
                tp_keep_alive_secs := Some 5, tp_max_idle_timeout_secs := Some 30,
                tp_initial_mtu := quic_initial_mtu, tp_receive_window := 8 * 1024 * 1024,
                tp_stream_receive_window := 2 * 1024 * 1024, tp_send_window := 8 * 1024 * 1024,
                tp_segmentation_offload := True, tp_send_fairness := False\<rparr>
      in case congestion_controller of
           Cubic \<Rightarrow> t
         | Bbr \<Rightarrow> t\<lparr>tp_bbr := True\<rparr>)"

definition make_transport_config :: "transport \<Rightarrow> usize \<Rightarrow> u16 \<Rightarrow> CongestionController \<Rightarrow> transport" where
  "make_transport_config default_transport datagram_buffer_bytes tun_mtu congestion_controller =
     (tune_transport default_transport tun_mtu congestion_controller)
       \<lparr>tp_datagram_receive_buffer := Some datagram_buffer_bytes,
        tp_datagram_send_buffer := datagram_buffer_bytes\<rparr>"

text \<open>Collecting an iterator of results stops at the first error.\<close>

fun collect_results :: "'a result list \<Rightarrow> 'a list result" where
  "collect_results [] = Inr []"
| "collect_results (r # rs) = bind_res r (\<lambda>x. bind_res (collect_results rs) (\<lambda>xs. Inr (x # xs)))"

definition read_certs :: "(path \<Rightarrow> 'f result) \<Rightarrow> ('f \<Rightarrow> 'c result list) \<Rightarrow> path \<Rightarrow> 'c list result" where
  "read_certs file_open pem_certs p =
     bind_res (context_res ''failed to open {}'' (file_open p)) (\<lambda>reader.
     bind_res (context_res ''failed to parse certificates in {}'' (collect_results (pem_certs reader))) (\<lambda>certs.
     bind_res (bail_if (certs = []) ''no certificates found in {}'') (\<lambda>_.
     Inr certs)))"

definition read_private_key :: "(path \<Rightarrow> 'f result) \<Rightarrow> ('f \<Rightarrow> 'k option result) \<Rightarrow> path \<Rightarrow> 'k result" where
  "read_private_key file_open pem_key p =
     bind_res (context_res ''failed to open {}'' (file_open p)) (\<lambda>reader.
     bind_res (context_res ''failed to parse private key in {}'' (pem_key reader)) (\<lambda>key.
     context_opt ''no private key found in {}'' key))"

record 't quic_config =
  qc_tls :: 't
  qc_alpn :: "u8 list list"
  qc_transport :: transport

text \<open>\<open>single_cert\<close> and \<open>quic_crypto\<close>: what the TLS library makes of the certificate and of the settings.\<close>

definition quic_server_config ::
    "(path \<Rightarrow> 'f result) \<Rightarrow> ('f \<Rightarrow> 'c result list) \<Rightarrow> ('f \<Rightarrow> 'k option result)
     \<Rightarrow> ('c list \<Rightarrow> 'k \<Rightarrow> 't result) \<Rightarrow> ('t \<Rightarrow> u8 list list \<Rightarrow> unit result) \<Rightarrow> transport
     \<Rightarrow> path \<Rightarrow> path \<Rightarrow> usize \<Rightarrow> u16 \<Rightarrow> CongestionController \<Rightarrow> 't quic_config result" where
  "quic_server_config file_open pem_certs pem_key single_cert quic_crypto default_transport
       cert_path key_path datagram_buffer_bytes tun_mtu congestion_controller =
     bind_res (read_certs file_open pem_certs cert_path) (\<lambda>certs.
     bind_res (read_private_key file_open pem_key key_path) (\<lambda>key.
     bind_res (single_cert certs key) (\<lambda>server_crypto.
     bind_res (quic_crypto server_crypto [ALPN]) (\<lambda>_.
     Inr \<lparr>qc_tls = server_crypto, qc_alpn = [ALPN],
          qc_transport = make_transport_config default_transport datagram_buffer_bytes tun_mtu congestion_controller\<rparr>))))"

fun add_roots :: "('r \<Rightarrow> 'c \<Rightarrow> 'r result) \<Rightarrow> 'r \<Rightarrow> 'c list \<Rightarrow> 'r result" where
  "add_roots add_root roots [] = Inr roots"
| "add_roots add_root roots (cert # certs) =
     bind_res (add_root roots cert) (\<lambda>roots. add_roots add_root roots certs)"

definition quic_client_config ::
    "(path \<Rightarrow> 'f result) \<Rightarrow> ('f \<Rightarrow> 'c result list) \<Rightarrow> ('r \<Rightarrow> 'c \<Rightarrow> 'r result) \<Rightarrow> 'r
     \<Rightarrow> ('r \<Rightarrow> u8 list list \<Rightarrow> unit result) \<Rightarrow> transport
     \<Rightarrow> path \<Rightarrow> usize \<Rightarrow> u16 \<Rightarrow> CongestionController \<Rightarrow> 'r quic_config result" where
  "quic_client_config file_open pem_certs add_root empty_roots quic_crypto default_transport
       ca_cert_path datagram_buffer_bytes tun_mtu congestion_controller =
     bind_res (read_certs file_open pem_certs ca_cert_path) (\<lambda>certs.
     bind_res (add_roots add_root empty_roots certs) (\<lambda>roots.
     bind_res (quic_crypto roots [ALPN]) (\<lambda>_.
     Inr \<lparr>qc_tls = roots, qc_alpn = [ALPN],
          qc_transport = make_transport_config default_transport datagram_buffer_bytes tun_mtu congestion_controller\<rparr>)))"

section \<open>Facts\<close>

lemma collect_results_Inr_iff: "collect_results rs = Inr xs \<longleftrightarrow> rs = map Inr xs"
proof (induction rs arbitrary: xs)
  case (Cons r rs)
  then show ?case by (cases r; cases xs) auto
qed auto

lemma read_certs_Inr_iff:
  "read_certs file_open pem_certs p = Inr certs \<longleftrightarrow>
     (\<exists>f. file_open p = Inr f \<and> pem_certs f = map Inr certs \<and> certs \<noteq> [])"
  by (auto simp: read_certs_def collect_results_Inr_iff)

text \<open>The protocol name is the same on both ends, and with equal settings so is the transport.\<close>

lemma ends_agree:
  assumes "quic_server_config fo pc pk sc qs dt cert key buf mtu cc = Inr s"
    and "quic_client_config fo' pc' ar er qc dt ca buf mtu cc = Inr c"
  shows "qc_alpn s = qc_alpn c" "qc_transport s = qc_transport c"
  using assms by (auto simp: quic_server_config_def quic_client_config_def)

text \<open>
  A configuration whose MTU passes validation starts QUIC with packets of at most 1452 bytes that
  have at least 52 bytes of room beyond a full tunnel packet; the addition does not wrap.
\<close>

lemma initial_mtu_bounds:
  assumes "validate_common mtu prefix buffer = Inr ()"
  shows "unat mtu + 52 \<le> unat (tp_initial_mtu (make_transport_config t b mtu cc))
     \<and> unat (tp_initial_mtu (make_transport_config t b mtu cc)) \<le> 1452"
proof -
  have mtu: "unat mtu \<le> 1400"
    using assms by (auto simp: validate_common_def rust_defs word_le_nat_alt not_less)
  have "tp_initial_mtu (make_transport_config t b mtu cc) = min (saturating_add mtu 160) 1452"
    by (cases cc) (simp_all add: make_transport_config_def tune_transport_def Let_def)
  then have "unat (tp_initial_mtu (make_transport_config t b mtu cc)) = min (unat mtu + 160) 1452"
    using mtu by (simp add: min_def word_le_nat_alt unat_saturating_add)
  then show ?thesis using mtu by simp
qed

definition sample_transport :: transport where
  "sample_transport = \<lparr>tp_max_concurrent_bidi_streams = 100, tp_max_concurrent_uni_streams = 100,
     tp_keep_alive_secs = None, tp_max_idle_timeout_secs = Some 30, tp_initial_mtu = 1200,
     tp_receive_window = 0, tp_stream_receive_window = 0, tp_send_window = 0, tp_segmentation_offload = True,
     tp_send_fairness = True, tp_bbr = False, tp_datagram_receive_buffer = None, tp_datagram_send_buffer = 0\<rparr>"

end
