(* ===== verification/Tun.thy ===== *)
theory Tun
  imports Config
begin

text \<open>
  \<^verbatim>\<open>crates/litevpn-core/src/tun.rs\<close>: the options of the TUN device and the settings that \<^verbatim>\<open>create_tun\<close> passes to
  the device builder of the TUN library, in order, on each platform.
\<close>

record TunOptions =
  to_name :: rstr
  to_address :: Ipv4Addr
  to_prefix :: u8
  to_destination :: "Ipv4Addr option"
  to_mtu :: u16
  to_enable_linux_offload :: bool
  to_tx_queue_len :: "u32 option"

datatype target_os = Linux | Macos | Bsd | OtherOs

datatype tun_setting =
    LayerL3
  | SetMtu u16
  | SetIpv4 Ipv4Addr u8 "Ipv4Addr option"
  | SetName rstr
  | PacketInformation bool
  | Offload bool
  | MultiQueue bool
  | TxQueueLen u32
  | AssociateRoute bool
  | Persist bool

definition tun_settings :: "target_os \<Rightarrow> TunOptions \<Rightarrow> tun_setting list" where
  "tun_settings os options =
     [LayerL3, SetMtu (to_mtu options), SetIpv4 (to_address options) (to_prefix options) (to_destination options)]
     @ (if trim (to_name options) \<noteq> [] then [SetName (to_name options)] else [])
     @ (if os \<in> {Linux, Macos, Bsd} then [PacketInformation False] else [])
     @ (if os = Linux
        then [Offload (to_enable_linux_offload options), MultiQueue False]
          @ (case to_tx_queue_len options of None \<Rightarrow> [] | Some n \<Rightarrow> [TxQueueLen n])
        else [])
     @ (if os = Macos then [AssociateRoute True, Persist False] else [])"

definition create_tun :: "(tun_setting list \<Rightarrow> 'd result) \<Rightarrow> target_os \<Rightarrow> TunOptions \<Rightarrow> 'd result" where
  "create_tun build_async os options = build_async (tun_settings os options)"

text \<open>The options the two programs use.\<close>

definition server_tun_options :: "ServerConfig \<Rightarrow> TunOptions" where
  "server_tun_options config =
     \<lparr>to_name = sc_tun_name config, to_address = sc_tun_ip config, to_prefix = sc_tun_prefix config,
      to_destination = Some (sc_client_ip config), to_mtu = sc_mtu config,
      to_enable_linux_offload = sc_enable_linux_offload config, to_tx_queue_len = sc_tx_queue_len config\<rparr>"

definition client_tun_options :: "ClientConfig \<Rightarrow> TunOptions" where
  "client_tun_options config =
     \<lparr>to_name = cc_tun_name config, to_address = cc_client_ip config, to_prefix = cc_tun_prefix config,
      to_destination = Some (cc_server_tun_ip config), to_mtu = cc_mtu config,
      to_enable_linux_offload = False, to_tx_queue_len = None\<rparr>"

text \<open>Every platform that has packet headers on the device switches them off, so packets are plain IP.\<close>

lemma tun_plain_packets: "os \<noteq> OtherOs \<Longrightarrow> PacketInformation False \<in> set (tun_settings os options)"
  by (cases os) (simp_all add: tun_settings_def)

text \<open>A valid server configuration names its device.\<close>

lemma server_tun_named:
  "validate_ServerConfig config = Inr () \<Longrightarrow> SetName (sc_tun_name config) \<in> set (tun_settings os (server_tun_options config))"
  by (auto simp: validate_ServerConfig_def tun_settings_def server_tun_options_def)

end
