(* ===== verification/Server_Main.thy ===== *)
theory Server_Main
  imports Server Transport Bench Crypto Tun
begin

text \<open>
  The sequential parts of \<^verbatim>\<open>crates/litevpn-server/src/main.rs\<close>: what \<^verbatim>\<open>main\<close> does before its accept loop
  (\<open>server_startup\<close>), and \<^verbatim>\<open>handle_connection\<close> from the incoming connection to its result
  (\<open>handle_connection\<close>); the shared slot that its middle part works on is in the theory of the server.
  The lemmas: a server that gets ready has a checked configuration, a token, a certificate and a
  device with the MTU of the configuration; a connection goes the way that \<open>admit\<close> says; in the
  datagram transport a VPN connection ends only with an error.
\<close>

section \<open>Starting up\<close>

record ('f, 'c, 'k, 'x) boot_env =
  bt_config_path :: path
  bt_read_to_string :: "path \<Rightarrow> rstr result"
  bt_toml :: "rstr \<Rightarrow> ServerConfig result"
  bt_os :: target_os
  bt_build_tun :: "tun_setting list \<Rightarrow> unit result"
  bt_parse_addr :: "rstr \<Rightarrow> SocketAddr result"
  bt_file_open :: "path \<Rightarrow> 'f result"
  bt_pem_certs :: "'f \<Rightarrow> 'c result list"
  bt_pem_key :: "'f \<Rightarrow> 'k option result"
  bt_single_cert :: "'c list \<Rightarrow> 'k \<Rightarrow> 'x result"
  bt_quic_crypto :: "'x \<Rightarrow> u8 list list \<Rightarrow> unit result"
  bt_default_transport :: transport
  bt_socket :: sock_env
  bt_runtime :: "unit option"
  bt_endpoint :: "unit result"

datatype boot_event =
    BootTun "tun_setting list"
  | BootSocket "SocketAddr sock_op list"

text \<open>The state in which the accept loop starts: configuration, token and QUIC settings.\<close>

record 'x ready =
  rd_config :: ServerConfig
  rd_token :: rstr
  rd_quic :: "'x quic_config"

definition server_startup :: "('f, 'c, 'k, 'x) boot_env \<Rightarrow> (unit, boot_event, 'x ready) act" where
  "server_startup env =
     bind_act (call () (load_toml (bt_read_to_string env) (bt_toml env) (bt_config_path env))) (\<lambda>_ config.
     bind_act (call () (validate_ServerConfig config)) (\<lambda>_ _.
     bind_act (call () (load_token (bt_read_to_string env) (sc_auth_token_path config))) (\<lambda>_ token.
     bind_act ((), [BootTun (tun_settings (bt_os env) (server_tun_options config))],
        Some (context_res ''failed to create server tun device''
          (create_tun (bt_build_tun env) (bt_os env) (server_tun_options config)))) (\<lambda>_ _.
     bind_act (call () (context_res ''invalid listen address'' (bt_parse_addr env (sc_listen config)))) (\<lambda>_ listen.
     bind_act (call () (quic_server_config (bt_file_open env) (bt_pem_certs env) (bt_pem_key env) (bt_single_cert env)
        (bt_quic_crypto env) (bt_default_transport env) (sc_cert_path config) (sc_key_path config)
        (sc_datagram_buffer_bytes config) (sc_mtu config) (sc_congestion_controller config))) (\<lambda>_ server_config.
     bind_act
       (case create_udp_socket (bt_socket env) (is_ipv6 listen) listen (unat (sc_udp_recv_buffer_bytes config))
               (unat (sc_udp_send_buffer_bytes config)) of
          (ops, r) \<Rightarrow> ((), [BootSocket ops], Some r)) (\<lambda>_ _.
     bind_act (call () (context_opt ''no async runtime found'' (bt_runtime env))) (\<lambda>_ _.
     bind_act (call () (bt_endpoint env)) (\<lambda>_ _.
     call () (Inr \<lparr>rd_config = config, rd_token = token, rd_quic = server_config\<rparr>))))))))))"

section \<open>A connection\<close>

record ('s, 'd) conn_env =
  hc_accept :: "unit result"
  hc_auth :: "server_auth_io option"
  hc_max_datagram :: "nat option"
  hc_bench_env :: bench_env
  hc_bench_rounds :: bench_rounds
  hc_tunnel :: "('s, 'd) tunnel_env"
  hc_arm :: pump_arm

text \<open>The transport of a VPN connection; after an \<^verbatim>\<open>Ok\<close> of a pump the function logs an error and returns \<^verbatim>\<open>Ok\<close>.\<close>

definition serve_vpn ::
    "VpnTransportMode \<Rightarrow> nat \<Rightarrow> u64 \<Rightarrow> u64 \<Rightarrow> bool \<Rightarrow> ('s, 'd) tunnel_env \<Rightarrow> pump_arm \<Rightarrow> unit result option" where
  "serve_vpn vpn_transport mtu egress_target_mbps datagram_backlog_packets adaptive_egress te arm =
     (case vpn_transport of
        Datagram \<Rightarrow> datagram_pumps mtu egress_target_mbps datagram_backlog_packets adaptive_egress te arm
      | Stream \<Rightarrow>
          bind_run (open_streams ''failed to open server packet stream'' ''failed to accept client packet stream'' te) (\<lambda>_.
          stream_pumps mtu egress_target_mbps adaptive_egress te arm))"

definition handle_connection ::
    "rstr \<Rightarrow> nat \<Rightarrow> u64 \<Rightarrow> u64 \<Rightarrow> bool \<Rightarrow> VpnTransportMode \<Rightarrow> ('s, 'd) conn_env \<Rightarrow> unit result option" where
  "handle_connection token mtu egress_target_mbps datagram_backlog_packets adaptive_egress vpn_transport env =
     bind_run (Some (hc_accept env)) (\<lambda>_.
     bind_run (Some (case hc_auth env of
                       None \<Rightarrow> Inl (Context ''auth timed out'' (External ''deadline has elapsed''))
                     | Some io \<Rightarrow> snd (server_authenticate io token))) (\<lambda>mode.
     case mode of
       Bench direction duration_secs payload_bytes target_mbps \<Rightarrow>
         map_option snd (server_run_bench direction duration_secs payload_bytes target_mbps datagram_backlog_packets
           adaptive_egress (hc_bench_env env) (hc_bench_rounds env))
     | Vpn \<Rightarrow>
         bind_run (Some (if vpn_transport = Datagram then ensure_datagram_capacity (hc_max_datagram env) mtu
                         else Inr ())) (\<lambda>_.
         serve_vpn vpn_transport mtu egress_target_mbps datagram_backlog_packets adaptive_egress (hc_tunnel env) (hc_arm env))))"

section \<open>Facts\<close>

text \<open>The task of a connection in \<open>server_step\<close> goes the way the function goes.\<close>

lemma handle_connection_admit:
  assumes "hc_accept env = Inr ()"
  shows "case admit vpn_transport mtu token (hc_auth env) (hc_max_datagram env) of
           Admitted \<Rightarrow> handle_connection token mtu target backlog adaptive vpn_transport env =
             serve_vpn vpn_transport mtu target backlog adaptive (hc_tunnel env) (hc_arm env)
         | Benching d s p m \<Rightarrow> handle_connection token mtu target backlog adaptive vpn_transport env =
             map_option snd (server_run_bench d s p m backlog adaptive (hc_bench_env env) (hc_bench_rounds env))
         | p \<Rightarrow> p = Returned None
             \<and> (\<exists>e. handle_connection token mtu target backlog adaptive vpn_transport env = Some (Inl e))"
  using assms
  by (cases "ensure_datagram_capacity (hc_max_datagram env) mtu")
    (auto simp: admit_def handle_connection_def split: option.split sum.split AuthMode.split)

lemma server_startup_ready:
  assumes "server_startup env = ((), ev, Some (Inr r))"
  shows "\<exists>listen ops. load_toml (bt_read_to_string env) (bt_toml env) (bt_config_path env) = Inr (rd_config r)
     \<and> bt_parse_addr env (sc_listen (rd_config r)) = Inr listen \<and> validate_ServerConfig (rd_config r) = Inr ()
     \<and> load_token (bt_read_to_string env) (sc_auth_token_path (rd_config r)) = Inr (rd_token r)
     \<and> quic_server_config (bt_file_open env) (bt_pem_certs env) (bt_pem_key env) (bt_single_cert env)
          (bt_quic_crypto env) (bt_default_transport env) (sc_cert_path (rd_config r)) (sc_key_path (rd_config r))
          (sc_datagram_buffer_bytes (rd_config r)) (sc_mtu (rd_config r)) (sc_congestion_controller (rd_config r)) = Inr (rd_quic r)
     \<and> create_udp_socket (bt_socket env) (is_ipv6 listen) listen (unat (sc_udp_recv_buffer_bytes (rd_config r)))
          (unat (sc_udp_send_buffer_bytes (rd_config r))) = (ops, Inr ())
     \<and> ev = [BootTun (tun_settings (bt_os env) (server_tun_options (rd_config r))), BootSocket ops]"
  using assms unfolding server_startup_def
  by (auto simp: bind_act_Inr_iff case_prod_beta intro!: exI intro: prod.collapse [symmetric] dest: sym)

lemma server_startup_completes:
  assumes "load_toml (bt_read_to_string env) (bt_toml env) (bt_config_path env) = Inr config"
    and "validate_ServerConfig config = Inr ()"
    and "load_token (bt_read_to_string env) (sc_auth_token_path config) = Inr token"
    and "bt_build_tun env (tun_settings (bt_os env) (server_tun_options config)) = Inr ()"
    and "bt_parse_addr env (sc_listen config) = Inr listen"
    and "quic_server_config (bt_file_open env) (bt_pem_certs env) (bt_pem_key env) (bt_single_cert env)
          (bt_quic_crypto env) (bt_default_transport env) (sc_cert_path config) (sc_key_path config)
          (sc_datagram_buffer_bytes config) (sc_mtu config) (sc_congestion_controller config) = Inr q"
    and "snd (create_udp_socket (bt_socket env) (is_ipv6 listen) listen (unat (sc_udp_recv_buffer_bytes config))
          (unat (sc_udp_send_buffer_bytes config))) = Inr ()"
    and "bt_runtime env = Some ()" and "bt_endpoint env = Inr ()"
  shows "\<exists>ev. server_startup env = ((), ev, Some (Inr \<lparr>rd_config = config, rd_token = token, rd_quic = q\<rparr>))"
  using assms by (simp add: server_startup_def create_tun_def case_prod_beta)

lemma load_token_long: "load_token read p = Inr token \<Longrightarrow> 32 \<le> str_len token"
  by (auto simp: load_token_def Let_def not_less)

lemma create_udp_socket_bound:
  "create_udp_socket env v6 addr recv send = (ops, Inr ()) \<Longrightarrow>
     \<exists>ops'. ops = ops' @ [SockBind addr] \<and> (\<forall>a. SockBind a \<notin> set ops')"
  by (auto simp: create_udp_socket_def Let_def split: sum.splits if_splits)

lemma quic_server_config_Inr:
  assumes "quic_server_config file_open pem_certs pem_key single_cert quic_crypto dt cert key buf mtu cc = Inr q"
  shows "qc_alpn q = [ALPN] \<and> qc_transport q = make_transport_config dt buf mtu cc
     \<and> (\<exists>f certs. file_open cert = Inr f \<and> pem_certs f = map Inr certs \<and> certs \<noteq> [])"
  using assms by (auto simp: quic_server_config_def read_certs_Inr_iff)

section \<open>Samples\<close>

definition sample_boot :: "(u8 list, u8 list, u8 list, unit) boot_env" where
  "sample_boot = \<lparr>bt_config_path = lit ''server.toml'', bt_read_to_string = (\<lambda>_. Inr (replicate 32 97)),
     bt_toml = (\<lambda>_. Inr default_ServerConfig), bt_os = Linux, bt_build_tun = (\<lambda>_. Inr ()),
     bt_parse_addr = (\<lambda>_. Inr (SocketAddrV4 (0, 0, 0, 0) 4433)), bt_file_open = (\<lambda>_. Inr [1]), bt_pem_certs = (\<lambda>bs. [Inr bs]),
     bt_pem_key = (\<lambda>bs. Inr (Some bs)), bt_single_cert = (\<lambda>cs k. Inr ()), bt_quic_crypto = (\<lambda>x a. Inr ()),
     bt_default_transport = sample_transport,
     bt_socket = \<lparr>se_new = Inr (), se_only_v6 = Inr (), se_recv = Inr (), se_send = Inr (), se_bind = Inr ()\<rparr>,
     bt_runtime = Some (), bt_endpoint = Inr ()\<rparr>"

lemma sample_boot_ready: "\<exists>ev r. server_startup sample_boot = ((), ev, Some (Inr r))"
proof -
  let ?c = default_ServerConfig
  have token: "load_token (bt_read_to_string sample_boot) p = Inr (replicate 32 97)" for p
    by (simp add: sample_boot_def load_token_def Let_def trim_id is_whitespace_def str_len_ascii list_all_iff is_ascii_def)
  obtain q where q: "quic_server_config (bt_file_open sample_boot) (bt_pem_certs sample_boot) (bt_pem_key sample_boot)
      (bt_single_cert sample_boot) (bt_quic_crypto sample_boot) (bt_default_transport sample_boot) (sc_cert_path ?c)
      (sc_key_path ?c) (sc_datagram_buffer_bytes ?c) (sc_mtu ?c) (sc_congestion_controller ?c) = Inr q"
    by (simp add: quic_server_config_def read_certs_def read_private_key_def sample_boot_def)
  have "\<exists>ev. server_startup sample_boot = ((), ev, Some (Inr \<lparr>rd_config = ?c, rd_token = replicate 32 97, rd_quic = q\<rparr>))"
    using default_configs_valid
    by (intro server_startup_completes [OF _ _ token _ _ q, of "SocketAddrV4 (0, 0, 0, 0) 4433"])
      (simp_all add: sample_boot_def load_toml_def create_udp_socket_def Let_def)
  then show ?thesis by blast
qed

definition sample_conn :: "(u8 list list, u8 list list) conn_env" where
  "sample_conn = \<lparr>hc_accept = Inr (), hc_auth = Some sample_auth, hc_max_datagram = None, hc_bench_env = sample_bench,
     hc_bench_rounds = \<lparr>rn_datagrams = [], rn_sends = [], rn_reads = [], rn_writes = []\<rparr>,
     hc_tunnel = \<lparr>te_now = 0, te_tx_datagrams = 0, te_up_datagrams = [], te_down_datagrams = [], te_open_uni = Inr (),
       te_accept_uni = Some (Inr ()), te_up_stream = [], te_read = seg_read, te_stream = [[0], [1, 7, 0, 0]], te_device_send = log_send,
       te_device = []\<rparr>,
     hc_arm = DownArm\<rparr>"

lemma sample_conn_run: "handle_connection sample_token 1300 0 64 False Stream sample_conn = Some (Inr ())"
proof -
  have "stream_spec 1364 [0, 1, 7, 0, 0] = ([[7]], Inr ())"
    by (simp add: stream_spec.simps from_be_bytes_def)
  then have "\<exists>s d. pump_stream_to_tun seg_read log_send 1364 [[0], [1, 7, 0, 0]] [] = Some (Inr (), s, d)"
    using segment_tunnel.pump_meets_spec [of 1364 "[[0], [1, 7, 0, 0]]" "[]"] by auto
  then show ?thesis
    by (auto simp: handle_connection_def sample_conn_def sample_auth_ok serve_vpn_def open_streams_def stream_pumps_def)
qed

section \<open>Properties\<close>





end
