(* ===== verification/Keygen.thy ===== *)
theory Keygen
  imports Auth Config
begin

text \<open>
  \<^verbatim>\<open>crates/litevpn-keygen/src/main.rs\<close>: generation of the certificate, its key and the client
  token into three files. The file system is a state (contents and permission bits per path, the
  bits a new file gets, and the faults the operating system may raise); certificate generation, the
  random source and hexadecimal encoding are arguments. The properties connect the program to the
  loading of the token by the other two (\<open>Config.load_token\<close>) and to the handshake.
\<close>

section \<open>The file system\<close>

record file_entry =
  f_content :: "u8 list"
  f_mode :: nat

record fs =
  fs_files :: "path \<rightharpoonup> file_entry"
  fs_default_mode :: nat
  fs_write_fault :: "path \<Rightarrow> error option"
  fs_chmod_fault :: "path \<Rightarrow> error option"
  fs_mkdir_fault :: "path \<Rightarrow> error option"

definition fault :: "error option \<Rightarrow> unit result" where
  "fault e = (case e of None \<Rightarrow> Inr () | Some e \<Rightarrow> Inl e)"

text \<open>
  \<^verbatim>\<open>fs::write\<close> truncates an existing file, which keeps its permission bits, or creates a new one;
  \<^verbatim>\<open>fs::set_permissions\<close> needs the file to be there.
\<close>

definition fs_write :: "path \<Rightarrow> u8 list \<Rightarrow> fs \<Rightarrow> unit result \<times> fs" where
  "fs_write p bs w =
     (case fs_write_fault w p of
        Some e \<Rightarrow> (Inl e, w)
      | None \<Rightarrow>
          (Inr (), w\<lparr>fs_files := (fs_files w)(p \<mapsto>
             \<lparr>f_content = bs,
              f_mode = (case fs_files w p of None \<Rightarrow> fs_default_mode w | Some f \<Rightarrow> f_mode f)\<rparr>)\<rparr>))"

definition fs_set_permissions :: "path \<Rightarrow> nat \<Rightarrow> fs \<Rightarrow> unit result \<times> fs" where
  "fs_set_permissions p mode w =
     (case fs_chmod_fault w p of
        Some e \<Rightarrow> (Inl e, w)
      | None \<Rightarrow>
          (case fs_files w p of
             None \<Rightarrow> (Inl (External ''NotFound''), w)
           | Some f \<Rightarrow> (Inr (), w\<lparr>fs_files := (fs_files w)(p \<mapsto> f\<lparr>f_mode := mode\<rparr>)\<rparr>)))"

definition fs_read_to_string :: "fs \<Rightarrow> path \<Rightarrow> rstr result" where
  "fs_read_to_string w p =
     (case fs_files w p of
        None \<Rightarrow> Inl (External ''NotFound'')
      | Some f \<Rightarrow> (case from_utf8 (f_content f) of
                    None \<Rightarrow> Inl (External ''InvalidData'')
                  | Some s \<Rightarrow> Inr s))"

definition fs_open :: "fs \<Rightarrow> path \<Rightarrow> u8 list result" where
  "fs_open w p = (case fs_files w p of None \<Rightarrow> Inl (External ''NotFound'') | Some f \<Rightarrow> Inr (f_content f))"

definition path_join :: "path \<Rightarrow> rstr \<Rightarrow> path" where
  "path_join dir name = (if dir = [] \<or> last dir = 47 then dir @ name else dir @ 47 # name)"

text \<open>Sequencing of file-system steps: stop at the first error, keeping what was done.\<close>

definition fs_then :: "unit result \<times> fs \<Rightarrow> (fs \<Rightarrow> unit result \<times> fs) \<Rightarrow> unit result \<times> fs" where
  "fs_then r f = (case r of (Inl e, w) \<Rightarrow> (Inl e, w) | (Inr _, w) \<Rightarrow> f w)"

section \<open>The program\<close>

record keygen_args =
  ka_out_dir :: path
  ka_server_name :: rstr
  ka_token_bytes :: nat

definition default_keygen_args :: keygen_args where
  "default_keygen_args =
     \<lparr>ka_out_dir = lit ''config'', ka_server_name = lit ''litevpn.local'', ka_token_bytes = 32\<rparr>"

definition keygen_main ::
    "(rstr list \<Rightarrow> (rstr \<times> rstr) result) \<Rightarrow> (nat \<Rightarrow> u8 list result) \<Rightarrow> (u8 list \<Rightarrow> rstr)
     \<Rightarrow> keygen_args \<Rightarrow> fs \<Rightarrow> unit result \<times> fs" where
  "keygen_main generate_simple_self_signed fill hex_encode args w0 =
     fs_then (context_res ''failed to create {}'' (fault (fs_mkdir_fault w0 (ka_out_dir args))), w0) (\<lambda>w0.
     case generate_simple_self_signed [ka_server_name args] of
       Inl e \<Rightarrow> (Inl e, w0)
     | Inr (cert_pem, key_pem) \<Rightarrow>
         (case fill (ka_token_bytes args) of
            Inl e \<Rightarrow> (Inl e, w0)
          | Inr token_bytes \<Rightarrow>
              (let token = hex_encode token_bytes;
                   cert_path = path_join (ka_out_dir args) (lit ''server.crt'');
                   key_path = path_join (ka_out_dir args) (lit ''server.key'');
                   token_path = path_join (ka_out_dir args) (lit ''client.token'')
               in
               fs_then (fs_write cert_path (as_bytes cert_pem) w0) (\<lambda>w1.
               fs_then (fs_write key_path (as_bytes key_pem) w1) (\<lambda>w2.
               fs_then (fs_write token_path (as_bytes (token @ [10])) w2) (\<lambda>w3.
               fs_then (fs_set_permissions key_path 384 w3) (\<lambda>w4.
               fs_set_permissions token_path 384 w4)))))))"

text \<open>384 is the octal 600 of the source.\<close>

definition cert_path_of :: "keygen_args \<Rightarrow> path" where
  "cert_path_of args = path_join (ka_out_dir args) (lit ''server.crt'')"

definition key_path_of :: "keygen_args \<Rightarrow> path" where
  "key_path_of args = path_join (ka_out_dir args) (lit ''server.key'')"

definition token_path_of :: "keygen_args \<Rightarrow> path" where
  "token_path_of args = path_join (ka_out_dir args) (lit ''client.token'')"

lemma path_join_inj [simp]: "path_join d a = path_join d b \<longleftrightarrow> a = b"
  by (auto simp: path_join_def)

lemma keygen_paths_distinct:
  "cert_path_of args \<noteq> key_path_of args" "cert_path_of args \<noteq> token_path_of args"
  "key_path_of args \<noteq> token_path_of args"
  by (simp_all add: cert_path_of_def key_path_of_def token_path_of_def)

lemma fs_write_Inr:
  "fs_write p bs w = (Inr u, w') \<Longrightarrow>
     fs_files w' = (fs_files w)(p \<mapsto> \<lparr>f_content = bs,
       f_mode = (case fs_files w p of None \<Rightarrow> fs_default_mode w | Some f \<Rightarrow> f_mode f)\<rparr>)"
  by (auto simp: fs_write_def split: option.splits)

lemma fs_set_permissions_Inr:
  "fs_set_permissions p mode w = (Inr u, w') \<Longrightarrow>
     \<exists>f. fs_files w p = Some f \<and> fs_files w' = (fs_files w)(p \<mapsto> f\<lparr>f_mode := mode\<rparr>)"
  by (auto simp: fs_set_permissions_def split: option.splits)

lemma fs_then_Inr:
  "fs_then r f = (Inr u, w') \<longleftrightarrow> (\<exists>v w. r = (Inr v, w) \<and> f w = (Inr u, w'))"
  by (auto simp: fs_then_def split: prod.splits sum.splits)

lemma keygen_main_Inr:
  assumes "keygen_main gen fill hex args w0 = (Inr (), w)"
  obtains cert key bytes where "fill (ka_token_bytes args) = Inr bytes" "gen [ka_server_name args] = Inr (cert, key)"
    "map_option f_content (fs_files w (cert_path_of args)) = Some (as_bytes cert)"
    "fs_files w (key_path_of args) = Some \<lparr>f_content = as_bytes key, f_mode = 384\<rparr>"
    "fs_files w (token_path_of args) = Some \<lparr>f_content = as_bytes (hex bytes @ [10]), f_mode = 384\<rparr>"
    "\<forall>p. p \<notin> {cert_path_of args, key_path_of args, token_path_of args} \<longrightarrow> fs_files w p = fs_files w0 p"
proof -
  from assms obtain cert key bytes w1 w2 w3 w4 where
    b: "fill (ka_token_bytes args) = Inr bytes" "gen [ka_server_name args] = Inr (cert, key)"
    and w: "fs_write (cert_path_of args) (as_bytes cert) w0 = (Inr (), w1)"
      "fs_write (key_path_of args) (as_bytes key) w1 = (Inr (), w2)"
      "fs_write (token_path_of args) (as_bytes (hex bytes @ [10])) w2 = (Inr (), w3)"
      "fs_set_permissions (key_path_of args) 384 w3 = (Inr (), w4)"
      "fs_set_permissions (token_path_of args) 384 w4 = (Inr (), w)"
    by (auto simp: keygen_main_def Let_def fs_then_Inr cert_path_of_def key_path_of_def token_path_of_def
        simp del: as_bytes_append split: sum.splits prod.splits)
  note files = fs_write_Inr [OF w(1)] fs_write_Inr [OF w(2)] fs_write_Inr [OF w(3)]
  from fs_set_permissions_Inr [OF w(4)] fs_set_permissions_Inr [OF w(5)] b keygen_paths_distinct [of args]
  show thesis
    by (intro that) (auto simp: files simp del: as_bytes_append)
qed

text \<open>
  \<^verbatim>\<open>getrandom::fill\<close> fills the buffer it is given; \<^verbatim>\<open>hex::encode\<close> writes two of the characters
  0-9a-f per byte.
\<close>

definition is_hex :: "rchar \<Rightarrow> bool" where
  "is_hex c \<longleftrightarrow> (48 \<le> c \<and> c \<le> 57) \<or> (97 \<le> c \<and> c \<le> 102)"

definition fill_spec :: "(nat \<Rightarrow> u8 list result) \<Rightarrow> bool" where
  "fill_spec fill \<longleftrightarrow> (\<forall>n bs. fill n = Inr bs \<longrightarrow> length bs = n)"

definition hex_spec :: "(u8 list \<Rightarrow> rstr) \<Rightarrow> bool" where
  "hex_spec hex_encode \<longleftrightarrow> (\<forall>bs. length (hex_encode bs) = 2 * length bs \<and> list_all is_hex (hex_encode bs))"

lemma hex_text:
  assumes "list_all is_hex s"
  shows "list_all is_ascii s" "\<forall>c \<in> set s. \<not> is_whitespace c" "10 \<notin> set s" "13 \<notin> set s"
  using assms by (auto simp: list_all_iff is_hex_def is_ascii_def is_whitespace_def)

lemma trim_hex_line: "list_all is_hex s \<Longrightarrow> trim (s @ [10]) = s"
proof -
  assume h: "list_all is_hex s"
  have "trim (s @ [10]) = trim s" by (rule trim_append_ws) simp
  also have "\<dots> = s" by (rule trim_id) (use hex_text(2) [OF h] in auto)
  finally show ?thesis .
qed

lemma load_hex_token:
  assumes "fs_files w p = Some \<lparr>f_content = as_bytes (s @ [10]), f_mode = m\<rparr>" and "list_all is_hex s"
  shows "load_token (fs_read_to_string w) p =
     (if length s < 32 then Inl (Bail ''token in {} is too short; run litevpn-keygen'') else Inr s)"
proof -
  have "list_all is_scalar (s @ [10])"
    using assms(2) by (auto intro: list_all_ascii_scalar hex_text(1) simp: is_scalar_def)
  then have "fs_read_to_string w p = Inr (s @ [10])"
    using assms(1) by (simp add: fs_read_to_string_def del: as_bytes_append)
  then show ?thesis
    using assms(2) by (simp add: load_token_def trim_hex_line str_len_ascii hex_text(1))
qed

lemma hex_wire_token: "list_all is_hex s \<Longrightarrow> s \<noteq> [] \<Longrightarrow> wire_token s"
  using hex_text [of s] by (auto simp: wire_token_def list_all_ascii_scalar dest: last_in_set)

lemma keygen_result:
  assumes run: "keygen_main gen fill hex args w0 = (Inr (), w)"
    and specs: "fill_spec fill" "hex_spec hex"
  shows "\<exists>token. length token = 2 * ka_token_bytes args \<and> list_all is_hex token
     \<and> load_token (fs_read_to_string w) (token_path_of args) =
         (if ka_token_bytes args < 16 then Inl (Bail ''token in {} is too short; run litevpn-keygen'')
          else Inr token)
     \<and> map_option f_mode (fs_files w (key_path_of args)) = Some 384
     \<and> map_option f_mode (fs_files w (token_path_of args)) = Some 384"
proof -
  from run obtain bytes key where b: "fill (ka_token_bytes args) = Inr bytes"
    and f: "fs_files w (key_path_of args) = Some \<lparr>f_content = as_bytes key, f_mode = 384\<rparr>"
      "fs_files w (token_path_of args) = Some \<lparr>f_content = as_bytes (hex bytes @ [10]), f_mode = 384\<rparr>"
    by (rule keygen_main_Inr)
  have len: "length (hex bytes) = 2 * ka_token_bytes args" and h: "list_all is_hex (hex bytes)"
    using specs b by (auto simp: fill_spec_def hex_spec_def)
  from load_hex_token [OF f(2) h] len h f show ?thesis
    by (intro exI [of _ "hex bytes"]) auto
qed

text \<open>
  C37: After a successful run the private key and the token are readable by their owner only, and the
  token file loads back in the client and the server as the hexadecimal token, one line of twice
  \<^verbatim>\<open>--token-bytes\<close> characters, provided at least 16 bytes were asked for; with fewer, the file that
  was just written is refused as too short.
\<close>

theorem keygen_token_loads:
  assumes run: "keygen_main gen fill hex args w0 = (Inr (), w)"
    and specs: "fill_spec fill" "hex_spec hex"
  shows "\<exists>token. length token = 2 * ka_token_bytes args \<and> list_all is_hex token
     \<and> load_token (fs_read_to_string w) (token_path_of args) =
         (if ka_token_bytes args < 16 then Inl (Bail ''token in {} is too short; run litevpn-keygen'')
          else Inr token)
     \<and> map_option f_mode (fs_files w (key_path_of args)) = Some 384
     \<and> map_option f_mode (fs_files w (token_path_of args)) = Some 384"
  using assms by (rule keygen_result)

text \<open>A file system without files or faults, and simple stand-ins for the three crates.\<close>

definition empty_fs :: fs where
  "empty_fs = \<lparr>fs_files = Map.empty, fs_default_mode = 420, fs_write_fault = (\<lambda>_. None),
     fs_chmod_fault = (\<lambda>_. None), fs_mkdir_fault = (\<lambda>_. None)\<rparr>"

theorem keygen_token_loads_witness:
  "\<exists>w token. keygen_main (\<lambda>_. Inr (lit ''C'', lit ''K'')) (\<lambda>n. Inr (replicate n 0))
       (\<lambda>bs. replicate (2 * length bs) 48) default_keygen_args empty_fs = (Inr (), w)
     \<and> length token = 64 \<and> load_token (fs_read_to_string w) (token_path_of default_keygen_args) = Inr token"
proof -
  define r where "r = keygen_main (\<lambda>_. Inr (lit ''C'', lit ''K'')) (\<lambda>n. Inr (replicate n 0))
       (\<lambda>bs. replicate (2 * length bs) 48) default_keygen_args empty_fs"
  have "fst r = Inr ()"
    by (simp add: r_def keygen_main_def empty_fs_def fs_then_def fs_write_def fs_set_permissions_def fault_def
        Let_def)
  then obtain w where run: "r = (Inr (), w)" by (cases r) auto
  have specs: "fill_spec (\<lambda>n. Inr (replicate n 0))" "hex_spec (\<lambda>bs. replicate (2 * length bs) 48)"
    by (auto simp: fill_spec_def hex_spec_def list_all_iff is_hex_def)
  from keygen_token_loads [OF run [unfolded r_def] specs] show ?thesis
    using run unfolding r_def by (auto simp: default_keygen_args_def)
qed

text \<open>
  C38: The secrets are written before their permissions are narrowed: when narrowing the key's
  permissions fails, the program reports the error and leaves the private key and the token on disk
  with the permissions new files get.
\<close>

theorem keygen_chmod_failure_leaves_secrets:
  assumes "fs_chmod_fault w0 (key_path_of args) = Some e"
    and "fs_files w0 = Map.empty" and "\<And>p. fs_write_fault w0 p = None" and "\<And>p. fs_mkdir_fault w0 p = None"
    and "gen [ka_server_name args] = Inr (cert, key)" and "fill (ka_token_bytes args) = Inr bytes"
  shows "\<exists>w. keygen_main gen fill hex args w0 = (Inl e, w)
     \<and> fs_files w (key_path_of args) = Some \<lparr>f_content = as_bytes key, f_mode = fs_default_mode w0\<rparr>
     \<and> fs_files w (token_path_of args)
         = Some \<lparr>f_content = as_bytes (hex bytes @ [10]), f_mode = fs_default_mode w0\<rparr>"
  using assms keygen_paths_distinct [of args]
  by (simp add: keygen_main_def fs_then_def fs_write_def fs_set_permissions_def fault_def Let_def
      key_path_of_def token_path_of_def del: as_bytes_append)

theorem keygen_chmod_failure_leaves_secrets_witness:
  "\<exists>w. keygen_main (\<lambda>_. Inr (lit ''C'', lit ''K'')) (\<lambda>n. Inr (replicate n 0))
       (\<lambda>bs. replicate (2 * length bs) 48) default_keygen_args
       (empty_fs\<lparr>fs_chmod_fault := (\<lambda>_. Some (External ''EPERM''))\<rparr>) = (Inl (External ''EPERM''), w)
     \<and> map_option f_mode (fs_files w (key_path_of default_keygen_args)) = Some 420"
  using keygen_chmod_failure_leaves_secrets
    [of "empty_fs\<lparr>fs_chmod_fault := (\<lambda>_. Some (External ''EPERM''))\<rparr>" default_keygen_args
        "External ''EPERM''" "\<lambda>_. Inr (lit ''C'', lit ''K'')" "lit ''C''" "lit ''K''"
        "\<lambda>n. Inr (replicate n 0)" "replicate 32 0" "\<lambda>bs. replicate (2 * length bs) 48"]
  by (auto simp: empty_fs_def default_keygen_args_def)

end
