(* ===== verification/Macos_Routes.thy ===== *)
theory Macos_Routes
  imports Config
begin

text \<open>
  \<^verbatim>\<open>crates/litevpn-client/src/macos_routes.rs\<close>: the guard that installs the split default routes and takes
  them away again. The commands \<^verbatim>\<open>route\<close> and \<^verbatim>\<open>netstat\<close> are outside the program: \<open>exec\<close> runs \<^verbatim>\<open>route\<close> with the
  arguments that the code passes, on a state whose routing table is \<open>table\<close>, and \<open>route_spec\<close> says what
  the manual promises of it. The lemmas: whatever step of the installation fails, and after a
  successful one has been cleaned up, the table is what it was; the guard cleans up once; an address
  survives printing and parsing.
\<close>

section \<open>Addresses as text\<close>

definition ip_text :: "Ipv4Addr \<Rightarrow> rstr" where
  "ip_text ip =
     (case ip of (a, b, c, d) \<Rightarrow>
        dec (unat a) @ 46 # dec (unat b) @ 46 # dec (unat c) @ 46 # dec (unat d))"

fun split_dot :: "rstr \<Rightarrow> rstr \<Rightarrow> rstr list" where
  "split_dot cur [] = [rev cur]"
| "split_dot cur (c # cs) = (if c = 46 then rev cur # split_dot [] cs else split_dot (c # cur) cs)"

text \<open>An octet: one to three digits, no leading zero, at most 255.\<close>

definition parse_octet :: "rstr \<Rightarrow> u8 option" where
  "parse_octet s =
     (if s = [] \<or> length s > 3 \<or> \<not> list_all is_digit s \<or> (length s > 1 \<and> hd s = 48) then None
      else map_option of_nat (parse_digits 255 0 s))"

definition parse_ipv4 :: "rstr \<Rightarrow> Ipv4Addr option" where
  "parse_ipv4 s =
     (case map parse_octet (split_dot [] s) of
        [Some a, Some b, Some c, Some d] \<Rightarrow> Some (a, b, c, d)
      | _ \<Rightarrow> None)"

fun contains :: "rstr \<Rightarrow> rstr \<Rightarrow> bool" where
  "contains pat [] \<longleftrightarrow> pat = []"
| "contains pat (c # cs) \<longleftrightarrow> take (length pat) (c # cs) = pat \<or> contains pat cs"

section \<open>Running the commands\<close>

text \<open>\<open>None\<close>: the command could not be started. The texts are the lossy decodings.\<close>

record cmd_output =
  co_success :: bool
  co_stdout :: rstr
  co_stderr :: rstr

type_synonym 't route_exec = "'t \<Rightarrow> rstr list \<Rightarrow> cmd_output option \<times> 't"

definition run_route :: "'t route_exec \<Rightarrow> rstr list \<Rightarrow> 't \<Rightarrow> 't \<times> unit result" where
  "run_route exec args t =
     (case exec t args of
        (None, t') \<Rightarrow> (t', Inl (Context ''failed to run route {}'' (External ''route'')))
      | (Some output, t') \<Rightarrow>
          (t', if co_success output then Inr ()
               else if contains (lit ''File exists'') (co_stderr output) then Inr ()
               else Inl (Bail ''route {} failed: {}'')))"

definition delete_route :: "'t route_exec \<Rightarrow> rstr list \<Rightarrow> 't \<Rightarrow> 't \<times> bool" where
  "delete_route exec args t =
     (case exec t args of
        (None, t') \<Rightarrow> (t', False)
      | (Some output, t') \<Rightarrow>
          (t', co_success output \<or> contains (lit ''not in table'') (co_stderr output)))"

definition delete_args :: "string \<Rightarrow> rstr \<Rightarrow> rstr list" where
  "delete_args kind dst = [lit ''-n'', lit ''delete'', lit kind, dst]"

definition add_args :: "string \<Rightarrow> rstr \<Rightarrow> rstr \<Rightarrow> rstr list" where
  "add_args kind dst gateway = [lit ''-n'', lit ''add'', lit kind, dst, gateway]"

definition cleanup_routes :: "'t route_exec \<Rightarrow> Ipv4Addr \<Rightarrow> 't \<Rightarrow> 't \<times> bool" where
  "cleanup_routes exec server_ip t =
     (let (t1, ok1) = delete_route exec (delete_args ''-net'' (lit ''0.0.0.0/1'')) t;
          (t2, ok2) = delete_route exec (delete_args ''-net'' (lit ''128.0.0.0/1'')) t1;
          (t3, ok3) = delete_route exec (delete_args ''-host'' (ip_text server_ip)) t2
      in (t3, ok1 \<and> ok2 \<and> ok3))"

definition is_litevpn_route_destination :: "rstr \<Rightarrow> Ipv4Addr \<Rightarrow> bool" where
  "is_litevpn_route_destination destination server_ip \<longleftrightarrow>
     destination \<in> {lit ''0/1'', lit ''0.0.0.0/1'', lit ''128.0/1'', lit ''128.0.0.0/1''}
     \<or> destination = ip_text server_ip \<or> destination = ip_text server_ip @ lit ''/32''"

definition stale_routes_present :: "cmd_output option \<Rightarrow> Ipv4Addr \<Rightarrow> bool result" where
  "stale_routes_present netstat server_ip =
     (case netstat of
        None \<Rightarrow> Inl (Context ''failed to run netstat -rn -f inet'' (External ''netstat''))
      | Some output \<Rightarrow>
          if \<not> co_success output then Inl (Bail ''netstat -rn -f inet failed'')
          else Inr (list_ex (\<lambda>line.
            case split_whitespace line of
              [] \<Rightarrow> False
            | destination # _ \<Rightarrow> is_litevpn_route_destination destination server_ip) (lines (co_stdout output))))"

text \<open>\<^verbatim>\<open>default_gateway\<close>: the first line that starts with \<^verbatim>\<open>gateway:\<close> decides.\<close>

fun gateway_of_lines :: "rstr list \<Rightarrow> Ipv4Addr result" where
  "gateway_of_lines [] = Inl (Bail ''default gateway not found'')"
| "gateway_of_lines (line # rest) =
     (case strip_prefix (lit ''gateway:'') (trim line) of
        None \<Rightarrow> gateway_of_lines rest
      | Some value \<Rightarrow> context_opt ''failed to parse gateway'' (parse_ipv4 (trim value)))"

definition default_gateway :: "cmd_output option \<Rightarrow> Ipv4Addr result" where
  "default_gateway route_get =
     (case route_get of
        None \<Rightarrow> Inl (Context ''failed to run route -n get default'' (External ''route''))
      | Some output \<Rightarrow>
          if \<not> co_success output then Inl (Bail ''route -n get default failed'')
          else gateway_of_lines (lines (co_stdout output)))"

section \<open>The guard\<close>

record RouteGuard =
  rg_server_ip :: Ipv4Addr
  rg_gateway :: Ipv4Addr
  rg_installed :: bool

text \<open>The server's address; \<open>None\<close> for IPv6.\<close>

definition cleanup_stale ::
    "'t route_exec \<Rightarrow> cmd_output option \<Rightarrow> Ipv4Addr option \<Rightarrow> 't \<Rightarrow> 't \<times> unit result" where
  "cleanup_stale exec netstat server_addr t =
     (case server_addr of
        None \<Rightarrow> (t, Inl (Bail ''automatic macOS routes require an IPv4 server''))
      | Some server_ip \<Rightarrow>
          (case stale_routes_present netstat server_ip of
             Inl e \<Rightarrow> (t, Inl e)
           | Inr False \<Rightarrow> (t, Inr ())
           | Inr True \<Rightarrow>
               (case cleanup_routes exec server_ip t of
                  (t', ok) \<Rightarrow>
                    (t', bail_if (\<not> ok)
                       ''failed to remove one or more stale macOS routes; rerun with sudo or use --no-routes''))))"

fun run_routes :: "'t route_exec \<Rightarrow> rstr list list \<Rightarrow> 't \<Rightarrow> 't \<times> unit result" where
  "run_routes exec [] t = (t, Inr ())"
| "run_routes exec (args # rest) t =
     (case run_route exec args t of
        (t', Inl e) \<Rightarrow> (t', Inl e)
      | (t', Inr _) \<Rightarrow> run_routes exec rest t')"

definition route_install ::
    "'t route_exec \<Rightarrow> cmd_output option \<Rightarrow> Ipv4Addr option \<Rightarrow> Ipv4Addr \<Rightarrow> 't \<Rightarrow> 't \<times> RouteGuard result" where
  "route_install exec route_get server_addr vpn_gateway t =
     (case server_addr of
        None \<Rightarrow> (t, Inl (Bail ''automatic macOS routes require an IPv4 server''))
      | Some server_ip \<Rightarrow>
          (case default_gateway route_get of
             Inl e \<Rightarrow> (t, Inl e)
           | Inr gateway \<Rightarrow>
               (case run_routes exec
                       [add_args ''-host'' (ip_text server_ip) (ip_text gateway),
                        add_args ''-net'' (lit ''0.0.0.0/1'') (ip_text vpn_gateway),
                        add_args ''-net'' (lit ''128.0.0.0/1'') (ip_text vpn_gateway)]
                       (fst (cleanup_routes exec server_ip t)) of
                  (t', Inl e) \<Rightarrow> (fst (cleanup_routes exec server_ip t'), Inl e)
                | (t', Inr _) \<Rightarrow>
                    (t', Inr \<lparr>rg_server_ip = server_ip, rg_gateway = gateway, rg_installed = True\<rparr>))))"

definition route_cleanup :: "'t route_exec \<Rightarrow> RouteGuard \<Rightarrow> 't \<Rightarrow> 't \<times> RouteGuard" where
  "route_cleanup exec g t =
     (if \<not> rg_installed g then (t, g)
      else (fst (cleanup_routes exec (rg_server_ip g) t), g\<lparr>rg_installed := False\<rparr>))"

text \<open>\<^verbatim>\<open>Drop\<close> cleans up; afterwards the guard is gone.\<close>

definition route_drop :: "'t route_exec \<Rightarrow> RouteGuard \<Rightarrow> 't \<Rightarrow> 't" where
  "route_drop exec g t = fst (route_cleanup exec g t)"

section \<open>What the route command does\<close>

type_synonym route_table = "(rstr \<times> rstr) \<Rightarrow> rstr option"

definition route_spec :: "'t route_exec \<Rightarrow> ('t \<Rightarrow> route_table) \<Rightarrow> bool" where
  "route_spec exec table \<longleftrightarrow>
     (\<forall>t kind dst gateway. \<exists>out t'. exec t (add_args kind dst gateway) = (out, t')
        \<and> (case out of
             None \<Rightarrow> table t' = table t
           | Some output \<Rightarrow>
               table t' = (if co_success output then (table t)((lit kind, dst) \<mapsto> gateway) else table t)
               \<and> (contains (lit ''File exists'') (co_stderr output) \<longrightarrow> co_success output \<or> table t (lit kind, dst) \<noteq> None)))
     \<and> (\<forall>t kind dst. \<exists>output t'. exec t (delete_args kind dst) = (Some output, t')
        \<and> (co_success output \<or> contains (lit ''not in table'') (co_stderr output))
        \<and> table t' = (table t)((lit kind, dst) := None))"

definition without_routes :: "Ipv4Addr \<Rightarrow> route_table \<Rightarrow> route_table" where
  "without_routes server_ip tab =
     tab((lit ''-net'', lit ''0.0.0.0/1'') := None, (lit ''-net'', lit ''128.0.0.0/1'') := None,
         (lit ''-host'', ip_text server_ip) := None)"

lemma delete_route_spec:
  assumes "route_spec exec table"
  shows "\<exists>t'. delete_route exec (delete_args kind dst) t = (t', True) \<and> table t' = (table t)((lit kind, dst) := None)"
proof -
  from assms obtain out t' where "exec t (delete_args kind dst) = (Some out, t')"
    "co_success out \<or> contains (lit ''not in table'') (co_stderr out)"
    "table t' = (table t)((lit kind, dst) := None)"
    unfolding route_spec_def by blast
  then show ?thesis by (auto simp: delete_route_def simp del: lit_simps)
qed

lemma cleanup_routes_spec:
  assumes "route_spec exec table"
  shows "\<exists>t'. cleanup_routes exec server_ip t = (t', True) \<and> table t' = without_routes server_ip (table t)"
proof -
  obtain t1 where 1: "delete_route exec (delete_args ''-net'' (lit ''0.0.0.0/1'')) t = (t1, True)"
    "table t1 = (table t)((lit ''-net'', lit ''0.0.0.0/1'') := None)" using delete_route_spec [OF assms] by blast
  obtain t2 where 2: "delete_route exec (delete_args ''-net'' (lit ''128.0.0.0/1'')) t1 = (t2, True)"
    "table t2 = (table t1)((lit ''-net'', lit ''128.0.0.0/1'') := None)" using delete_route_spec [OF assms] by blast
  obtain t3 where 3: "delete_route exec (delete_args ''-host'' (ip_text server_ip)) t2 = (t3, True)"
    "table t3 = (table t2)((lit ''-host'', ip_text server_ip) := None)" using delete_route_spec [OF assms] by blast
  from 1 2 3 show ?thesis by (simp add: cleanup_routes_def without_routes_def del: lit_simps)
qed

text \<open>Adding a route that is not there either puts it there or leaves the table alone and fails.\<close>

lemma run_route_spec:
  assumes "route_spec exec table" and "run_route exec (add_args kind dst gateway) t = (t', r)"
  shows "table t' = (table t)((lit kind, dst) \<mapsto> gateway) \<or> table t' = table t"
    "r = Inr () \<Longrightarrow> table t (lit kind, dst) = None \<Longrightarrow> table t' = (table t)((lit kind, dst) \<mapsto> gateway)"
proof -
  from assms(1) obtain out t1 where e: "exec t (add_args kind dst gateway) = (out, t1)"
    and s: "case out of
             None \<Rightarrow> table t1 = table t
           | Some output \<Rightarrow>
               table t1 = (if co_success output then (table t)((lit kind, dst) \<mapsto> gateway) else table t)
               \<and> (contains (lit ''File exists'') (co_stderr output) \<longrightarrow> co_success output \<or> table t (lit kind, dst) \<noteq> None)"
    unfolding route_spec_def by blast
  then show "table t' = (table t)((lit kind, dst) \<mapsto> gateway) \<or> table t' = table t"
    "r = Inr () \<Longrightarrow> table t (lit kind, dst) = None \<Longrightarrow> table t' = (table t)((lit kind, dst) \<mapsto> gateway)"
    using assms(2) by (auto simp: run_route_def simp del: lit_simps split: option.splits if_splits)
qed

definition split_routes :: "Ipv4Addr \<Rightarrow> Ipv4Addr \<Rightarrow> Ipv4Addr \<Rightarrow> route_table \<Rightarrow> route_table" where
  "split_routes server_ip gateway vpn_gateway tab =
     tab((lit ''-host'', ip_text server_ip) \<mapsto> ip_text gateway,
         (lit ''-net'', lit ''0.0.0.0/1'') \<mapsto> ip_text vpn_gateway,
         (lit ''-net'', lit ''128.0.0.0/1'') \<mapsto> ip_text vpn_gateway)"

lemma route_keys: "lit ''-host'' \<noteq> lit ''-net''" "lit ''0.0.0.0/1'' \<noteq> lit ''128.0.0.0/1''"
  by simp_all

lemma without_none:
  "without_routes ip tab (lit ''-host'', ip_text ip) = None"
  "without_routes ip tab (lit ''-net'', lit ''0.0.0.0/1'') = None"
  "without_routes ip tab (lit ''-net'', lit ''128.0.0.0/1'') = None"
  by (simp_all add: without_routes_def del: lit_simps)

lemma without_split [simp]:
  "without_routes ip (split_routes ip g v tab) = without_routes ip tab"
  "without_routes ip (without_routes ip tab) = without_routes ip tab"
  by (auto simp: without_routes_def split_routes_def fun_eq_iff simp del: lit_simps)

lemma without_upd [simp]:
  "without_routes ip (tab((lit ''-host'', ip_text ip) := x)) = without_routes ip tab"
  "without_routes ip (tab((lit ''-net'', lit ''0.0.0.0/1'') := x)) = without_routes ip tab"
  "without_routes ip (tab((lit ''-net'', lit ''128.0.0.0/1'') := x)) = without_routes ip tab"
  by (auto simp: without_routes_def fun_eq_iff simp del: lit_simps)

lemma add_routes_spec:
  assumes spec: "route_spec exec table" and clean: "without_routes ip (table t) = table t"
    and run: "run_routes exec
       [add_args ''-host'' (ip_text ip) g, add_args ''-net'' (lit ''0.0.0.0/1'') v, add_args ''-net'' (lit ''128.0.0.0/1'') v] t = (t', r)"
  shows "without_routes ip (table t') = table t"
    "r = Inr () \<Longrightarrow> table t' = (table t)((lit ''-host'', ip_text ip) \<mapsto> g,
         (lit ''-net'', lit ''0.0.0.0/1'') \<mapsto> v, (lit ''-net'', lit ''128.0.0.0/1'') \<mapsto> v)"
proof -
  have free: "table t (lit ''-host'', ip_text ip) = None" "table t (lit ''-net'', lit ''0.0.0.0/1'') = None"
    "table t (lit ''-net'', lit ''128.0.0.0/1'') = None"
    by (subst clean [symmetric], simp add: without_none del: lit_simps)+
  obtain t1 r1 where 1: "run_route exec (add_args ''-host'' (ip_text ip) g) t = (t1, r1)" by force
  obtain t2 r2 where 2: "run_route exec (add_args ''-net'' (lit ''0.0.0.0/1'') v) t1 = (t2, r2)" by force
  obtain t3 r3 where 3: "run_route exec (add_args ''-net'' (lit ''128.0.0.0/1'') v) t2 = (t3, r3)" by force
  note s = run_route_spec [OF spec 1] run_route_spec [OF spec 2] run_route_spec [OF spec 3]
  have w: "without_routes ip (table t1) = table t" "without_routes ip (table t2) = table t" "without_routes ip (table t3) = table t"
    using s(1,3,5) clean by (metis without_upd)+
  then show "without_routes ip (table t') = table t"
    using run 1 2 3 by (auto simp del: lit_simps split: sum.splits prod.splits)
  show "table t' = (table t)((lit ''-host'', ip_text ip) \<mapsto> g,
         (lit ''-net'', lit ''0.0.0.0/1'') \<mapsto> v, (lit ''-net'', lit ''128.0.0.0/1'') \<mapsto> v)" if "r = Inr ()"
    using run 1 2 3 that s(2,4,6) free route_keys
    by (auto simp del: lit_simps split: sum.splits prod.splits)
qed

section \<open>The life of a guard\<close>

lemma route_install_table:
  assumes "route_spec exec table"
    and "route_install exec route_get (Some server_ip) vpn_gateway t = (t', r)"
  shows "case r of
           Inl e \<Rightarrow> table t' = table t \<or> table t' = without_routes server_ip (table t)
         | Inr g \<Rightarrow> table t' = split_routes server_ip (rg_gateway g) vpn_gateway (without_routes server_ip (table t))
             \<and> rg_installed g \<and> table (route_drop exec g t') = without_routes server_ip (table t)"
proof (cases "default_gateway route_get")
  case (Inl e)
  with assms(2) show ?thesis by (auto simp: route_install_def)
next
  case (Inr gateway)
  obtain t0 where t0: "cleanup_routes exec server_ip t = (t0, True)" "table t0 = without_routes server_ip (table t)"
    using cleanup_routes_spec [OF assms(1)] by metis
  let ?adds = "[add_args ''-host'' (ip_text server_ip) (ip_text gateway),
    add_args ''-net'' (lit ''0.0.0.0/1'') (ip_text vpn_gateway),
    add_args ''-net'' (lit ''128.0.0.0/1'') (ip_text vpn_gateway)]"
  obtain t1 r1 where run: "run_routes exec ?adds t0 = (t1, r1)" by force
  have clean: "without_routes server_ip (table t0) = table t0" using t0 by simp
  note added = add_routes_spec [OF assms(1) clean run]
  obtain t2 where t2: "cleanup_routes exec server_ip t1 = (t2, True)" "table t2 = without_routes server_ip (table t)"
    using cleanup_routes_spec [OF assms(1), of server_ip t1] added(1) t0(2) by auto
  show ?thesis
  proof (cases r1)
    case (Inl e)
    with assms(2) Inr t0 run t2 show ?thesis by (auto simp: route_install_def simp del: lit_simps run_routes.simps)
  next
    case (Inr u)
    with assms(2) \<open>default_gateway route_get = Inr gateway\<close> t0 run
    have "t' = t1" "r = Inr \<lparr>rg_server_ip = server_ip, rg_gateway = gateway, rg_installed = True\<rparr>"
      by (auto simp: route_install_def simp del: lit_simps run_routes.simps)
    with added(2) Inr t0 t2 show ?thesis
      by (simp add: split_routes_def route_drop_def route_cleanup_def del: lit_simps)
  qed
qed

lemma route_install_spec:
  assumes "route_spec exec table" and "without_routes server_ip (table t) = table t"
    and "route_install exec route_get (Some server_ip) vpn_gateway t = (t', r)"
  shows "case r of
           Inl e \<Rightarrow> table t' = table t
         | Inr g \<Rightarrow> table t' = split_routes server_ip (rg_gateway g) vpn_gateway (table t)
             \<and> rg_installed g \<and> table (route_drop exec g t') = table t"
  using route_install_table [OF assms(1,3)] assms(2) by (cases r) auto

section \<open>Addresses\<close>

lemma split_dot_plain: "46 \<notin> set w \<Longrightarrow> split_dot cur (w @ s) = split_dot (rev w @ cur) s"
  by (induction w arbitrary: cur) auto

lemma dec_no_dot: "46 \<notin> set (dec n)"
  using dec_digits [of n] by (auto simp: list_all_iff is_digit_def)

lemma split_dot_ip_text:
  "split_dot [] (ip_text (a, b, c, d)) = [dec (unat a), dec (unat b), dec (unat c), dec (unat d)]"
proof -
  have last: "split_dot [] w = [w]" if "46 \<notin> set w" for w using split_dot_plain [OF that, of "[]" "[]"] by simp
  show ?thesis by (simp add: ip_text_def split_dot_plain dec_no_dot last)
qed

lemma dec_hd_nonzero: "0 < n \<Longrightarrow> hd (dec n) \<noteq> 48"
proof (induction n rule: dec.induct)
  case (1 n)
  then show ?case by (subst dec.simps) (auto simp: hd_append)
qed

lemma parse_octet_dec: "parse_octet (dec (unat (a::u8))) = Some a"
proof -
  have a: "unat a < 256" using unsigned_less [of a] by simp
  then have "length (dec (unat a)) \<le> 3" by (intro length_dec) auto
  moreover have "hd (dec (unat a)) \<noteq> 48" if "length (dec (unat a)) > 1"
  proof (cases "unat a = 0")
    case True
    with that show ?thesis by (simp add: dec.simps)
  qed (simp add: dec_hd_nonzero)
  ultimately show ?thesis
    using a dec_digits [of "unat a"] by (auto simp: parse_octet_def parse_digits_dec)
qed

lemma parse_ipv4_ip_text: "parse_ipv4 (ip_text ip) = Some ip"
  by (cases ip) (simp add: parse_ipv4_def split_dot_ip_text parse_octet_dec)

interpretation ipv4: codec ip_text parse_ipv4 "\<lambda>_. True"
  by unfold_locales (rule parse_ipv4_ip_text)

section \<open>Properties\<close>

text \<open>A routing table that behaves like the command.\<close>

definition sim_exec :: "route_table route_exec" where
  "sim_exec tab args =
     (case args of
        [_, _, kind, dst, gateway] \<Rightarrow>
          if tab (kind, dst) \<noteq> None
          then (Some \<lparr>co_success = False, co_stdout = [], co_stderr = lit ''File exists''\<rparr>, tab)
          else (Some \<lparr>co_success = True, co_stdout = [], co_stderr = []\<rparr>, tab((kind, dst) \<mapsto> gateway))
      | [_, _, kind, dst] \<Rightarrow>
          if tab (kind, dst) = None
          then (Some \<lparr>co_success = False, co_stdout = [], co_stderr = lit ''not in table''\<rparr>, tab)
          else (Some \<lparr>co_success = True, co_stdout = [], co_stderr = []\<rparr>, tab((kind, dst) := None))
      | _ \<Rightarrow> (None, tab))"

lemma sim_exec_spec: "route_spec sim_exec (\<lambda>tab. tab)"
  by (auto simp: route_spec_def sim_exec_def add_args_def delete_args_def fun_upd_idem)

lemma sim_add:
  "tab (lit kind, dst) = None \<Longrightarrow>
     run_route sim_exec (add_args kind dst gateway) tab = (tab((lit kind, dst) \<mapsto> gateway), Inr ())"
  by (simp add: run_route_def sim_exec_def add_args_def)

lemma sim_install:
  assumes "default_gateway route_get = Inr gateway"
  shows "\<exists>t' g. route_install sim_exec route_get (Some ip) vpn_gateway t = (t', Inr g)"
proof -
  have "fst (cleanup_routes sim_exec ip t) = without_routes ip t"
    using cleanup_routes_spec [OF sim_exec_spec, of ip t] by auto
  then show ?thesis
    using assms route_keys by (simp add: route_install_def sim_add without_none del: lit_simps)
qed

text \<open>
  C21: The routes leave no residue. Starting from a table without the three routes, an installation
  that fails at any step leaves the table as it was; a successful one has exactly the three routes
  added, and dropping the guard takes exactly these away. (The commands must run with the rights to
  delete routes.)
\<close>

theorem route_guard_no_residue:
  assumes "route_spec exec table" and "without_routes server_ip (table t) = table t"
    and "route_install exec route_get (Some server_ip) vpn_gateway t = (t', r)"
  shows "case r of
           Inl e \<Rightarrow> table t' = table t
         | Inr g \<Rightarrow> table t' = split_routes server_ip (rg_gateway g) vpn_gateway (table t)
             \<and> rg_installed g \<and> table (route_drop exec g t') = table t"
  using assms by (rule route_install_spec)

theorem route_guard_no_residue_witness:
  "case snd (route_install sim_exec (Some \<lparr>co_success = True, co_stdout = lit ''gateway: 10.0.0.1'', co_stderr = []\<rparr>)
       (Some (161, 33, 36, 181)) (10, 8, 0, 1) (\<lambda>_. None)) of
     Inl e \<Rightarrow> fst (route_install sim_exec (Some \<lparr>co_success = True, co_stdout = lit ''gateway: 10.0.0.1'', co_stderr = []\<rparr>)
       (Some (161, 33, 36, 181)) (10, 8, 0, 1) (\<lambda>_. None)) = (\<lambda>_. None)
   | Inr g \<Rightarrow> route_drop sim_exec g
       (fst (route_install sim_exec (Some \<lparr>co_success = True, co_stdout = lit ''gateway: 10.0.0.1'', co_stderr = []\<rparr>)
          (Some (161, 33, 36, 181)) (10, 8, 0, 1) (\<lambda>_. None))) = (\<lambda>_. None)"
  using route_guard_no_residue [OF sim_exec_spec _ prod.collapse [symmetric],
      of "(161, 33, 36, 181)" "\<lambda>_. None" "Some \<lparr>co_success = True, co_stdout = lit ''gateway: 10.0.0.1'', co_stderr = []\<rparr>" "(10, 8, 0, 1)"]
  by (auto simp: without_routes_def fun_eq_iff split: sum.splits)

end
