(* ===== verification/Client.thy ===== *)
theory Client
  imports Transport Bench Macos_Routes Crypto Tun
begin

text \<open>
  \<^verbatim>\<open>crates/litevpn-client/src/main.rs\<close>: the checks of the command line, connecting with retries, the
  benchmark runs and \<^verbatim>\<open>main\<close>. \<^verbatim>\<open>main\<close> is a sequence of calls with early returns; \<open>client_main\<close> returns the
  events that matter outside the process, in order, and the result, given the outcomes of the calls.
  The lemmas: a checked number of retries never runs into the \<^verbatim>\<open>expect\<close>, the client's benchmark requests
  are ones the server takes, whatever way \<^verbatim>\<open>main\<close> ends the routes it installed are removed, and no
  shutdown signal ends it while it waits for the server's packet stream.
\<close>

section \<open>The command line\<close>

record client_args =
  ar_config :: path
  ar_no_routes :: bool
  ar_cleanup_routes :: bool
  ar_probe :: bool
  ar_probe_hold_secs :: u64
  ar_connect_timeout_secs :: u64
  ar_connect_retries :: u64
  ar_connect_retry_delay_ms :: u64
  ar_bench :: "rstr option"
  ar_bench_duration_secs :: u64
  ar_bench_payload_bytes :: usize
  ar_bench_target_mbps :: u64
  ar_bench_runs :: u64
  ar_bench_run_gap_ms :: u64

definition parse_bench_direction :: "rstr \<Rightarrow> BenchDirection result" where
  "parse_bench_direction value =
     (if value = lit ''upload'' then Inr Upload
      else if value = lit ''download'' then Inr Download
      else if value = lit ''stream-upload'' then Inr StreamUpload
      else if value = lit ''stream-download'' then Inr StreamDownload
      else if value = lit ''stream-packet-upload'' then Inr StreamPacketUpload
      else if value = lit ''stream-packet-download'' then Inr StreamPacketDownload
      else Inl (Bail ''bench must be upload, download, stream-upload, stream-download, stream-packet-upload, or stream-packet-download''))"

definition bench_payload_bytes :: "BenchDirection \<Rightarrow> nat \<Rightarrow> nat option \<Rightarrow> nat \<Rightarrow> nat result" where
  "bench_payload_bytes direction requested max_datagram_size config_mtu =
     (let mx = (if uses_datagrams direction
                then min (case max_datagram_size of None \<Rightarrow> config_mtu | Some m \<Rightarrow> m) config_mtu
                else config_mtu)
      in bind_res (bail_if (mx < 64) ''QUIC datagram payload limit is too small: {max} bytes'') (\<lambda>_.
         let payload_bytes = (if requested = 0 then mx else requested) in
         bind_res (bail_if (payload_bytes < 64) ''bench payload must be at least 64 bytes'') (\<lambda>_.
         bind_res (bail_if (payload_bytes > mx) ''bench payload {payload_bytes} exceeds current QUIC/datagram limit {max}'') (\<lambda>_.
         Inr payload_bytes))))"

definition bench_target_mbps :: "u64 \<Rightarrow> u64 option result" where
  "bench_target_mbps value =
     (if value = 0 then Inr None
      else bind_res (bail_if (value > 10000) ''bench target Mbps must be <= 10000'') (\<lambda>_. Inr (Some value)))"

definition bench_runs :: "u64 \<Rightarrow> u64 result" where
  "bench_runs value =
     bind_res (bail_if (value = 0) ''bench runs must be greater than zero'') (\<lambda>_.
     bind_res (bail_if (value > 100) ''bench runs must be <= 100'') (\<lambda>_. Inr value))"

definition connect_retries :: "u64 \<Rightarrow> u64 result" where
  "connect_retries value =
     bind_res (bail_if (value = 0) ''connect retries must be greater than zero'') (\<lambda>_.
     bind_res (bail_if (value > 100) ''connect retries must be <= 100'') (\<lambda>_. Inr value))"

definition connect_retry_delay_ms :: "u64 \<Rightarrow> u64 result" where
  "connect_retry_delay_ms value =
     bind_res (bail_if (value > 60000) ''connect retry delay ms must be <= 60000'') (\<lambda>_. Inr value)"

section \<open>Connecting\<close>

text \<open>The outcomes of the calls of one attempt; the handshake may time out.\<close>

record connect_env =
  cx_socket :: sock_env
  cx_runtime :: "unit option"
  cx_endpoint :: "unit result"
  cx_connect :: "unit result"
  cx_handshake :: "unit result timed"

datatype bind_addr = AnyV4 | AnyV6

definition connect_once :: "ClientConfig \<Rightarrow> bool \<Rightarrow> connect_env \<Rightarrow> unit result" where
  "connect_once config server_is_ipv4 env =
     bind_res (snd (create_udp_socket (cx_socket env) (\<not> server_is_ipv4) (if server_is_ipv4 then AnyV4 else AnyV6)
       (unat (cc_udp_recv_buffer_bytes config)) (unat (cc_udp_send_buffer_bytes config)))) (\<lambda>_.
     bind_res (context_opt ''no async runtime found'' (cx_runtime env)) (\<lambda>_.
     bind_res (cx_endpoint env) (\<lambda>_.
     bind_res (cx_connect env) (\<lambda>_.
     case cx_handshake env of
       Elapsed \<Rightarrow> Inl (Context ''connect timed out'' (External ''deadline has elapsed''))
     | Timely r \<Rightarrow> context_res ''failed to connect to server'' r))))"

text \<open>
  \<open>attempts n\<close> is the outcome of attempt \<open>n\<close>. The result comes with the number of attempts made and of
  the pauses between them.
\<close>

function connect_from ::
    "(nat \<Rightarrow> 'c result) \<Rightarrow> nat \<Rightarrow> u64 \<Rightarrow> nat \<Rightarrow> nat \<Rightarrow> nat \<times> nat \<times> 'c result" where
  "connect_from attempts retries delay_ms attempt pauses =
     (if attempt > retries
      then (attempt - 1, pauses, Inl (Panic ''connect_retries is validated to be greater than zero''))
      else
        (case attempts attempt of
           Inr result \<Rightarrow> (attempt, pauses, Inr result)
         | Inl e \<Rightarrow>
             if attempt \<ge> retries then (attempt, pauses, Inl e)
             else connect_from attempts retries delay_ms (attempt + 1) (if delay_ms > 0 then pauses + 1 else pauses)))"
  by pat_completeness auto
termination by (relation "measure (\<lambda>(a, n, d, k, p). n + 1 - k)") auto

declare connect_from.simps [simp del]

definition connect_client :: "(nat \<Rightarrow> 'c result) \<Rightarrow> u64 \<Rightarrow> u64 \<Rightarrow> nat \<times> nat \<times> 'c result" where
  "connect_client attempts retries delay_ms = connect_from attempts (unat retries) delay_ms 1 0"

section \<open>The end of the tunnel\<close>

definition shutdown_result :: "unit result \<Rightarrow> unit result" where
  "shutdown_result result = (case result of Inr _ \<Rightarrow> Inr () | Inl error \<Rightarrow> Inl error)"

text \<open>\<^verbatim>\<open>shutdown_signal\<close> on Unix: \<open>ctrl_c\<close> is \<open>None\<close> when the termination signal comes first.\<close>

definition shutdown_signal :: "unit result \<Rightarrow> unit result option \<Rightarrow> unit result" where
  "shutdown_signal install_sigterm ctrl_c =
     bind_res (context_res ''failed to install SIGTERM handler'' install_sigterm) (\<lambda>_.
     case ctrl_c of
       None \<Rightarrow> Inr ()
     | Some r \<Rightarrow> context_res ''failed to listen for Ctrl+C'' r)"

section \<open>What the program meets\<close>

datatype client_event =
    EvAuthenticate AuthMode "u8 list list"
  | EvBenchDone "(aggregate \<times> server_aggregate option) option"
  | EvProbeOk
  | EvTun "tun_setting list"
  | EvClose string

text \<open>The arm of the last \<^verbatim>\<open>select!\<close> that completes first.\<close>

datatype client_arm = PumpEnds pump_arm | ShutdownSignal

text \<open>
  The files, the parsers and the TLS library, and the outcomes of the calls; connections, handshakes
  and benchmarks are numbered by the run they belong to. \<open>me_probe_hold\<close> is the \<^verbatim>\<open>select!\<close> that holds a
  probe, \<open>me_wait_idle\<close> is \<^verbatim>\<open>Endpoint::wait_idle\<close>; both are \<open>None\<close> while they wait.
\<close>

record ('r, 's, 'd) main_env =
  me_os :: target_os
  me_read_to_string :: "path \<Rightarrow> rstr result"
  me_toml :: "rstr \<Rightarrow> ClientConfig result"
  me_parse_addr :: "rstr \<Rightarrow> Ipv4Addr option result"
  me_netstat :: "cmd_output option"
  me_route_get :: "cmd_output option"
  me_file_open :: "path \<Rightarrow> u8 list result"
  me_pem_certs :: "u8 list \<Rightarrow> u8 list result list"
  me_add_root :: "'r \<Rightarrow> u8 list \<Rightarrow> 'r result"
  me_empty_roots :: 'r
  me_quic_crypto :: "'r \<Rightarrow> u8 list list \<Rightarrow> unit result"
  me_default_transport :: transport
  me_connect :: "nat \<Rightarrow> nat \<Rightarrow> connect_env"
  me_max_datagram :: "nat option"
  me_auth_io :: "nat \<Rightarrow> client_auth_io"
  me_probe_hold :: "unit option"
  me_wait_idle :: "nat \<Rightarrow> unit option"
  me_bench_env :: "nat \<Rightarrow> client_env"
  me_bench_rounds :: "nat \<Rightarrow> client_rounds"
  me_build_tun :: "tun_setting list \<Rightarrow> unit result"
  me_tunnel :: "('s, 'd) tunnel_env"
  me_arm :: client_arm
  me_sigterm :: "unit result"
  me_ctrl_c :: "unit result option"

section \<open>Benchmark runs\<close>

text \<open>Connecting for a run, and authenticating.\<close>

definition connect_run ::
    "('r, 's, 'd) main_env \<Rightarrow> ClientConfig \<Rightarrow> Ipv4Addr option \<Rightarrow> u64 \<Rightarrow> u64 \<Rightarrow> nat \<Rightarrow> unit result" where
  "connect_run env config server_addr retries delay_ms run =
     snd (snd (connect_client (\<lambda>n. connect_once config (server_addr \<noteq> None) (me_connect env run n)) retries delay_ms))"

definition authenticate_run ::
    "('r, 's, 'd) main_env \<Rightarrow> rstr \<Rightarrow> AuthMode \<Rightarrow> nat \<Rightarrow> 't \<Rightarrow> ('t, client_event, unit) act" where
  "authenticate_run env token mode run t =
     (case client_authenticate_with_mode (me_auth_io env run) token mode of
        (ops, r) \<Rightarrow> (t, [EvAuthenticate mode (written ops)], r))"

text \<open>Closing the connection and waiting until the endpoint is idle.\<close>

definition close_and_wait ::
    "('r, 's, 'd) main_env \<Rightarrow> nat \<Rightarrow> string \<Rightarrow> 't \<Rightarrow> ('t, client_event, unit) act" where
  "close_and_wait env run reason t = (t, [EvClose reason], map_option Inr (me_wait_idle env run))"

text \<open>
  \<^verbatim>\<open>run_bench_iterations\<close>: run 1 uses the connection at hand; every other run connects and authenticates
  first. The connection is closed whatever the result of the run.
\<close>

function bench_iterations_from ::
    "('r, 's, 'd) main_env \<Rightarrow> ClientConfig \<Rightarrow> Ipv4Addr option \<Rightarrow> rstr \<Rightarrow> AuthMode \<Rightarrow> BenchDirection \<Rightarrow> u64 \<Rightarrow> nat \<Rightarrow> u64 option
     \<Rightarrow> u64 \<Rightarrow> u64 \<Rightarrow> nat \<Rightarrow> nat \<Rightarrow> BenchMeasurement list \<Rightarrow> 't \<Rightarrow> ('t, client_event, BenchMeasurement list) act" where
  "bench_iterations_from env config server_addr token auth_mode direction duration_secs payload_bytes target_mbps
       retries delay_ms runs run measurements t =
     (if run > runs then call t (Inr measurements)
      else
        bind_act
          (if run = 1 then call t (Inr ())
           else
             bind_act (call t (connect_run env config server_addr retries delay_ms run)) (\<lambda>t _.
             authenticate_run env token auth_mode run t)) (\<lambda>t _.
        bind_act
          (case client_run_bench direction duration_secs (of_nat payload_bytes) target_mbps
                  (cc_datagram_backlog_packets config) (cc_adaptive_egress config)
                  (me_bench_env env run) (me_bench_rounds env run) of
             None \<Rightarrow> (t, [], None)
           | Some r \<Rightarrow> bind_act (close_and_wait env run ''bench complete'' t) (\<lambda>t _. call t r)) (\<lambda>t m.
        bench_iterations_from env config server_addr token auth_mode direction duration_secs payload_bytes target_mbps
          retries delay_ms runs (run + 1) (measurements @ [m]) t)))"
  by pat_completeness auto
termination by (relation "measure (\<lambda>(env, c, a, tk, md, d, s, p, m, r, dl, n, k, ms, t). n + 1 - k)") auto

declare bench_iterations_from.simps [simp del]

definition run_bench_iterations ::
    "('r, 's, 'd) main_env \<Rightarrow> ClientConfig \<Rightarrow> Ipv4Addr option \<Rightarrow> rstr \<Rightarrow> AuthMode \<Rightarrow> BenchDirection \<Rightarrow> u64 \<Rightarrow> nat \<Rightarrow> u64 option
     \<Rightarrow> u64 \<Rightarrow> u64 \<Rightarrow> u64 \<Rightarrow> 't \<Rightarrow> ('t, client_event, unit) act" where
  "run_bench_iterations env config server_addr token auth_mode direction duration_secs payload_bytes target_mbps
       retries delay_ms runs t =
     bind_act (bench_iterations_from env config server_addr token auth_mode direction duration_secs payload_bytes target_mbps
       retries delay_ms (unat runs) 1 [] t) (\<lambda>t measurements.
     (t, [EvBenchDone (print_bench_aggregate measurements)], Some (Inr ())))"

section \<open>The main function\<close>

text \<open>
  The \<^verbatim>\<open>match\<close> on the transport: first the calls after which \<^verbatim>\<open>main\<close> returns early, then the \<^verbatim>\<open>select!\<close> whose
  result is \<^verbatim>\<open>run_result\<close>.
\<close>

definition open_tunnel :: "ClientConfig \<Rightarrow> ('r, 's, 'd) main_env \<Rightarrow> unit result option" where
  "open_tunnel config env =
     (case cc_vpn_transport config of
        Datagram \<Rightarrow> Some (Inr ())
      | Stream \<Rightarrow>
          open_streams ''failed to open client packet stream'' ''failed to accept server packet stream'' (me_tunnel env))"

definition run_pumps :: "ClientConfig \<Rightarrow> ('r, 's, 'd) main_env \<Rightarrow> unit result option" where
  "run_pumps config env =
     (case me_arm env of
        ShutdownSignal \<Rightarrow> Some (shutdown_result (shutdown_signal (me_sigterm env) (me_ctrl_c env)))
      | PumpEnds arm \<Rightarrow>
          (case cc_vpn_transport config of
             Datagram \<Rightarrow>
               datagram_pumps (unat (cc_mtu config)) (cc_egress_target_mbps config) (cc_datagram_backlog_packets config)
                 (cc_adaptive_egress config) (me_tunnel env) arm
           | Stream \<Rightarrow>
               stream_pumps (unat (cc_mtu config)) (cc_egress_target_mbps config) (cc_adaptive_egress config)
                 (me_tunnel env) arm))"

text \<open>
  From the created TUN device to the end. The guard is dropped, and so cleans up, when \<^verbatim>\<open>main\<close> returns
  early; otherwise it is cleaned up explicitly and dropping it does nothing more.
\<close>

definition client_tunnel ::
    "'t route_exec \<Rightarrow> client_args \<Rightarrow> ('r, 's, 'd) main_env \<Rightarrow> ClientConfig \<Rightarrow> Ipv4Addr option \<Rightarrow> 't
     \<Rightarrow> ('t, client_event, unit) act" where
  "client_tunnel exec args env config server_addr t =
     (if me_os env = Macos \<and> cc_route_all config \<and> \<not> ar_no_routes args then
        (case route_install exec (me_route_get env) server_addr (cc_server_tun_ip config) t of
           (t1, Inl e) \<Rightarrow> call t1 (Inl e)
         | (t1, Inr guard) \<Rightarrow>
             (case open_tunnel config env of
                None \<Rightarrow> (t1, [], None)
              | Some (Inl e) \<Rightarrow> call (route_drop exec guard t1) (Inl e)
              | Some (Inr _) \<Rightarrow>
                  (case run_pumps config env of
                     None \<Rightarrow> (t1, [], None)
                   | Some run_result \<Rightarrow>
                       (case route_cleanup exec guard t1 of
                          (t2, guard') \<Rightarrow>
                            bind_act (close_and_wait env 1 ''client shutdown'' t2) (\<lambda>t3 _.
                            call (route_drop exec guard' t3) run_result)))))
      else
        bind_act (t, [], open_tunnel config env) (\<lambda>t _.
        case run_pumps config env of
          None \<Rightarrow> (t, [], None)
        | Some run_result \<Rightarrow>
            bind_act (close_and_wait env 1 ''client shutdown'' t) (\<lambda>t _. call t run_result)))"

definition client_session ::
    "'t route_exec \<Rightarrow> client_args \<Rightarrow> ('r, 's, 'd) main_env \<Rightarrow> ClientConfig \<Rightarrow> Ipv4Addr option \<Rightarrow> rstr
     \<Rightarrow> BenchDirection option \<Rightarrow> u64 option \<Rightarrow> u64 \<Rightarrow> u64 \<Rightarrow> u64 \<Rightarrow> 't \<Rightarrow> ('t, client_event, unit) act" where
  "client_session exec args env config server_addr token bench_direction target_mbps retries delay_ms runs t =
     bind_act (call t
        (case bench_direction of
           None \<Rightarrow> Inr 0
         | Some direction \<Rightarrow>
             bench_payload_bytes direction (unat (ar_bench_payload_bytes args)) (me_max_datagram env) (unat (cc_mtu config))))
       (\<lambda>t payload_bytes.
     let auth_mode =
           (case bench_direction of
              None \<Rightarrow> Vpn
            | Some direction \<Rightarrow> Bench direction (ar_bench_duration_secs args) (of_nat payload_bytes) target_mbps)
     in bind_act (authenticate_run env token auth_mode 1 t) (\<lambda>t _.
     case bench_direction of
       Some direction \<Rightarrow>
         run_bench_iterations env config server_addr token auth_mode direction (ar_bench_duration_secs args) payload_bytes
           target_mbps retries delay_ms runs t
     | None \<Rightarrow>
         if ar_probe args then
           bind_act (t, [EvProbeOk],
              if ar_probe_hold_secs args > 0 then map_option Inr (me_probe_hold env) else Some (Inr ())) (\<lambda>t _.
           close_and_wait env 1 ''probe complete'' t)
         else
           bind_act (call t
              (if cc_vpn_transport config = Datagram
               then ensure_datagram_capacity (me_max_datagram env) (unat (cc_mtu config)) else Inr ())) (\<lambda>t _.
           bind_act (t, [EvTun (tun_settings (me_os env) (client_tun_options config))],
              Some (context_res ''failed to create client tun device''
                (create_tun (me_build_tun env) (me_os env) (client_tun_options config)))) (\<lambda>t _.
           client_tunnel exec args env config server_addr t))))"

text \<open>Stale routes of an earlier run are removed on macOS, on demand or before new ones are installed.\<close>

definition remove_stale ::
    "'t route_exec \<Rightarrow> client_args \<Rightarrow> ('r, 's, 'd) main_env \<Rightarrow> ClientConfig \<Rightarrow> Ipv4Addr option \<Rightarrow> 't
     \<Rightarrow> ('t, client_event, unit) act" where
  "remove_stale exec args env config server_addr t =
     (if me_os env = Macos \<and> (ar_cleanup_routes args \<or> cc_route_all config \<and> \<not> ar_no_routes args)
      then (case cleanup_stale exec (me_netstat env) server_addr t of (t, r) \<Rightarrow> call t r)
      else call t (Inr ()))"

definition client_main ::
    "'t route_exec \<Rightarrow> client_args \<Rightarrow> ('r, 's, 'd) main_env \<Rightarrow> 't \<Rightarrow> ('t, client_event, unit) act" where
  "client_main exec args env t =
     bind_act (call t (load_toml (me_read_to_string env) (me_toml env) (ar_config args))) (\<lambda>t config.
     bind_act (call t (validate_ClientConfig config)) (\<lambda>t _.
     bind_act (call t (context_res ''invalid server address'' (me_parse_addr env (cc_server config)))) (\<lambda>t server_addr.
     bind_act (remove_stale exec args env config server_addr t) (\<lambda>t _.
     if ar_cleanup_routes args then
       call t (if me_os env = Macos then Inr ()
               else Inl (Bail ''--cleanup-routes is currently implemented only on macOS''))
     else
       bind_act (call t (load_token (me_read_to_string env) (cc_auth_token_path config))) (\<lambda>t token.
       bind_act (call t (case ar_bench args of
                           None \<Rightarrow> Inr None
                         | Some value \<Rightarrow> bind_res (parse_bench_direction value) (\<lambda>d. Inr (Some d)))) (\<lambda>t bench_direction.
       bind_act (call t (bench_target_mbps (ar_bench_target_mbps args))) (\<lambda>t target_mbps.
       bind_act (call t (connect_retries (ar_connect_retries args))) (\<lambda>t retries.
       bind_act (call t (connect_retry_delay_ms (ar_connect_retry_delay_ms args))) (\<lambda>t delay_ms.
       bind_act (call t (if bench_direction \<noteq> None then bench_runs (ar_bench_runs args) else Inr 1)) (\<lambda>t runs.
       bind_act (call t (quic_client_config (me_file_open env) (me_pem_certs env) (me_add_root env) (me_empty_roots env)
         (me_quic_crypto env) (me_default_transport env) (cc_ca_cert_path config) (cc_datagram_buffer_bytes config)
         (cc_mtu config) (cc_congestion_controller config))) (\<lambda>t client_config.
       bind_act (call t (connect_run env config server_addr retries delay_ms 1)) (\<lambda>t _.
       client_session exec args env config server_addr token bench_direction target_mbps retries delay_ms runs t))))))))))))"

section \<open>Facts\<close>

lemma connect_retries_Inr_iff: "connect_retries v = Inr n \<longleftrightarrow> n = v \<and> v \<noteq> 0 \<and> v \<le> 100"
  by (auto simp: connect_retries_def)

lemma connect_from_result:
  assumes "attempt \<le> retries"
  shows "\<exists>k. attempt \<le> k \<and> k \<le> retries \<and> (\<forall>j. attempt \<le> j \<and> j < k \<longrightarrow> \<not> is_ok (attempts j))
     \<and> (is_ok (attempts k) \<or> k = retries)
     \<and> connect_from attempts retries delay_ms attempt pauses =
         (k, pauses + (if delay_ms > 0 then k - attempt else 0), attempts k)"
  using assms
proof (induction "retries - attempt" arbitrary: attempt pauses)
  case 0
  then show ?case
    by (intro exI [of _ attempt])
      (auto simp: connect_from.simps [of _ _ _ attempt] is_ok_def split: sum.split)
next
  case (Suc d)
  show ?case
  proof (cases "attempts attempt")
    case (Inr c)
    with Suc.prems show ?thesis
      by (intro exI [of _ attempt]) (auto simp: connect_from.simps [of _ _ _ attempt] is_ok_def)
  next
    case (Inl e)
    let ?p = "if delay_ms > 0 then pauses + 1 else pauses"
    have step: "connect_from attempts retries delay_ms attempt pauses = connect_from attempts retries delay_ms (attempt + 1) ?p"
      using Inl Suc by (subst connect_from.simps) auto
    have "d = retries - (attempt + 1)" "attempt + 1 \<le> retries" using Suc.hyps(2) by auto
    from Suc.hyps(1) [OF this, of ?p] obtain k where k: "attempt + 1 \<le> k" "k \<le> retries"
      "\<forall>j. attempt + 1 \<le> j \<and> j < k \<longrightarrow> \<not> is_ok (attempts j)" "is_ok (attempts k) \<or> k = retries"
      "connect_from attempts retries delay_ms (attempt + 1) ?p =
         (k, ?p + (if delay_ms > 0 then k - (attempt + 1) else 0), attempts k)" by blast
    have "\<not> is_ok (attempts j)" if "attempt \<le> j" "j < k" for j
      using that Inl k(3) by (cases "j = attempt") (auto simp: is_ok_def)
    with k step show ?thesis by (intro exI [of _ k]) auto
  qed
qed

text \<open>The direction names of the two programs agree.\<close>

lemma parse_bench_direction_as_str: "parse_bench_direction (as_str d) = Inr d"
  by (cases d) (simp_all add: parse_bench_direction_def)

lemma bench_payload_bytes_range:
  "bench_payload_bytes d req mx mtu = Inr n \<Longrightarrow> 64 \<le> n \<and> n \<le> mtu"
  by (auto simp: bench_payload_bytes_def Let_def split: if_splits)

lemma route_cleanup_once: "route_cleanup exec g t = (t', g') \<Longrightarrow> route_drop exec g' u = u"
  by (auto simp: route_cleanup_def route_drop_def split: if_splits)

text \<open>
  What the run of an action may do to the routing table, given the address of the server: nothing, or take
  away the program's own destinations; and the three routes of the tunnel may be in it as long as the
  action has not returned and the connection has not been closed.
\<close>

definition routes_kept :: "Ipv4Addr option \<Rightarrow> route_table \<Rightarrow> route_table \<Rightarrow> bool" where
  "routes_kept server_addr tab tab' \<longleftrightarrow>
     tab' = tab \<or> (\<exists>ip. server_addr = Some ip \<and> tab' = without_routes ip tab)"

lemma routes_kept_refl [simp]: "routes_kept server_addr tab tab"
  by (simp add: routes_kept_def)

definition routes_installed :: "Ipv4Addr \<Rightarrow> route_table \<Rightarrow> route_table \<Rightarrow> bool" where
  "routes_installed ip tab tab' \<longleftrightarrow>
     (\<exists>gateway vpn_gateway. tab' = split_routes ip gateway vpn_gateway (without_routes ip tab))"

lemma routes_installed_without [simp]: "routes_installed ip (without_routes ip tab) tab' = routes_installed ip tab tab'"
  by (simp add: routes_installed_def)

lemma routes_installed_split: "routes_installed ip tab (split_routes ip gateway vpn_gateway (without_routes ip tab))"
  unfolding routes_installed_def by blast

definition routes_ok ::
    "Ipv4Addr option \<Rightarrow> route_table \<Rightarrow> ('t \<Rightarrow> route_table) \<Rightarrow> ('t, client_event, 'a) act \<Rightarrow> bool" where
  "routes_ok server_addr tab table m \<longleftrightarrow>
     routes_kept server_addr tab (table (fst m))
     \<or> snd (snd m) = None \<and> EvClose ''client shutdown'' \<notin> set (fst (snd m))
       \<and> (\<exists>ip. server_addr = Some ip \<and> routes_installed ip tab (table (fst m)))"

lemma routes_ok_same [simp]: "table (fst m) = tab \<Longrightarrow> routes_ok server_addr tab table m"
  by (simp add: routes_ok_def)

lemma routes_ok_bind:
  assumes "routes_kept server_addr tab (table (fst m))"
    and "EvClose ''client shutdown'' \<notin> set (fst (snd m))"
    and "\<And>x. snd (snd m) = Some (Inr x) \<Longrightarrow> routes_ok server_addr (table (fst m)) table (f (fst m) x)"
  shows "routes_ok server_addr tab table (bind_act m f)"
proof (cases "\<exists>x. snd (snd m) = Some (Inr x)")
  case True
  then obtain x where x: "snd (snd m) = Some (Inr x)" by blast
  with assms(1,2) assms(3) [OF x] show ?thesis
    by (auto simp: routes_ok_def routes_kept_def bind_act_state bind_act_result bind_act_event)
next
  case False
  then have "fst (bind_act m f) = fst m" by (auto simp: bind_act_state split: option.split sum.split)
  with assms(1) show ?thesis by (auto simp: routes_ok_def)
qed

lemma route_cleanup_drop: "route_cleanup exec g t = (t', g') \<Longrightarrow> t' = route_drop exec g t"
  by (simp add: route_drop_def)

lemma client_tunnel_state:
  assumes spec: "route_spec exec table"
  shows "routes_ok server_addr (table t) table (client_tunnel exec args env config server_addr t)"
proof (cases "me_os env = Macos \<and> cc_route_all config \<and> \<not> ar_no_routes args \<and> server_addr \<noteq> None")
  case False
  then show ?thesis
    by (cases server_addr)
      (auto simp: client_tunnel_def route_install_def close_and_wait_def bind_act_state intro!: routes_ok_same
        split: option.split sum.split)
next
  case True
  then obtain ip where ip: "server_addr = Some ip" by auto
  obtain t1 g where i: "route_install exec (me_route_get env) (Some ip) (cc_server_tun_ip config) t = (t1, g)" by force
  note after = route_install_table [OF spec i]
  show ?thesis
  proof (cases g)
    case (Inl e)
    with after i ip True show ?thesis by (auto simp: client_tunnel_def routes_ok_def routes_kept_def)
  next
    case (Inr guard)
    obtain t2 g' where c: "route_cleanup exec guard t1 = (t2, g')" by force
    have "table t2 = without_routes ip (table t)" using after Inr route_cleanup_drop [OF c] by simp
    with after Inr i ip c True show ?thesis
      by (auto simp: client_tunnel_def routes_ok_def routes_kept_def close_and_wait_def bind_act_state bind_act_event bind_act_result
          route_cleanup_once routes_installed_split split: option.splits sum.splits)
  qed
qed

lemma remove_stale_state:
  assumes spec: "route_spec exec table"
  shows "routes_kept server_addr (table t) (table (fst (remove_stale exec args env config server_addr t)))"
proof (cases server_addr)
  case (Some ip)
  obtain t' where "cleanup_routes exec ip t = (t', True)" "table t' = without_routes ip (table t)"
    using cleanup_routes_spec [OF spec, of ip t] by auto
  with Some show ?thesis by (auto simp: routes_kept_def remove_stale_def cleanup_stale_def split: sum.split bool.split)
qed (simp add: remove_stale_def cleanup_stale_def)

lemma remove_stale_no_events [simp]: "fst (snd (remove_stale exec args env config server_addr t)) = []"
  by (simp add: remove_stale_def split: prod.split)

lemma bench_iterations_state:
  "fst (bench_iterations_from env config sa token mode d s p m rt dl runs run ms t) = t"
proof (induction "runs + 1 - run" arbitrary: run ms t)
  case 0
  then show ?case by (simp add: bench_iterations_from.simps)
next
  case (Suc k)
  from Suc.hyps(2) have "k = runs + 1 - (run + 1)" by simp
  from Suc.hyps(1) [OF this] show ?case
    by (subst bench_iterations_from.simps)
      (auto simp: bind_act_state authenticate_run_def close_and_wait_def split: option.split sum.split prod.split)
qed

lemma run_bench_state:
  "fst (run_bench_iterations env config sa token mode d s p m rt dl runs t) = t"
  by (simp add: run_bench_iterations_def bind_act_state bench_iterations_state split: option.splits sum.splits)

lemma authenticate_run_state [simp]: "fst (authenticate_run env token mode run t) = t"
  by (simp add: authenticate_run_def split: prod.split)

lemma authenticate_run_no_close [simp]: "EvClose r \<notin> set (fst (snd (authenticate_run env token mode run t)))"
  by (simp add: authenticate_run_def split: prod.split)

lemma client_session_state:
  assumes spec: "route_spec exec table"
  shows "routes_ok server_addr (table t) table (client_session exec args env config server_addr token d m rt dl runs t)"
  unfolding client_session_def Let_def
  by (auto intro!: routes_ok_bind client_tunnel_state [OF spec] simp: run_bench_state close_and_wait_def
      simp del: bind_act_call bind_act_Inr bind_act_stop split: option.split)

text \<open>The server that a run of \<^verbatim>\<open>main\<close> is about: the IPv4 address in its configuration, if it has one.\<close>

definition main_server :: "client_args \<Rightarrow> ('r, 's, 'd) main_env \<Rightarrow> Ipv4Addr option" where
  "main_server args env =
     (case load_toml (me_read_to_string env) (me_toml env) (ar_config args) of
        Inl _ \<Rightarrow> None
      | Inr config \<Rightarrow> (case me_parse_addr env (cc_server config) of Inl _ \<Rightarrow> None | Inr server_addr \<Rightarrow> server_addr))"

lemma client_main_state:
  assumes spec: "route_spec exec table"
  shows "routes_ok (main_server args env) (table t) table (client_main exec args env t)"
proof -
  have server: "main_server args env = sa"
    if "load_toml (me_read_to_string env) (me_toml env) (ar_config args) = Inr config" "me_parse_addr env (cc_server config) = Inr sa"
    for config sa
    using that by (simp add: main_server_def)
  show ?thesis
    unfolding client_main_def
    by (auto intro!: routes_ok_bind client_session_state [OF spec] remove_stale_state [OF spec] simp: server)
qed

text \<open>Which authentication requests \<^verbatim>\<open>main\<close> sends.\<close>

lemma authenticate_run_auth:
  "EvAuthenticate mode' w \<in> set (fst (snd (authenticate_run env token mode run t))) \<longleftrightarrow>
     mode' = mode \<and> w = written (fst (client_authenticate_with_mode (me_auth_io env run) token mode))"
  by (auto simp: authenticate_run_def split: prod.split)

lemma client_tunnel_no_auth: "EvAuthenticate mode w \<notin> set (fst (snd (client_tunnel exec args env config sa t)))"
  by (auto simp: client_tunnel_def close_and_wait_def bind_act_event split: prod.split sum.split option.split)

lemma bench_iterations_auth:
  "EvAuthenticate mode' w \<in> set (fst (snd (bench_iterations_from env config sa token mode d s p m rt dl runs run ms t)))
   \<Longrightarrow> mode' = mode \<and> (\<exists>io. w = written (fst (client_authenticate_with_mode io token mode)))"
proof (induction "runs + 1 - run" arbitrary: run ms t)
  case 0
  then show ?case by (simp add: bench_iterations_from.simps)
next
  case (Suc k)
  from Suc.hyps(2) have "k = runs + 1 - (run + 1)" by simp
  note rest = Suc.hyps(1) [OF this]
  from Suc.prems rest show ?case
    by (subst (asm) bench_iterations_from.simps)
      (auto simp: bind_act_event authenticate_run_auth close_and_wait_def split: if_splits option.splits)
qed

lemma client_session_auth:
  assumes "EvAuthenticate mode w \<in> set (fst (snd (client_session exec args env config sa token d m rt dl runs t)))"
  shows "(\<exists>io. w = written (fst (client_authenticate_with_mode io token mode)))
     \<and> (case d of
          None \<Rightarrow> mode = Vpn
        | Some dir \<Rightarrow> \<exists>n. 64 \<le> n \<and> n \<le> unat (cc_mtu config) \<and> mode = Bench dir (ar_bench_duration_secs args) (of_nat n) m)"
  using assms
  by (cases d)
    (auto simp: client_session_def Let_def client_tunnel_no_auth bind_act_event authenticate_run_auth run_bench_iterations_def
      close_and_wait_def
      dest: bench_payload_bytes_range dest!: bench_iterations_auth split: if_splits)

lemma client_main_auth:
  assumes "EvAuthenticate mode w \<in> set (fst (snd (client_main exec args env t)))"
  shows "\<exists>config token io. load_toml (me_read_to_string env) (me_toml env) (ar_config args) = Inr config
     \<and> validate_ClientConfig config = Inr () \<and> load_token (me_read_to_string env) (cc_auth_token_path config) = Inr token
     \<and> w = written (fst (client_authenticate_with_mode io token mode))
     \<and> (mode = Vpn \<or> (\<exists>d n m. 64 \<le> n \<and> n \<le> unat (cc_mtu config) \<and> m \<noteq> Some 0
          \<and> mode = Bench d (ar_bench_duration_secs args) (of_nat n) m))"
proof -
  have target: "m \<noteq> Some 0" if "bench_target_mbps v = Inr m" for v m
    using that by (auto simp: bench_target_mbps_def split: if_splits)
  from assms obtain config token sa d v m rt dl runs t1 where
    "load_toml (me_read_to_string env) (me_toml env) (ar_config args) = Inr config" "validate_ClientConfig config = Inr ()"
    "load_token (me_read_to_string env) (cc_auth_token_path config) = Inr token" "bench_target_mbps v = Inr m"
    "EvAuthenticate mode w \<in> set (fst (snd (client_session exec args env config sa token d m rt dl runs t1)))"
    unfolding client_main_def
    by (auto simp: bind_act_event split: if_splits prod.splits)
  with client_session_auth [OF this(5)] target show ?thesis by (cases d) auto
qed

section \<open>A sample run\<close>

definition sample_args :: client_args where
  "sample_args = \<lparr>ar_config = lit ''client.toml'', ar_no_routes = False, ar_cleanup_routes = False, ar_probe = False,
     ar_probe_hold_secs = 0, ar_connect_timeout_secs = 10, ar_connect_retries = 1, ar_connect_retry_delay_ms = 500,
     ar_bench = None, ar_bench_duration_secs = 10, ar_bench_payload_bytes = 0, ar_bench_target_mbps = 0, ar_bench_runs = 1,
     ar_bench_run_gap_ms = 250\<rparr>"

definition sample_gateway :: "cmd_output option" where
  "sample_gateway = Some \<lparr>co_success = True, co_stdout = lit ''gateway: 10.0.0.1'', co_stderr = []\<rparr>"

text \<open>Every call succeeds, the token is 32 letters, no routes are stale; the shutdown signal ends the run.\<close>

definition sample_tunnel :: "(u8 list list, u8 list list) tunnel_env" where
  "sample_tunnel = \<lparr>te_now = 0, te_tx_datagrams = 0, te_up_datagrams = [], te_down_datagrams = [], te_open_uni = Inr (),
     te_accept_uni = None, te_up_stream = [], te_read = seg_read, te_stream = [], te_device_send = log_send, te_device = []\<rparr>"

definition sample_main :: "VpnTransportMode \<Rightarrow> (unit, u8 list list, u8 list list) main_env" where
  "sample_main vpn_transport = \<lparr>me_os = Macos, me_read_to_string = (\<lambda>_. Inr (replicate 32 97)),
     me_toml = (\<lambda>_. Inr (default_ClientConfig\<lparr>cc_vpn_transport := vpn_transport\<rparr>)),
     me_parse_addr = (\<lambda>_. Inr (Some (161, 33, 36, 181))),
     me_netstat = Some \<lparr>co_success = True, co_stdout = [], co_stderr = []\<rparr>, me_route_get = sample_gateway,
     me_file_open = (\<lambda>_. Inr [1]), me_pem_certs = (\<lambda>bs. [Inr bs]), me_add_root = (\<lambda>r c. Inr r), me_empty_roots = (),
     me_quic_crypto = (\<lambda>r a. Inr ()), me_default_transport = sample_transport,
     me_connect = (\<lambda>_ _. \<lparr>cx_socket = \<lparr>se_new = Inr (), se_only_v6 = Inr (), se_recv = Inr (), se_send = Inr (), se_bind = Inr ()\<rparr>,
       cx_runtime = Some (), cx_endpoint = Inr (), cx_connect = Inr (), cx_handshake = Timely (Inr ())\<rparr>),
     me_max_datagram = Some 1400,
     me_auth_io = (\<lambda>_. \<lparr>ca_open_bi = Some (Inr ()), ca_write_all = Some (Inr ()), ca_finish = Inr (),
       ca_response = Some (Inr AUTH_OK)\<rparr>),
     me_probe_hold = Some (), me_wait_idle = (\<lambda>_. Some ()),
     me_bench_env = (\<lambda>_. sample_client []), me_bench_rounds = (\<lambda>_. \<lparr>cn_sends = [], cn_downs = [], cn_writes = [], cn_reads = []\<rparr>),
     me_build_tun = (\<lambda>_. Inr ()), me_tunnel = sample_tunnel, me_arm = ShutdownSignal, me_sigterm = Inr (), me_ctrl_c = Some (Inr ())\<rparr>"

lemma sample_gateway_parsed: "default_gateway sample_gateway = Inr (10, 0, 0, 1)"
  by (simp add: default_gateway_def sample_gateway_def lines_def trim_def line_content_def strip_suffix_def is_whitespace_def parse_ipv4_def
      parse_octet_def is_digit_def)

lemma sample_install:
  "\<exists>t g. route_install sim_exec sample_gateway (Some (161, 33, 36, 181)) (10, 66, 0, 1) tab = (t, Inr g)"
  by (rule sim_install) (rule sample_gateway_parsed)

text \<open>A routing table with another host route.\<close>

definition sample_table :: route_table where
  "sample_table = [(lit ''-host'', lit ''127.0.0.1'') \<mapsto> lit ''lo0'']"

lemma sample_token_loads: "load_token (me_read_to_string (sample_main tr)) p = Inr (replicate 32 97)"
  by (simp add: sample_main_def load_token_def Let_def trim_id is_whitespace_def str_len_ascii list_all_iff is_ascii_def)

lemma sample_config: "validate_ClientConfig (default_ClientConfig\<lparr>cc_vpn_transport := tr\<rparr>) = Inr ()"
  using default_configs_valid by (simp add: validate_ClientConfig_def)

text \<open>The run gets to the tunnel.\<close>

lemma sample_run:
  "client_main sim_exec sample_args (sample_main tr) tab =
     (let (t, ev, r) = client_tunnel sim_exec sample_args (sample_main tr) (default_ClientConfig\<lparr>cc_vpn_transport := tr\<rparr>)
            (Some (161, 33, 36, 181)) tab
      in (t, EvAuthenticate Vpn [auth_request (replicate 32 97) Vpn]
            # EvTun (tun_settings Macos (client_tun_options (default_ClientConfig\<lparr>cc_vpn_transport := tr\<rparr>))) # ev, r))"
proof -
  let ?c = "default_ClientConfig\<lparr>cc_vpn_transport := tr\<rparr>"
  have connect: "connect_run (sample_main tr) ?c sa 1 500 1 = Inr ()" for sa
    by (simp add: connect_run_def connect_client_def connect_from.simps connect_once_def create_udp_socket_def sample_main_def
        default_ClientConfig_def rust_defs Let_def)
  have "cleanup_stale sim_exec (me_netstat (sample_main tr)) (Some (161, 33, 36, 181)) t = (t, Inr ())" for t
    by (simp add: cleanup_stale_def stale_routes_present_def sample_main_def lines_def)
  then have stale: "remove_stale sim_exec sample_args (sample_main tr) ?c (Some (161, 33, 36, 181)) t = call t (Inr ())" for t
    by (simp add: remove_stale_def)
  have crypto: "\<exists>q. quic_client_config (me_file_open (sample_main tr)) (me_pem_certs (sample_main tr)) (me_add_root (sample_main tr))
      (me_empty_roots (sample_main tr)) (me_quic_crypto (sample_main tr)) (me_default_transport (sample_main tr)) p n mtu cc = Inr q" for p n mtu cc
    by (simp add: quic_client_config_def read_certs_def sample_main_def)
  obtain q where q: "quic_client_config (me_file_open (sample_main tr)) (me_pem_certs (sample_main tr)) (me_add_root (sample_main tr))
      (me_empty_roots (sample_main tr)) (me_quic_crypto (sample_main tr)) (me_default_transport (sample_main tr))
      (cc_ca_cert_path ?c) (cc_datagram_buffer_bytes ?c) (cc_mtu ?c) (cc_congestion_controller ?c) = Inr q"
    using crypto by blast
  have toml: "load_toml (me_read_to_string (sample_main tr)) (me_toml (sample_main tr)) p = Inr ?c" for p
    by (simp add: load_toml_def sample_main_def)
  have args: "bench_target_mbps (ar_bench_target_mbps sample_args) = Inr None" "connect_retries (ar_connect_retries sample_args) = Inr 1"
    "connect_retry_delay_ms (ar_connect_retry_delay_ms sample_args) = Inr 500" "ar_bench sample_args = None" "\<not> ar_cleanup_routes sample_args"
    "\<not> ar_probe sample_args"
    by (simp_all add: sample_args_def bench_target_mbps_def connect_retries_def connect_retry_delay_ms_def bail_if_def word_less_nat_alt)
  have env: "me_parse_addr (sample_main tr) a = Inr (Some (161, 33, 36, 181))" "me_os (sample_main tr) = Macos"
    "me_max_datagram (sample_main x) = Some 1400" "me_build_tun (sample_main tr) ss = Inr ()" "unat (cc_mtu default_ClientConfig) = 1300"
    "client_authenticate_with_mode (me_auth_io (sample_main tr) n) tk md = ([WriteAll (auth_request tk md), Finish], Some (Inr ()))"
    for a ss n tk md x
    by (simp_all add: sample_main_def client_authenticate_with_mode_def default_ClientConfig_def rust_defs)
  have "client_session sim_exec sample_args (sample_main tr) ?c (Some (161, 33, 36, 181)) (replicate 32 97) None None 1 500 1 t =
     (let (t, ev, r) = client_tunnel sim_exec sample_args (sample_main tr) ?c (Some (161, 33, 36, 181)) t
      in (t, EvAuthenticate Vpn [auth_request (replicate 32 97) Vpn] # EvTun (tun_settings Macos (client_tun_options ?c)) # ev, r))" for t
    by (auto simp: client_session_def args env authenticate_run_def ensure_datagram_capacity_def create_tun_def Let_def case_prod_beta)
  then show ?thesis
    by (simp add: client_main_def toml sample_config env args stale sample_token_loads q [simplified] connect [simplified])
qed

section \<open>Properties\<close>

text \<open>
  C39: Connecting with a checked number of retries returns the first success, or the error of the last
  attempt after making exactly that many attempts; it pauses once between attempts when a delay is
  set, and the \<^verbatim>\<open>expect\<close> at its end is never reached.
\<close>

theorem connect_client_result:
  assumes "connect_retries v = Inr retries"
  shows "\<exists>k. 1 \<le> k \<and> k \<le> unat retries \<and> (\<forall>j. 1 \<le> j \<and> j < k \<longrightarrow> \<not> is_ok (attempts j))
     \<and> (is_ok (attempts k) \<or> k = unat retries)
     \<and> connect_client attempts retries delay_ms = (k, if delay_ms > 0 then k - 1 else 0, attempts k)"
proof -
  have "1 \<le> unat retries" using assms by (simp add: connect_retries_Inr_iff Suc_leI unat_gt_0)
  from connect_from_result [OF this, of attempts delay_ms 0] show ?thesis by (simp add: connect_client_def)
qed

theorem connect_client_result_witness:
  "connect_client (\<lambda>n. if n = 2 then Inr () else Inl (Bail ''x'')) 3 500 = (2, 1, Inr ())"
proof -
  let ?a = "\<lambda>n::nat. if n = 2 then Inr () else Inl (Bail ''x'')"
  have "connect_retries 3 = Inr 3" by (simp add: connect_retries_def bail_if_def word_less_nat_alt)
  from connect_client_result [OF this, of ?a 500] obtain k where
    k: "1 \<le> k" "k \<le> 3" "\<forall>j. 1 \<le> j \<and> j < k \<longrightarrow> \<not> is_ok (?a j)" "is_ok (?a k) \<or> k = 3"
    "connect_client ?a 3 500 = (k, k - 1, ?a k)"
    by (auto simp: word_less_nat_alt)
  have "k = 2" using k(1,2,4) k(3) [THEN spec, of 2] by (auto simp: is_ok_def split: if_splits)
  with k(5) show ?thesis by simp
qed

text \<open>
  C10: Whatever way the client's \<^verbatim>\<open>main\<close> ends (an error of any call, a finished pump, a signal), the
  routing table is the one it started with, or that table without the three destinations of the program
  itself (both half-default routes and the host route to the server), if the \<^verbatim>\<open>route\<close> command works: so it
  is the same when none of them were in it, whatever else was. This is so already when the connection
  has been closed and \<^verbatim>\<open>main\<close> waits for the endpoint to become idle. Before that, while it has not returned,
  the table may also have exactly the three routes of the tunnel added. Without an IPv4 address of the
  server the table is not touched.
\<close>

theorem client_main_restores_routes:
  assumes "route_spec exec table" and "client_main exec args env t = (t', events, r)"
  shows "case main_server args env of
           None \<Rightarrow> table t' = table t
         | Some ip \<Rightarrow>
             (r \<noteq> None \<or> EvClose ''client shutdown'' \<in> set events \<longrightarrow>
                table t' = table t \<or> table t' = without_routes ip (table t))
             \<and> (table t' = table t \<or> table t' = without_routes ip (table t)
                \<or> (\<exists>gateway vpn_gateway. table t' = split_routes ip gateway vpn_gateway (without_routes ip (table t))))"
proof (cases "main_server args env")
  case None
  with client_main_state [OF assms(1), of args env t] assms(2) show ?thesis by (simp add: routes_ok_def routes_kept_def)
next
  case (Some ip)
  with client_main_state [OF assms(1), of args env t] assms(2)
  have "table t' = table t \<or> table t' = without_routes ip (table t)
     \<or> r = None \<and> EvClose ''client shutdown'' \<notin> set events \<and> routes_installed ip (table t) (table t')"
    by (auto simp: routes_ok_def routes_kept_def)
  then show ?thesis unfolding Some option.case routes_installed_def [symmetric] by blast
qed

theorem client_main_restores_routes_witness:
  "\<exists>ev. client_main sim_exec sample_args (sample_main Datagram) sample_table =
     (sample_table, ev, Some (Inr ()))"
proof -
  obtain t ev r where run: "client_main sim_exec sample_args (sample_main Datagram) sample_table = (t, ev, r)"
    by (metis prod_cases3)
  have "main_server sample_args (sample_main Datagram) = Some (161, 33, 36, 181)"
    by (simp add: main_server_def load_toml_def sample_main_def)
  moreover have "without_routes (161, 33, 36, 181) sample_table = sample_table"
    by (simp add: sample_table_def without_routes_def fun_eq_iff ip_text_def dec.simps)
  ultimately have "r \<noteq> None \<longrightarrow> t = sample_table"
    using client_main_restores_routes [OF sim_exec_spec run] by auto
  moreover have "snd (snd (client_tunnel sim_exec sample_args (sample_main Datagram) (default_ClientConfig\<lparr>cc_vpn_transport := Datagram\<rparr>)
      (Some (161, 33, 36, 181)) sample_table)) = Some (Inr ())"
    using sample_install [of sample_table]
    by (auto simp: client_tunnel_def open_tunnel_def run_pumps_def shutdown_result_def shutdown_signal_def close_and_wait_def
        bind_act_result sample_main_def sample_args_def default_ClientConfig_def split: prod.split)
  then have "r = Some (Inr ())" using run by (simp add: sample_run case_prod_beta)
  ultimately show ?thesis using run by simp
qed

text \<open>
  C22: Over streams it does not: while the client waits for the server's packet stream nothing listens for
  the shutdown signal, which on macOS is after the routes have been installed. Until a stream comes,
  \<^verbatim>\<open>main\<close> has not returned whatever signal is sent, and all traffic is routed into the tunnel.
\<close>

theorem stream_client_waits_with_routes:
  assumes "route_spec exec table" and "without_routes server_ip (table t) = table t"
    and "me_os env = Macos" and "cc_route_all config" and "\<not> ar_no_routes args"
    and "cc_vpn_transport config = Stream" and "te_open_uni (me_tunnel env) = Inr ()" and "te_accept_uni (me_tunnel env) = None"
    and "route_install exec (me_route_get env) (Some server_ip) (cc_server_tun_ip config) t = (t1, Inr guard)"
  shows "client_tunnel exec args (env\<lparr>me_arm := arm\<rparr>) config (Some server_ip) t = (t1, [], None)
     \<and> table t1 = split_routes server_ip (rg_gateway guard) (cc_server_tun_ip config) (table t)"
  using route_install_spec [OF assms(1,2,9)] assms(3-9)
  by (simp add: client_tunnel_def open_tunnel_def open_streams_def)

theorem stream_client_waits_with_routes_witness:
  "\<exists>t1 (guard :: RouteGuard). client_tunnel sim_exec sample_args ((sample_main Stream)\<lparr>me_arm := ShutdownSignal\<rparr>)
       (default_ClientConfig\<lparr>cc_vpn_transport := Stream\<rparr>) (Some (161, 33, 36, 181)) (\<lambda>_. None) = (t1, [], None)
     \<and> t1 = split_routes (161, 33, 36, 181) (rg_gateway guard) (10, 66, 0, 1) (\<lambda>_. None)"
proof -
  obtain t1 g where "route_install sim_exec sample_gateway (Some (161, 33, 36, 181)) (10, 66, 0, 1) (\<lambda>_. None) = (t1, Inr g)"
    using sample_install [of "\<lambda>_. None"] by blast
  then have i: "route_install sim_exec (me_route_get (sample_main Stream)) (Some (161, 33, 36, 181))
      (cc_server_tun_ip (default_ClientConfig\<lparr>cc_vpn_transport := Stream\<rparr>)) (\<lambda>_. None) = (t1, Inr g)"
    by (simp add: sample_main_def default_ClientConfig_def)
  have "client_tunnel sim_exec sample_args ((sample_main Stream)\<lparr>me_arm := ShutdownSignal\<rparr>)
       (default_ClientConfig\<lparr>cc_vpn_transport := Stream\<rparr>) (Some (161, 33, 36, 181)) (\<lambda>_. None) = (t1, [], None)
     \<and> t1 = split_routes (161, 33, 36, 181) (rg_gateway g)
         (cc_server_tun_ip (default_ClientConfig\<lparr>cc_vpn_transport := Stream\<rparr>)) (\<lambda>_. None)"
    by (rule stream_client_waits_with_routes [OF sim_exec_spec _ _ _ _ _ _ _ i])
      (simp_all add: sample_main_def sample_args_def sample_tunnel_def default_ClientConfig_def without_routes_def fun_eq_iff)
  moreover have "cc_server_tun_ip default_ClientConfig = (10, 66, 0, 1)" by (simp add: default_ClientConfig_def)
  ultimately show ?thesis by (intro exI [of _ t1], intro exI [of _ g]) simp
qed

end
