(* ===== verification/Stream_Setup.thy ===== *)
theory Stream_Setup
  imports Prelude
begin

text \<open>
  How the two programs set up the packet streams of the stream transport: the \<^verbatim>\<open>VpnTransportMode::Stream\<close>
  arms of \<^verbatim>\<open>handle_connection\<close> in \<^verbatim>\<open>crates/litevpn-server/src/main.rs\<close> and of \<^verbatim>\<open>main\<close> in
  \<^verbatim>\<open>crates/litevpn-client/src/main.rs\<close>. Both open a stream, then wait to accept the peer's, and only then
  start the pump that writes. When \<^verbatim>\<open>accept_uni\<close> sees a stream is up to the QUIC library: \<open>announces\<close>
  says that opening alone makes it visible; the library documents that it does not, the peer is not
  notified until the stream is used. The lemmas: without the announcement neither side ever gets past
  \<^verbatim>\<open>accept_uni\<close>, with it both do.
\<close>

datatype side = ClientSide | ServerSide

fun peer :: "side \<Rightarrow> side" where
  "peer ClientSide = ServerSide"
| "peer ServerSide = ClientSide"

datatype setup_phase = AtOpen | AtAccept | Pumping | SetupFailed

record stream_setup =
  su_phase :: "side \<Rightarrow> setup_phase"
  su_opened :: "side \<Rightarrow> bool"
  su_written :: "side \<Rightarrow> bool"

definition setup_start :: "stream_setup \<Rightarrow> bool" where
  "setup_start s \<longleftrightarrow> s = \<lparr>su_phase = (\<lambda>_. AtOpen), su_opened = (\<lambda>_. False), su_written = (\<lambda>_. False)\<rparr>"

text \<open>What makes the stream of side \<open>x\<close> visible to its peer.\<close>

definition stream_visible :: "bool \<Rightarrow> stream_setup \<Rightarrow> side \<Rightarrow> bool" where
  "stream_visible announces s x \<longleftrightarrow> su_written s x \<or> announces \<and> su_opened s x"

inductive setup_step :: "bool \<Rightarrow> stream_setup \<Rightarrow> stream_setup \<Rightarrow> bool" for announces :: bool where
  open_uni: "su_phase s x = AtOpen
    \<Longrightarrow> setup_step announces s
          (s\<lparr>su_phase := (su_phase s)(x := AtAccept), su_opened := (su_opened s)(x := True)\<rparr>)"
| accept_uni: "su_phase s x = AtAccept \<Longrightarrow> stream_visible announces s (peer x)
    \<Longrightarrow> setup_step announces s (s\<lparr>su_phase := (su_phase s)(x := Pumping)\<rparr>)"
| pump_write: "su_phase s x = Pumping
    \<Longrightarrow> setup_step announces s (s\<lparr>su_written := (su_written s)(x := True)\<rparr>)"
| setup_fail: "su_phase s x \<in> {AtOpen, AtAccept, Pumping}
    \<Longrightarrow> setup_step announces s (s\<lparr>su_phase := (su_phase s)(x := SetupFailed)\<rparr>)"

inductive_cases setup_stepE: "setup_step announces s t"

definition silent :: "stream_setup \<Rightarrow> bool" where
  "silent s \<longleftrightarrow> (\<forall>x. su_phase s x \<noteq> Pumping \<and> \<not> su_written s x)"

interpretation streams: inv_system setup_start "setup_step False" silent
  by unfold_locales (auto simp: setup_start_def silent_def stream_visible_def elim!: setup_stepE split: if_splits)

lemma both_sides: "(\<lambda>_. c)(ClientSide := b, ServerSide := b) = (\<lambda>_. b)"
  using side.exhaust by (intro ext) (metis fun_upd_apply)

lemma setup_both_wait:
  "reach setup_start (setup_step announces)
     \<lparr>su_phase = (\<lambda>_. AtAccept), su_opened = (\<lambda>_. True), su_written = (\<lambda>_. False)\<rparr>"
proof -
  let ?s0 = "\<lparr>su_phase = (\<lambda>_. AtOpen), su_opened = (\<lambda>_. False), su_written = (\<lambda>_. False)\<rparr>"
  let ?s1 = "?s0\<lparr>su_phase := (su_phase ?s0)(ClientSide := AtAccept), su_opened := (su_opened ?s0)(ClientSide := True)\<rparr>"
  have "reach setup_start (setup_step announces) ?s0" by (rule reach_init) (simp add: setup_start_def)
  moreover have "setup_step announces ?s0 ?s1" by (rule open_uni) simp
  ultimately have r1: "reach setup_start (setup_step announces) ?s1" by (rule reach_step)
  have s2: "setup_step announces ?s1
      (?s1\<lparr>su_phase := (su_phase ?s1)(ServerSide := AtAccept), su_opened := (su_opened ?s1)(ServerSide := True)\<rparr>)"
    by (rule open_uni) simp
  from r1 s2 have "reach setup_start (setup_step announces)
      (?s1\<lparr>su_phase := (su_phase ?s1)(ServerSide := AtAccept), su_opened := (su_opened ?s1)(ServerSide := True)\<rparr>)"
    by (rule reach_step)
  then show ?thesis by (simp add: both_sides)
qed

text \<open>
  C23: In the stream transport no packet ever crosses the tunnel if, as the QUIC library documents, a
  stream becomes visible to the peer only when it is written to: in every reachable state neither side
  has left \<^verbatim>\<open>accept_uni\<close> for its pumps or written a byte, and from the state in which both wait the only
  way on is a failure.
\<close>

theorem stream_setup_deadlocks:
  assumes "reach setup_start (setup_step False) s"
  shows "su_phase s x \<noteq> Pumping \<and> \<not> su_written s x
     \<and> ((\<forall>y. su_phase s y = AtAccept) \<longrightarrow> setup_step False s t \<longrightarrow> (\<exists>y. su_phase t y = SetupFailed))"
proof -
  have "silent s" using assms by (rule streams.reach_inv)
  then show ?thesis by (auto simp: silent_def stream_visible_def elim!: setup_stepE)
qed

theorem stream_setup_deadlocks_witness:
  "\<exists>t. reach setup_start (setup_step False)
          \<lparr>su_phase = (\<lambda>_. AtAccept), su_opened = (\<lambda>_. True), su_written = (\<lambda>_. False)\<rparr>
     \<and> su_phase \<lparr>su_phase = (\<lambda>_. AtAccept), su_opened = (\<lambda>_. True), su_written = (\<lambda>_. False)\<rparr> ClientSide \<noteq> Pumping
     \<and> setup_step False \<lparr>su_phase = (\<lambda>_. AtAccept), su_opened = (\<lambda>_. True), su_written = (\<lambda>_. False)\<rparr> t
     \<and> (\<exists>y. su_phase t y = SetupFailed)"
proof -
  let ?s = "\<lparr>su_phase = (\<lambda>_. AtAccept), su_opened = (\<lambda>_. True), su_written = (\<lambda>_. False)\<rparr>"
  obtain t where t: "setup_step False ?s t" using setup_fail [of ?s ClientSide] by auto
  with stream_setup_deadlocks [OF setup_both_wait, of ClientSide t] setup_both_wait show ?thesis by auto
qed

text \<open>With the announcement both sides get to their pumps.\<close>

lemma announced_setup_completes:
  "\<exists>s. reach setup_start (setup_step True) s \<and> (\<forall>x. su_phase s x = Pumping)"
proof -
  let ?s = "\<lparr>su_phase = (\<lambda>_. AtAccept), su_opened = (\<lambda>_. True), su_written = (\<lambda>_. False)\<rparr>"
  let ?t = "?s\<lparr>su_phase := (su_phase ?s)(ClientSide := Pumping)\<rparr>"
  have "setup_step True ?s ?t" by (rule accept_uni) (simp_all add: stream_visible_def)
  with setup_both_wait have r: "reach setup_start (setup_step True) ?t" by (rule reach_step)
  have "setup_step True ?t (?t\<lparr>su_phase := (su_phase ?t)(ServerSide := Pumping)\<rparr>)"
    by (rule accept_uni) (simp_all add: stream_visible_def)
  with r have "reach setup_start (setup_step True) (?t\<lparr>su_phase := (su_phase ?t)(ServerSide := Pumping)\<rparr>)"
    by (rule reach_step)
  moreover have "su_phase (?t\<lparr>su_phase := (su_phase ?t)(ServerSide := Pumping)\<rparr>) x = Pumping" for x
    by (cases x) simp_all
  ultimately show ?thesis by blast
qed

end
