(* ===== verification/Spec2Isabelle.thy ===== *)
theory Spec2Isabelle
  imports Server_Main Keygen Client Stream_Setup
begin

text \<open>
  \<^bold>\<open>LiteVPN.\<close> A VPN over QUIC in four Rust crates (\<^verbatim>\<open>src/crates\<close>). \<^verbatim>\<open>litevpn-keygen\<close> writes a self-signed
  certificate, its key and a random token into files. \<^verbatim>\<open>litevpn-server\<close> loads them, creates a TUN device and
  accepts QUIC connections; every connection authenticates with the token over a stream of its own and
  asks either for the tunnel or for a benchmark. One client at a time has the tunnel: a new one takes the
  slot and the connection of the one before is closed. \<^verbatim>\<open>litevpn-client\<close> connects with retries,
  authenticates, and runs a benchmark, a probe or the tunnel; on macOS it routes all traffic into the
  tunnel and takes the routes away when it ends. \<^verbatim>\<open>litevpn-core\<close> holds what both share: configuration, the
  handshake, framing, pacing, the datagram window, the packet pumps, TLS settings and TUN options. The
  packets of the tunnel travel as QUIC datagrams or, framed, on a pair of QUIC streams.

  \<^bold>\<open>Theories and sources.\<close> A definition has the name of the function it models unless noted.

  \<^item> \<open>Prelude\<close>: machine integers, results and errors, and the generic interfaces as locales: \<open>codec\<close>,
    \<open>prefix_codec\<close>, \<open>inv_system\<close>, \<open>refinement\<close>. \<open>Actions\<close>: sequences of calls with early returns.
    \<open>Rust_Str\<close>, \<open>Rust_Text\<close>: UTF-8, \<^verbatim>\<open>trim\<close>, \<^verbatim>\<open>lines\<close>, \<^verbatim>\<open>split_whitespace\<close>, decimal numbers. \<open>F64\<close>: rounding to
    double precision.
  \<^item> \<open>Litevpn_Core\<close> (\<^verbatim>\<open>litevpn-core/src/lib.rs\<close>): the protocol constants. \<open>Auth\<close> (\<^verbatim>\<open>auth.rs\<close>): building and
    parsing a request, both ends of the handshake. \<open>Config\<close> (\<^verbatim>\<open>config.rs\<close>): the two configurations with
    their defaults and checks (\<open>validate_ServerConfig\<close>, \<open>validate_ClientConfig\<close>), loading of files.
    \<open>Crypto\<close> (\<^verbatim>\<open>crypto.rs\<close>; \<open>quic_server_config\<close> and \<open>quic_client_config\<close> are \<^verbatim>\<open>server_config\<close> and
    \<^verbatim>\<open>client_config\<close>). \<open>Tun\<close> (\<^verbatim>\<open>tun.rs\<close>).
  \<^item> \<^verbatim>\<open>litevpn-core/src/quic.rs\<close> is in four theories: \<open>Stream_Frame\<close> (framing and \<^verbatim>\<open>pump_stream_to_tun\<close>),
    \<open>Pacer\<close> (\<^verbatim>\<open>EgressPacer\<close>, methods with the prefix \<open>pacer_\<close>), \<open>Backlog\<close> (\<^verbatim>\<open>DatagramBacklog\<close>), \<open>Pump\<close> (the other
    pumps, the UDP socket, the capacity check); the statistics line is in \<open>Summary\<close>.
  \<^item> \<open>Keygen\<close> (\<^verbatim>\<open>litevpn-keygen/src/main.rs\<close>) over a file system with permission bits and faults.
  \<^item> \<open>Transport\<close>: the two packet transports, with the pumps side by side, that the ends of
    \<^verbatim>\<open>handle_connection\<close> and of the client's \<^verbatim>\<open>main\<close> have in common. \<open>Stream_Setup\<close>: how the two programs
    together set up the streams of the stream transport.
  \<^item> \<open>Server\<close> (\<^verbatim>\<open>litevpn-server/src/main.rs\<close>): the tasks of all connections as a step relation over the
    shared slot and counter; \<open>Server_Main\<close>: \<^verbatim>\<open>main\<close> up to its loop and \<^verbatim>\<open>handle_connection\<close> in sequence.
  \<^item> \<open>Summary\<close>, \<open>Bench\<close>: the benchmarks of both programs (prefixes \<open>server_run_\<close> and \<open>client_run_\<close>) and the
    summary line the server sends at the end of one.
  \<^item> \<open>Macos_Routes\<close> (\<^verbatim>\<open>litevpn-client/src/macos_routes.rs\<close>) and \<open>Client\<close> (\<^verbatim>\<open>litevpn-client/src/main.rs\<close>):
    route commands and guard, command-line checks, connecting, benchmark runs, and \<^verbatim>\<open>main\<close> as \<open>client_main\<close>
    with its parts \<open>client_session\<close> and \<open>client_tunnel\<close>.

  \<^bold>\<open>How the code is modelled.\<close> Unsigned integers are words of their width; a release build wraps where the
  code uses plain arithmetic, and that is what \<open>+\<close> on words does. Doubles are rationals rounded to 53 bits,
  half to even; the values that occur are far from overflow and subnormals, which the rounding ignores.
  Strings are lists of Unicode scalars. Instants and durations are numbers of nanoseconds; adding a duration
  to an instant panics when the seconds no longer fit 63 bits (\<open>instant_add\<close>). An error is
  the text that the source gives it, with the values left out, and a panic is an error value too.
  Everything outside the program is an argument: the outcome of a call, or a function with a named
  specification (\<open>read_to_end_spec\<close>, \<open>route_spec\<close>, \<open>fill_spec\<close>, \<open>hex_spec\<close>, the locales \<open>recv_stream\<close> and
  \<open>tun_device\<close>), which a witness or an interpretation meets with a concrete one. Loops that end are
  recursive functions with a termination proof; reading and waiting loops, which may not end, are partial
  functions into options, and their theorems say that they return; the endless pumps run over a list of
  rounds, so that a theorem about all lists is one about every moment of a run. \<open>None\<close> as the result of a
  program means that it has not returned: the client's authentication, the wait for the server's packet
  stream, the pumps, the hold of a probe and \<^verbatim>\<open>wait_idle\<close> may all not return. There is no fuel. The server's tasks interleave at every call
  that may wait, every atomic operation and every critical section; identifiers are words, and theorems
  that need them distinct say that fewer than \<open>2\<^sup>6\<^sup>4\<close> have been issued.

  \<^bold>\<open>What the theorems show.\<close>
  Authentication: a request survives printing and parsing, only well-formed ones parse, the server lets
  in, and answers OK to, exactly the requests with its token and lets nobody in when a call on the stream
  fails, and the outcome at both ends of the handshake is known, the server reading what the client has
  written and the client what the server has answered. Server: in every interleaving a connection gets the tunnel only after it has
  authenticated; the tasks refine an abstract slot with one holder, in which no evicted connection comes
  back; no clean-up hits another client; a server that starts is set up soundly and listens where its
  configuration says; a connection ends well only after a benchmark's summary or a whole packet stream,
  and over datagrams never. Packets: the receiving loop does for every sequence of bytes what a reference function
  says; what one side writes the other reads, whole, in order and unchanged; the pumps drop only what
  they must and end only for a reason. Rates: the pacer counts every packet, keeps its bound,
  does not oversleep, reacts the right way and does not panic in the first \<open>2\<^sup>6\<^sup>2\<close> seconds of the clock; an
  uplink that does not adapt keeps the configured rate over its whole life; the window of datagrams is
  kept and waiting for it ends. Benchmarks: client
  and server agree on their counts, the summary is read back exactly. Client: every request it sends is
  one the server takes, retries are as many as asked, and once it has returned or closed the
  connection of the tunnel it has added nothing to the routing table and removed nothing but routes of
  its own destinations. Across: from the generated files to a ready server and an
  accepted client. The theorems also show where the code does not do what it means to: the
  set-up of the stream transport deadlocks and leaves the client deaf to signals with its routes in
  place, a long benchmark panics the server, an older client can replace a newer one, and the key
  generator leaves the secrets readable when a permission cannot be set.

  \<^bold>\<open>Not modelled.\<close> Command-line parsing (a derive macro), TOML, PEM, TLS and QUIC themselves (third-party
  libraries, here parameters); logging and what is printed (\<^verbatim>\<open>print_local_bench\<close> and the text, not the
  values, of \<^verbatim>\<open>print_bench_aggregate\<close>), since nothing depends on it; the time that the sleeps between
  retries and runs take; opening a packet stream and running the commands \<^verbatim>\<open>route\<close> and \<^verbatim>\<open>netstat\<close> are taken
  to return; the unit tests; scripts, service files and documents, which are not Rust.
\<close>

lemma keygen_token_ok:
  assumes "keygen_main gen fill hex args w0 = (Inr (), w)" and "fill_spec fill" and "hex_spec hex"
    and "16 \<le> ka_token_bytes args" and "ka_token_bytes args \<le> 462"
  shows "\<exists>token. load_token (fs_read_to_string w) (token_path_of args) = Inr token
     \<and> wire_token token \<and> str_len token \<le> 925"
proof -
  obtain token where t: "length token = 2 * ka_token_bytes args" "list_all is_hex token"
    "load_token (fs_read_to_string w) (token_path_of args) = Inr token"
    using keygen_result [OF assms(1-3)] assms(4) by (auto split: if_splits)
  have "list_all is_ascii token" using hex_text [of token] t(2) by simp
  then have "str_len token \<le> 925" using t(1) assms(5) by (simp add: str_len_ascii)
  moreover have "wire_token token" using t(1,2) assms(4) by (intro hex_wire_token) auto
  ultimately show ?thesis using t(3) by blast
qed

text \<open>The calls of the server's start-up that leave the program, other than reading the files, succeed.\<close>

definition boot_calls_ok :: "('f, 'c, 'k, 'x) boot_env \<Rightarrow> ServerConfig \<Rightarrow> bool" where
  "boot_calls_ok env config \<longleftrightarrow>
     is_ok (bt_build_tun env (tun_settings (bt_os env) (server_tun_options config)))
     \<and> is_ok (bt_parse_addr env (sc_listen config))
     \<and> bt_socket env = \<lparr>se_new = Inr (), se_only_v6 = Inr (), se_recv = Inr (), se_send = Inr (), se_bind = Inr ()\<rparr>
     \<and> bt_runtime env = Some () \<and> bt_endpoint env = Inr ()"

text \<open>The TLS library takes what the certificate generator writes.\<close>

definition tls_takes :: "(u8 list, 'c, 'k, 'x) boot_env \<Rightarrow> (rstr \<times> rstr) result \<Rightarrow> bool" where
  "tls_takes env generated \<longleftrightarrow>
     (\<forall>cert key. generated = Inr (cert, key) \<longrightarrow>
        (\<exists>c k x. bt_pem_certs env (as_bytes cert) = [Inr c] \<and> bt_pem_key env (as_bytes key) = Inr (Some k)
           \<and> bt_single_cert env [c] k = Inr x \<and> bt_quic_crypto env x [ALPN] = Inr ()))"

lemma keygen_server_ready:
  assumes "keygen_main gen fill hex args w0 = (Inr (), w)"
    and "sc_cert_path config = cert_path_of args" and "sc_key_path config = key_path_of args"
    and "sc_auth_token_path config = token_path_of args" and "validate_ServerConfig config = Inr ()"
    and "bt_read_to_string env = fs_read_to_string w" and "bt_file_open env = fs_open w"
    and "load_toml (fs_read_to_string w) (bt_toml env) (bt_config_path env) = Inr config"
    and "boot_calls_ok env config" and "tls_takes env (gen [ka_server_name args])"
    and "load_token (fs_read_to_string w) (token_path_of args) = Inr token"
  shows "\<exists>ev r. server_startup env = ((), ev, Some (Inr r)) \<and> rd_token r = token"
proof -
  from assms(1) obtain cert key where g: "gen [ka_server_name args] = Inr (cert, key)"
    "fs_open w (cert_path_of args) = Inr (as_bytes cert)" "fs_open w (key_path_of args) = Inr (as_bytes key)"
    by (rule keygen_main_Inr) (auto simp: fs_open_def)
  with assms(10) obtain c k x where x: "bt_pem_certs env (as_bytes cert) = [Inr c]" "bt_pem_key env (as_bytes key) = Inr (Some k)"
    "bt_single_cert env [c] k = Inr x" "bt_quic_crypto env x [ALPN] = Inr ()"
    by (auto simp: tls_takes_def)
  obtain listen where l: "bt_parse_addr env (sc_listen config) = Inr listen"
    using assms(9) by (auto simp: boot_calls_ok_def is_ok_def split: sum.splits)
  obtain q where q: "quic_server_config (bt_file_open env) (bt_pem_certs env) (bt_pem_key env) (bt_single_cert env)
      (bt_quic_crypto env) (bt_default_transport env) (sc_cert_path config) (sc_key_path config)
      (sc_datagram_buffer_bytes config) (sc_mtu config) (sc_congestion_controller config) = Inr q"
    using g x assms(2,3,7) by (simp add: quic_server_config_def read_certs_def read_private_key_def)
  have "bt_build_tun env (tun_settings (bt_os env) (server_tun_options config)) = Inr ()"
    using assms(9) by (auto simp: boot_calls_ok_def is_ok_def split: sum.splits)
  moreover have "snd (create_udp_socket (bt_socket env) (is_ipv6 listen) listen (unat (sc_udp_recv_buffer_bytes config))
      (unat (sc_udp_send_buffer_bytes config))) = Inr ()"
    using assms(9) by (simp add: boot_calls_ok_def create_udp_socket_def Let_def)
  ultimately obtain ev where "server_startup env = ((), ev, Some (Inr \<lparr>rd_config = config, rd_token = token, rd_quic = q\<rparr>))"
    using server_startup_completes [OF _ assms(5) _ _ l q] assms(4,6,8,9,11)
    by (auto simp: boot_calls_ok_def)
  then show ?thesis by auto
qed

text \<open>
  C7: From key generation to the tunnel. With the files that a successful run of the key generator left
  (16 to 462 token bytes) at the paths of a valid server configuration, and TLS, the TUN device and the
  sockets working, the server gets ready; the token it serves is the one a client loads from the token
  file, and with it the handshake succeeds at both ends for every mode the protocol has, the server
  running the mode the client asked for.
\<close>

theorem keygen_to_tunnel:
  assumes "keygen_main gen fill hex args w0 = (Inr (), w)" and "fill_spec fill" and "hex_spec hex"
    and "16 \<le> ka_token_bytes args" and "ka_token_bytes args \<le> 462"
    and "sc_cert_path config = cert_path_of args" and "sc_key_path config = key_path_of args"
    and "sc_auth_token_path config = token_path_of args" and "validate_ServerConfig config = Inr ()"
    and "bt_read_to_string env = fs_read_to_string w" and "bt_file_open env = fs_open w"
    and "load_toml (fs_read_to_string w) (bt_toml env) (bt_config_path env) = Inr config"
    and "boot_calls_ok env config" and "tls_takes env (gen [ka_server_name args])"
    and "read_to_end_spec read_to_end" and "valid_mode mode"
  shows "\<exists>ev r. server_startup env = ((), ev, Some (Inr r))
     \<and> load_token (fs_read_to_string w) (token_path_of args) = Inr (rd_token r)
     \<and> handshake read_to_end (rd_token r) mode (rd_token r) = Some (Inr (), Inr mode)"
proof -
  obtain token where t: "load_token (fs_read_to_string w) (token_path_of args) = Inr token" "wire_token token" "str_len token \<le> 925"
    using keygen_token_ok [OF assms(1-5)] by blast
  have "handshake read_to_end token mode token = Some (Inr (), Inr mode)"
    using handshake_result [OF assms(15) t(2) assms(16) t(3)] by simp
  with keygen_server_ready [OF assms(1,6-14) t(1)] t(1) show ?thesis by auto
qed

definition sample_server_config :: ServerConfig where
  "sample_server_config = default_ServerConfig\<lparr>sc_cert_path := cert_path_of default_keygen_args,
     sc_key_path := key_path_of default_keygen_args, sc_auth_token_path := token_path_of default_keygen_args\<rparr>"

text \<open>A disk with an empty configuration file, which stands for the sample configuration.\<close>

definition sample_disk :: fs where
  "sample_disk = empty_fs\<lparr>fs_files := [lit ''server.toml'' \<mapsto> \<lparr>f_content = [], f_mode = 420\<rparr>]\<rparr>"

definition sample_server :: "fs \<Rightarrow> (u8 list, u8 list, u8 list, unit) boot_env" where
  "sample_server w = sample_boot\<lparr>bt_read_to_string := fs_read_to_string w, bt_file_open := fs_open w,
     bt_toml := (\<lambda>_. Inr sample_server_config)\<rparr>"

theorem keygen_to_tunnel_witness:
  "\<exists>w ev r. keygen_main (\<lambda>_. Inr (lit ''C'', lit ''K'')) (\<lambda>n. Inr (replicate n 0))
       (\<lambda>bs. replicate (2 * length bs) 48) default_keygen_args sample_disk = (Inr (), w)
     \<and> server_startup (sample_server w) = ((), ev, Some (Inr r))
     \<and> handshake (\<lambda>limit bs. if length bs \<le> limit then Inr bs else Inl (External ''too long''))
         (rd_token r) Vpn (rd_token r) = Some (Inr (), Inr Vpn)"
proof -
  let ?gen = "\<lambda>_. Inr (lit ''C'', lit ''K'')" and ?fill = "\<lambda>n. Inr (replicate n 0)"
  let ?hex = "\<lambda>bs. replicate (2 * length bs) 48"
  define r where "r = keygen_main ?gen ?fill ?hex default_keygen_args sample_disk"
  have "fst r = Inr ()"
    by (simp add: r_def keygen_main_def sample_disk_def empty_fs_def fs_then_def fs_write_def fs_set_permissions_def fault_def
        Let_def)
  then obtain w where run: "keygen_main ?gen ?fill ?hex default_keygen_args sample_disk = (Inr (), w)"
    by (cases r) (auto simp: r_def)
  have specs: "fill_spec ?fill" "hex_spec ?hex"
    "read_to_end_spec (\<lambda>limit bs. if length bs \<le> limit then Inr bs else Inl (External ''too long''))"
    by (auto simp: fill_spec_def hex_spec_def list_all_iff is_hex_def read_to_end_spec_def)
  have n: "16 \<le> ka_token_bytes default_keygen_args" "ka_token_bytes default_keygen_args \<le> 462"
    by (simp_all add: default_keygen_args_def)
  have config: "validate_ServerConfig sample_server_config = Inr ()"
    using conjunct1 [OF default_configs_valid] by (simp add: validate_ServerConfig_def sample_server_config_def)
  have "fs_files w (lit ''server.toml'') = fs_files sample_disk (lit ''server.toml'')"
    using run
    by (rule keygen_main_Inr)
      (simp add: cert_path_of_def key_path_of_def token_path_of_def path_join_def default_keygen_args_def)
  then have toml: "load_toml (fs_read_to_string w) (bt_toml (sample_server w)) (bt_config_path (sample_server w)) = Inr sample_server_config"
    by (simp add: load_toml_def sample_server_def sample_boot_def fs_read_to_string_def sample_disk_def from_utf8_def)
  have "boot_calls_ok (sample_server w) sample_server_config" "tls_takes (sample_server w) (?gen [ka_server_name default_keygen_args])"
    by (simp_all add: boot_calls_ok_def tls_takes_def sample_server_def sample_boot_def)
  from keygen_to_tunnel [OF run specs(1,2) n _ _ _ config _ _ toml this specs(3), of Vpn] show ?thesis
    using run by (auto simp: sample_server_config_def sample_server_def)
qed

lemma loaded_token_wire:
  assumes "load_token read p = Inr token" and "10 \<notin> set token" and "list_all is_scalar token"
  shows "wire_token token"
proof -
  obtain raw where raw: "token = trim raw" using assms(1) by (auto simp: load_token_def Let_def)
  have "token \<noteq> []" using load_token_long [OF assms(1)] by (auto simp: str_len_def)
  moreover from this have "last token \<noteq> 13" using trim_last [of raw] raw by (auto simp: is_whitespace_def)
  ultimately show ?thesis using assms(2,3) by (simp add: wire_token_def)
qed

text \<open>
  C8: Every authentication request that the client's \<^verbatim>\<open>main\<close> writes is one the server's parser takes and
  reads as the client's token and mode, in the first and in every later benchmark run, for every
  configuration and command line that the client's own checks let through, a token file of one line
  and a benchmark duration other than zero.
\<close>

theorem client_requests_accepted:
  assumes "EvAuthenticate mode writes \<in> set (fst (snd (client_main exec args env t)))"
    and "load_toml (me_read_to_string env) (me_toml env) (ar_config args) = Inr config"
    and "load_token (me_read_to_string env) (cc_auth_token_path config) = Inr token"
    and "10 \<notin> set token" and "list_all is_scalar token" and "ar_bench_duration_secs args \<noteq> 0"
  shows "\<forall>request \<in> set writes. parse_request request = Inr (token, mode)"
proof -
  obtain io where c: "validate_ClientConfig config = Inr ()"
    and w: "writes = written (fst (client_authenticate_with_mode io token mode))"
    and m: "mode = Vpn \<or> (\<exists>d n m. 64 \<le> n \<and> n \<le> unat (cc_mtu config) \<and> m \<noteq> Some 0
          \<and> mode = Bench d (ar_bench_duration_secs args) (of_nat n) m)"
    using client_main_auth [OF assms(1)] assms(2,3) by auto
  have "unat (cc_mtu config) \<le> 1400"
    using c by (auto simp: validate_ClientConfig_def validate_common_def rust_defs word_le_nat_alt not_less)
  then have "valid_mode mode"
    using m assms(6) by (auto simp: word_le_nat_alt unat_of_nat take_bit_nat_eq_self)
  from auth_request_parsed [OF loaded_token_wire [OF assms(3-5)] this] w show ?thesis
    by (auto dest!: client_writes_request)
qed

theorem client_requests_accepted_witness:
  "\<exists>writes. EvAuthenticate Vpn writes \<in> set (fst (snd (client_main sim_exec sample_args (sample_main Datagram) (\<lambda>_. None))))
     \<and> writes \<noteq> [] \<and> (\<forall>request \<in> set writes. parse_request request = Inr (replicate 32 97, Vpn))"
proof -
  have e: "EvAuthenticate Vpn [auth_request (replicate 32 97) Vpn]
      \<in> set (fst (snd (client_main sim_exec sample_args (sample_main Datagram) (\<lambda>_. None))))"
    by (simp add: sample_run case_prod_beta)
  have toml: "load_toml (me_read_to_string (sample_main Datagram)) (me_toml (sample_main Datagram)) (ar_config sample_args) =
      Inr (default_ClientConfig\<lparr>cc_vpn_transport := Datagram\<rparr>)"
    by (simp add: load_toml_def sample_main_def)
  have "list_all is_scalar (replicate 32 97)" "ar_bench_duration_secs sample_args \<noteq> 0"
    by (simp_all add: list_all_iff is_scalar_def sample_args_def)
  with client_requests_accepted [OF e toml sample_token_loads] e show ?thesis
    by (intro exI [of _ "[auth_request (replicate 32 97) Vpn]"]) simp
qed

end
